(* ===== verification/Prelude.thy ===== *)
theory Prelude
  imports Main
begin

text \<open>
  The base of the development: what an asynchronous TypeScript method of the control
  plane may do besides returning a value. A method is a function from the state to a
  result and the next state; the result is \<open>Inr\<close> of the value of the resolved promise or
  \<open>Inl\<close> of the exception of the rejected one. A rejected call keeps the state changes it
  made before it threw, as the services do. The theory also holds the rules that carry an
  invariant through such methods (\<open>post\<close>, \<open>keeps\<close>) and the list lemmas that several
  components share.
\<close>

section \<open>Exceptions\<close>

text \<open>
  \<open>HttpException\<close> is NestJS's class with its status code (\<open>BadRequestException\<close> is 400 and
  so on). \<open>JsError\<close> is any other \<open>Error\<close>. The three \<open>Thrown\<close> forms are thrown values that
  are not \<open>Error\<close> objects, which the services' \<open>errorMessage\<close> tells apart. \<open>OutOfFuel\<close> is no
  exception of the program: it is the result of a polling loop whose iteration budget of
  the model ran out, and the development shows where it cannot occur.
\<close>

datatype exn =
    HttpException nat string
  | JsError string
  | ThrownString string
  | ThrownNil
  | ThrownObject "string option"
  | OutOfFuel

abbreviation BadRequestException :: "string \<Rightarrow> exn" where
  "BadRequestException m \<equiv> HttpException 400 m"

abbreviation UnauthorizedException :: "string \<Rightarrow> exn" where
  "UnauthorizedException m \<equiv> HttpException 401 m"

abbreviation NotFoundException :: "string \<Rightarrow> exn" where
  "NotFoundException m \<equiv> HttpException 404 m"

abbreviation ConflictException :: "string \<Rightarrow> exn" where
  "ConflictException m \<equiv> HttpException 409 m"

abbreviation ServiceUnavailableException :: "string \<Rightarrow> exn" where
  "ServiceUnavailableException m \<equiv> HttpException 503 m"

section \<open>Methods as state transformers with exceptions\<close>

type_synonym ('s, 'a) eff = "'s \<Rightarrow> (exn + 'a) \<times> 's"

definition ret :: "'a \<Rightarrow> ('s, 'a) eff" where
  "ret x = (\<lambda>s. (Inr x, s))"

definition throw :: "exn \<Rightarrow> ('s, 'a) eff" where
  "throw e = (\<lambda>s. (Inl e, s))"

text \<open>\<open>bnd m f\<close> is \<open>f (await m)\<close>: an exception of \<open>m\<close> skips \<open>f\<close>.\<close>

definition bnd :: "('s, 'a) eff \<Rightarrow> ('a \<Rightarrow> ('s, 'b) eff) \<Rightarrow> ('s, 'b) eff" where
  "bnd m f = (\<lambda>s. case m s of (Inl e, t) \<Rightarrow> (Inl e, t) | (Inr x, t) \<Rightarrow> f x t)"

text \<open>\<open>catching m h\<close> is \<open>try { m } catch (e) { h e }\<close>.\<close>

definition catching :: "('s, 'a) eff \<Rightarrow> (exn \<Rightarrow> ('s, 'a) eff) \<Rightarrow> ('s, 'a) eff" where
  "catching m h = (\<lambda>s. case m s of (Inl e, t) \<Rightarrow> h e t | (Inr x, t) \<Rightarrow> (Inr x, t))"

text \<open>
  \<open>ensuring m f\<close> is \<open>try { m } finally { f }\<close>: \<open>f\<close> runs in both cases, and an exception of
  \<open>f\<close> replaces the outcome of \<open>m\<close>.
\<close>

definition ensuring :: "('s, 'a) eff \<Rightarrow> ('s, unit) eff \<Rightarrow> ('s, 'a) eff" where
  "ensuring m f = (\<lambda>s. case m s of (r, t) \<Rightarrow>
     (case f t of (Inl e, u) \<Rightarrow> (Inl e, u) | (Inr _, u) \<Rightarrow> (r, u)))"

definition get_st :: "('s, 's) eff" where
  "get_st = (\<lambda>s. (Inr s, s))"

definition modify :: "('s \<Rightarrow> 's) \<Rightarrow> ('s, unit) eff" where
  "modify f = (\<lambda>s. (Inr (), f s))"

definition gets :: "('s \<Rightarrow> 'a) \<Rightarrow> ('s, 'a) eff" where
  "gets f = (\<lambda>s. (Inr (f s), s))"

definition lift_sum :: "exn + 'a \<Rightarrow> ('s, 'a) eff" where
  "lift_sum r = (\<lambda>s. (r, s))"

definition when_eff :: "bool \<Rightarrow> ('s, unit) eff \<Rightarrow> ('s, unit) eff" where
  "when_eff b m = (if b then m else ret ())"

text \<open>\<open>for (const x of xs) await f x\<close>\<close>

fun for_each :: "('a \<Rightarrow> ('s, unit) eff) \<Rightarrow> 'a list \<Rightarrow> ('s, unit) eff" where
  "for_each f [] = ret ()"
| "for_each f (x # xs) = bnd (f x) (\<lambda>_. for_each f xs)"

subsection \<open>Running a method\<close>

named_theorems eff_run \<open>equations that run a method on a state\<close>

lemma ret_run [eff_run, simp]: "ret x s = (Inr x, s)"
  by (simp add: ret_def)

lemma throw_run [eff_run, simp]: "throw e s = (Inl e, s)"
  by (simp add: throw_def)

lemma bnd_run [eff_run]:
  "bnd m f s = (case m s of (Inl e, t) \<Rightarrow> (Inl e, t) | (Inr x, t) \<Rightarrow> f x t)"
  by (simp add: bnd_def)

lemma catching_run [eff_run]:
  "catching m h s = (case m s of (Inl e, t) \<Rightarrow> h e t | (Inr x, t) \<Rightarrow> (Inr x, t))"
  by (simp add: catching_def)

lemma ensuring_run [eff_run]:
  "ensuring m f s = (case m s of (r, t) \<Rightarrow>
     (case f t of (Inl e, u) \<Rightarrow> (Inl e, u) | (Inr _, u) \<Rightarrow> (r, u)))"
  by (simp add: ensuring_def)

lemma get_st_run [eff_run, simp]: "get_st s = (Inr s, s)"
  by (simp add: get_st_def)

lemma modify_run [eff_run, simp]: "modify f s = (Inr (), f s)"
  by (simp add: modify_def)

lemma gets_run [eff_run, simp]: "gets f s = (Inr (f s), s)"
  by (simp add: gets_def)

lemma lift_sum_run [eff_run, simp]: "lift_sum r s = (r, s)"
  by (simp add: lift_sum_def)

lemma bnd_ret [simp]: "bnd (ret x) f = f x"
  by (simp add: fun_eq_iff bnd_run)

lemma bnd_throw [simp]: "bnd (throw e) f = throw e"
  by (simp add: fun_eq_iff bnd_run)

lemma bnd_assoc: "bnd (bnd m f) g = bnd m (\<lambda>x. bnd (f x) g)"
  by (auto simp: fun_eq_iff bnd_run split: prod.splits sum.splits)

lemma when_eff_simps [simp]:
  "when_eff True m = m"
  "when_eff False m = ret ()"
  by (simp_all add: when_eff_def)

text \<open>How a sequence can have ended.\<close>

lemma bnd_Inr:
  "bnd m f s = (Inr y, u) \<longleftrightarrow> (\<exists>x t. m s = (Inr x, t) \<and> f x t = (Inr y, u))"
  by (auto simp: bnd_run split: prod.splits sum.splits)

lemma bnd_Inl:
  "bnd m f s = (Inl e, u) \<longleftrightarrow>
     m s = (Inl e, u) \<or> (\<exists>x t. m s = (Inr x, t) \<and> f x t = (Inl e, u))"
  by (auto simp: bnd_run split: prod.splits sum.splits)

lemma bnd_InrE:
  assumes "bnd m f s = (Inr y, u)"
  obtains x t where "m s = (Inr x, t)" and "f x t = (Inr y, u)"
  using assms by (auto simp: bnd_Inr)

section \<open>Pre- and postconditions\<close>

text \<open>
  \<open>post P m Q E\<close>: from a state with \<open>P\<close>, the method ends in a result and a state with \<open>Q\<close>,
  or in an exception and a state with \<open>E\<close>. \<open>keeps I m\<close> says the method keeps \<open>I\<close> however it
  ends.
\<close>

definition post ::
  "('s \<Rightarrow> bool) \<Rightarrow> ('s, 'a) eff \<Rightarrow> ('a \<Rightarrow> 's \<Rightarrow> bool) \<Rightarrow> (exn \<Rightarrow> 's \<Rightarrow> bool) \<Rightarrow> bool" where
  "post P m Q E \<longleftrightarrow>
     (\<forall>s. P s \<longrightarrow> (case m s of (Inr x, t) \<Rightarrow> Q x t | (Inl e, t) \<Rightarrow> E e t))"

definition keeps :: "('s \<Rightarrow> bool) \<Rightarrow> ('s, 'a) eff \<Rightarrow> bool" where
  "keeps I m \<longleftrightarrow> (\<forall>s r t. I s \<longrightarrow> m s = (r, t) \<longrightarrow> I t)"

named_theorems keeps_intros \<open>rules that carry an invariant through a method\<close>

lemma keepsI: "(\<And>s r t. I s \<Longrightarrow> m s = (r, t) \<Longrightarrow> I t) \<Longrightarrow> keeps I m"
  by (auto simp: keeps_def)

lemma keepsD: "keeps I m \<Longrightarrow> I s \<Longrightarrow> m s = (r, t) \<Longrightarrow> I t"
  by (auto simp: keeps_def)

lemma keeps_ret [keeps_intros]: "keeps I (ret x)"
  by (auto simp: keeps_def)

lemma keeps_throw [keeps_intros]: "keeps I (throw e)"
  by (auto simp: keeps_def)

lemma keeps_get_st [keeps_intros]: "keeps I get_st"
  by (auto simp: keeps_def)

lemma keeps_gets [keeps_intros]: "keeps I (gets f)"
  by (auto simp: keeps_def)

lemma keeps_lift_sum [keeps_intros]: "keeps I (lift_sum r)"
  by (auto simp: keeps_def)

lemma keeps_bnd [keeps_intros]:
  assumes m: "keeps I m" and f: "\<And>x. keeps I (f x)"
  shows "keeps I (bnd m f)"
proof (rule keepsI)
  fix s r u assume s: "I s" and run: "bnd m f s = (r, u)"
  obtain q t where q: "m s = (q, t)" by (cases "m s")
  have t: "I t" by (rule keepsD [OF m s q])
  show "I u"
  proof (cases q)
    case (Inl e)
    with run q t show ?thesis by (simp add: bnd_run)
  next
    case (Inr x)
    with run q have "f x t = (r, u)" by (simp add: bnd_run)
    then show ?thesis by (rule keepsD [OF f t])
  qed
qed

lemma keeps_catching [keeps_intros]:
  assumes m: "keeps I m" and h: "\<And>e. keeps I (h e)"
  shows "keeps I (catching m h)"
proof (rule keepsI)
  fix s r u assume s: "I s" and run: "catching m h s = (r, u)"
  obtain q t where q: "m s = (q, t)" by (cases "m s")
  have t: "I t" by (rule keepsD [OF m s q])
  show "I u"
  proof (cases q)
    case (Inr x)
    with run q t show ?thesis by (simp add: catching_run)
  next
    case (Inl e)
    with run q have "h e t = (r, u)" by (simp add: catching_run)
    then show ?thesis by (rule keepsD [OF h t])
  qed
qed

lemma keeps_ensuring [keeps_intros]:
  assumes m: "keeps I m" and f: "keeps I f"
  shows "keeps I (ensuring m f)"
proof (rule keepsI)
  fix s r u assume s: "I s" and run: "ensuring m f s = (r, u)"
  obtain q t where q: "m s = (q, t)" by (cases "m s")
  obtain q' t' where q': "f t = (q', t')" by (cases "f t")
  have "I t'" by (rule keepsD [OF f keepsD [OF m s q] q'])
  with run q q' show "I u" by (auto simp: ensuring_run split: sum.splits)
qed

lemma keeps_when_eff [keeps_intros]: "(b \<Longrightarrow> keeps I m) \<Longrightarrow> keeps I (when_eff b m)"
  by (auto simp: when_eff_def keeps_ret)

lemma keeps_if [keeps_intros]:
  "(b \<Longrightarrow> keeps I m) \<Longrightarrow> (\<not> b \<Longrightarrow> keeps I n) \<Longrightarrow> keeps I (if b then m else n)"
  by simp

lemma keeps_case_option [keeps_intros]:
  "(x = None \<Longrightarrow> keeps I m) \<Longrightarrow> (\<And>y. x = Some y \<Longrightarrow> keeps I (f y)) \<Longrightarrow>
   keeps I (case x of None \<Rightarrow> m | Some y \<Rightarrow> f y)"
  by (cases x) auto

lemma keeps_case_sum [keeps_intros]:
  "(\<And>y. x = Inl y \<Longrightarrow> keeps I (f y)) \<Longrightarrow> (\<And>y. x = Inr y \<Longrightarrow> keeps I (g y)) \<Longrightarrow>
   keeps I (case x of Inl y \<Rightarrow> f y | Inr y \<Rightarrow> g y)"
  by (cases x) auto

lemma keeps_case_prod [keeps_intros]:
  "(\<And>a b. x = (a, b) \<Longrightarrow> keeps I (f a b)) \<Longrightarrow> keeps I (case x of (a, b) \<Rightarrow> f a b)"
  by (cases x) auto

lemma keeps_Let [keeps_intros]: "(\<And>x. keeps I (f x)) \<Longrightarrow> keeps I (Let y f)"
  by simp

lemma keeps_for_each [keeps_intros]:
  "(\<And>x. x \<in> set xs \<Longrightarrow> keeps I (f x)) \<Longrightarrow> keeps I (for_each f xs)"
  by (induction xs) (auto intro!: keeps_intros)

lemma postI:
  "(\<And>s x t. P s \<Longrightarrow> m s = (Inr x, t) \<Longrightarrow> Q x t) \<Longrightarrow>
   (\<And>s e t. P s \<Longrightarrow> m s = (Inl e, t) \<Longrightarrow> E e t) \<Longrightarrow> post P m Q E"
  by (auto simp: post_def split: prod.splits sum.splits)

lemma post_Inr: "post P m Q E \<Longrightarrow> P s \<Longrightarrow> m s = (Inr x, t) \<Longrightarrow> Q x t"
  unfolding post_def by (metis (no_types, lifting) case_prod_conv old.sum.simps(6))

lemma post_Inl: "post P m Q E \<Longrightarrow> P s \<Longrightarrow> m s = (Inl e, t) \<Longrightarrow> E e t"
  unfolding post_def by (metis (no_types, lifting) case_prod_conv old.sum.simps(5))

lemma post_bnd:
  assumes m: "post P m R E" and f: "\<And>x. post (R x) (f x) Q E"
  shows "post P (bnd m f) Q E"
proof (rule postI)
  fix s y u assume s: "P s" and "bnd m f s = (Inr y, u)"
  then obtain x t where x: "m s = (Inr x, t)" and y: "f x t = (Inr y, u)"
    by (rule_tac bnd_InrE)
  show "Q y u" by (rule post_Inr [OF f post_Inr [OF m s x] y])
next
  fix s e u assume s: "P s" and "bnd m f s = (Inl e, u)"
  then consider "m s = (Inl e, u)" | x t where "m s = (Inr x, t)" "f x t = (Inl e, u)"
    by (auto simp: bnd_Inl)
  then show "E e u"
  proof cases
    case 1
    then show ?thesis by (rule post_Inl [OF m s])
  next
    case (2 x t)
    then show ?thesis by (blast intro: post_Inl [OF f post_Inr [OF m s]])
  qed
qed

lemma post_weaken:
  "post P m Q E \<Longrightarrow> (\<And>s. P' s \<Longrightarrow> P s) \<Longrightarrow> (\<And>x t. Q x t \<Longrightarrow> Q' x t) \<Longrightarrow>
   (\<And>e t. E e t \<Longrightarrow> E' e t) \<Longrightarrow> post P' m Q' E'"
  by (rule postI) (blast dest: post_Inr post_Inl)+

lemma post_ret: "(\<And>s. P s \<Longrightarrow> Q x s) \<Longrightarrow> post P (ret x) Q E"
  by (simp add: post_def)

lemma post_throw: "(\<And>s. P s \<Longrightarrow> E e s) \<Longrightarrow> post P (throw e) Q E"
  by (simp add: post_def)

lemma post_keeps: "keeps I m \<Longrightarrow> post I m (\<lambda>_. I) (\<lambda>_. I)"
  by (rule postI) (auto dest: keepsD)

text \<open>A first step that keeps the precondition.\<close>

lemma post_then:
  assumes "keeps I m" and "\<And>x. post I (f x) Q E" and "\<And>e s. I s \<Longrightarrow> E e s"
  shows "post I (bnd m f) Q E"
  by (rule post_bnd [where R = "\<lambda>_. I"]) (use assms in \<open>auto intro: post_weaken [OF post_keeps]\<close>)

lemma post_if:
  "(b \<Longrightarrow> post P m Q E) \<Longrightarrow> (\<not> b \<Longrightarrow> post P n Q E) \<Longrightarrow> post P (if b then m else n) Q E"
  by simp

lemma post_lift_sum:
  "(\<And>s y. P s \<Longrightarrow> r = Inr y \<Longrightarrow> Q y s) \<Longrightarrow> (\<And>s e. P s \<Longrightarrow> r = Inl e \<Longrightarrow> E e s) \<Longrightarrow>
   post P (lift_sum r) Q E"
  by (cases r) (simp_all add: post_def)

lemma post_catching:
  assumes "post P m Q R" and "\<And>e. post (R e) (h e) Q E"
  shows "post P (catching m h) Q E"
proof (rule postI)
  fix s y u assume s: "P s" and run: "catching m h s = (Inr y, u)"
  then consider "m s = (Inr y, u)" | e t where "m s = (Inl e, t)" "h e t = (Inr y, u)"
    by (auto simp: catching_run split: prod.splits sum.splits)
  then show "Q y u"
    by cases (use post_Inr [OF assms(1) s] post_Inr [OF assms(2) post_Inl [OF assms(1) s]] in blast)+
next
  fix s e u assume s: "P s" and run: "catching m h s = (Inl e, u)"
  then obtain e' t where "m s = (Inl e', t)" "h e' t = (Inl e, u)"
    by (auto simp: catching_run split: prod.splits sum.splits)
  then show "E e u" using post_Inl [OF assms(2) post_Inl [OF assms(1) s]] by blast
qed

section \<open>Lists\<close>

named_theorems list_facts \<open>list lemmas the components share\<close>

lemma filter_map_id [list_facts]:
  "(\<And>x. x \<in> set xs \<Longrightarrow> P (f x) = P x) \<Longrightarrow> filter P (map f xs) = map f (filter P xs)"
  by (induction xs) auto

lemma find_Some_set [list_facts]: "find P xs = Some x \<Longrightarrow> x \<in> set xs \<and> P x"
  by (induction xs) (auto split: if_splits)

lemma find_None_set [list_facts]: "find P xs = None \<longleftrightarrow> (\<forall>x \<in> set xs. \<not> P x)"
  by (induction xs) auto

lemma find_append [list_facts]:
  "find P (xs @ ys) = (case find P xs of None \<Rightarrow> find P ys | Some x \<Rightarrow> Some x)"
  by (induction xs) auto

lemma distinct_map_unique [list_facts]:
  "distinct (map f xs) \<Longrightarrow> x \<in> set xs \<Longrightarrow> y \<in> set xs \<Longrightarrow> f x = f y \<Longrightarrow> x = y"
  by (metis distinct_map inj_onD)

lemma map_update_id [list_facts]:
  "(\<And>x. x \<in> set xs \<Longrightarrow> f x = x) \<Longrightarrow> map f xs = xs"
  by (induction xs) auto

end
