(* ===== verification/JsString.thy ===== *)
theory JsString
  imports Prelude "HOL-Library.Sublist"
begin

text \<open>
  The JavaScript string operations the services use. A string is a list of code units;
  the model's code units are those below 256 (\<^typ>\<open>char\<close>), so \<open>length\<close> and \<open>slice\<close> count
  what JavaScript counts, and a program string with a code unit from 256 on is outside the
  model.
\<close>

section \<open>Character classes\<close>

definition is_digit :: "char \<Rightarrow> bool" where
  "is_digit c \<longleftrightarrow> (48::nat) \<le> of_char c \<and> of_char c \<le> (57::nat)"

definition is_lower_az :: "char \<Rightarrow> bool" where
  "is_lower_az c \<longleftrightarrow> (97::nat) \<le> of_char c \<and> of_char c \<le> (122::nat)"

definition is_upper_az :: "char \<Rightarrow> bool" where
  "is_upper_az c \<longleftrightarrow> (65::nat) \<le> of_char c \<and> of_char c \<le> (90::nat)"

text \<open>
  JavaScript white space and line terminators below 256: TAB, LF, VT, FF, CR, space and the
  no-break space.
\<close>

definition is_js_space :: "char \<Rightarrow> bool" where
  "is_js_space c \<longleftrightarrow> (of_char c :: nat) \<in> {9, 10, 11, 12, 13, 32, 160}"

text \<open>\<open>toLowerCase\<close>: A-Z and the Latin-1 capitals 192 to 222, but for the sign 215.\<close>

definition lower_char :: "char \<Rightarrow> char" where
  "lower_char c =
     (let n = of_char c :: nat in
      if (65 \<le> n \<and> n \<le> 90) \<or> (192 \<le> n \<and> n \<le> 222 \<and> n \<noteq> 215)
      then char_of (n + 32) else c)"

definition toLowerCase :: "string \<Rightarrow> string" where
  "toLowerCase s = map lower_char s"

section \<open>trim, slice, includes, split, join\<close>

definition drop_end :: "('a \<Rightarrow> bool) \<Rightarrow> 'a list \<Rightarrow> 'a list" where
  "drop_end P s = rev (dropWhile P (rev s))"

definition strip_ends :: "('a \<Rightarrow> bool) \<Rightarrow> 'a list \<Rightarrow> 'a list" where
  "strip_ends P s = drop_end P (dropWhile P s)"

definition trim :: "string \<Rightarrow> string" where
  "trim s = strip_ends is_js_space s"

text \<open>\<open>a || b\<close> on strings: the empty string is falsy.\<close>

definition str_or :: "string \<Rightarrow> string \<Rightarrow> string" where
  "str_or a b = (if a = [] then b else a)"

text \<open>\<open>s || undefined\<close> and \<open>s || null\<close>.\<close>

definition non_empty :: "string \<Rightarrow> string option" where
  "non_empty s = (if s = [] then None else Some s)"

text \<open>\<open>o?.trim() || undefined\<close>.\<close>

definition opt_trim :: "string option \<Rightarrow> string option" where
  "opt_trim x = (case x of None \<Rightarrow> None | Some s \<Rightarrow> non_empty (trim s))"

fun str_includes :: "string \<Rightarrow> string \<Rightarrow> bool" where
  "str_includes pat [] = (pat = [])"
| "str_includes pat (c # s) = (prefix pat (c # s) \<or> str_includes pat s)"

fun join :: "'a list \<Rightarrow> 'a list list \<Rightarrow> 'a list" where
  "join sep [] = []"
| "join sep [x] = x"
| "join sep (x # y # xs) = x @ sep @ join sep (y # xs)"

fun split_on :: "'a \<Rightarrow> 'a list \<Rightarrow> 'a list list" where
  "split_on d [] = [[]]"
| "split_on d (c # s) =
     (if c = d then [] # split_on d s
      else (case split_on d s of [] \<Rightarrow> [[c]] | w # ws \<Rightarrow> (c # w) # ws))"

lemma split_on_no_sep: "d \<notin> set s \<Longrightarrow> split_on d s = [s]"
  by (induction s) auto

lemma split_on_append: "d \<notin> set s \<Longrightarrow> split_on d (s @ d # t) = s # split_on d t"
  by (induction s) auto

lemma split_on_join:
  "\<forall>s \<in> set segs. d \<notin> set s \<Longrightarrow> segs \<noteq> [] \<Longrightarrow> split_on d (join [d] segs) = segs"
  by (induction "[d]" segs rule: join.induct) (auto simp: split_on_no_sep split_on_append)

text \<open>\<open>s.replace(/[P]+/g, r)\<close>: every maximal run of matching units becomes \<open>r\<close>.\<close>

function replace_runs :: "('a \<Rightarrow> bool) \<Rightarrow> 'a list \<Rightarrow> 'a list \<Rightarrow> 'a list" where
  "replace_runs P r [] = []"
| "replace_runs P r (c # s) =
     (if P c then r @ replace_runs P r (dropWhile P s) else c # replace_runs P r s)"
  by pat_completeness auto
termination
  by (relation "measure (\<lambda>(P, r, s). length s)") (auto simp: le_imp_less_Suc length_dropWhile_le)

section \<open>Lemmas\<close>

named_theorems str_facts \<open>facts about the string operations\<close>

lemma lower_char_not_upper [str_facts]: "\<not> is_upper_az (lower_char c)"
  by (auto simp: is_upper_az_def lower_char_def Let_def)

lemma lower_char_lower [str_facts]:
  "is_lower_az c \<or> is_digit c \<Longrightarrow> lower_char c = c"
  by (auto simp: is_lower_az_def is_digit_def lower_char_def Let_def)

lemma lower_char_upper [str_facts]: "is_upper_az c \<Longrightarrow> is_lower_az (lower_char c)"
  by (auto simp: is_lower_az_def is_upper_az_def lower_char_def Let_def)

lemma lower_char_az [str_facts]:
  "is_lower_az (lower_char c) \<longleftrightarrow> is_lower_az c \<or> is_upper_az c"
  by (auto simp: is_lower_az_def is_upper_az_def lower_char_def Let_def)

lemma lower_char_digit [str_facts]: "is_digit (lower_char c) \<longleftrightarrow> is_digit c"
  by (auto simp: is_digit_def lower_char_def Let_def)

lemma drop_end_Nil [simp]: "drop_end P [] = []"
  by (simp add: drop_end_def)

lemma drop_end_snoc [simp]:
  "drop_end P (xs @ [x]) = (if P x then drop_end P xs else xs @ [x])"
  by (simp add: drop_end_def)

lemma drop_end_prefix: "prefix (drop_end P xs) xs"
  unfolding drop_end_def
  by (metis suffix_dropWhile suffix_to_prefix rev_rev_ident)

lemma set_drop_end: "set (drop_end P xs) \<subseteq> set xs"
  by (rule set_mono_prefix [OF drop_end_prefix])

lemma length_drop_end: "length (drop_end P xs) \<le> length xs"
  using drop_end_prefix by (rule prefix_length_le)

lemma last_drop_end: "drop_end P xs \<noteq> [] \<Longrightarrow> \<not> P (last (drop_end P xs))"
  by (induction xs rule: rev_induct) auto

lemma drop_end_id: "xs = [] \<or> \<not> P (last xs) \<Longrightarrow> drop_end P xs = xs"
  by (induction xs rule: rev_induct) auto

lemma drop_end_eq_Nil: "drop_end P xs = [] \<longleftrightarrow> (\<forall>x \<in> set xs. P x)"
  by (simp add: drop_end_def dropWhile_eq_Nil_conv)

lemma hd_drop_end: "drop_end P xs \<noteq> [] \<Longrightarrow> hd (drop_end P xs) = hd xs"
  using drop_end_prefix [of P xs] by (cases "drop_end P xs") (auto elim: prefixE)

lemma strip_ends_hd: "strip_ends P xs \<noteq> [] \<Longrightarrow> \<not> P (hd (strip_ends P xs))"
proof -
  assume ne: "strip_ends P xs \<noteq> []"
  then have d: "dropWhile P xs \<noteq> []" by (metis drop_end_Nil strip_ends_def)
  have "hd (strip_ends P xs) = hd (dropWhile P xs)"
    using ne unfolding strip_ends_def by (rule hd_drop_end)
  with hd_dropWhile [OF d] show ?thesis by simp
qed

lemma strip_ends_last: "strip_ends P xs \<noteq> [] \<Longrightarrow> \<not> P (last (strip_ends P xs))"
  by (simp add: strip_ends_def last_drop_end)

lemma strip_ends_eq_Nil: "strip_ends P xs = [] \<longleftrightarrow> (\<forall>x \<in> set xs. P x)"
proof -
  have "strip_ends P xs = [] \<longleftrightarrow> dropWhile P xs = []"
    using hd_dropWhile [of P xs]
    by (cases "dropWhile P xs") (auto simp: strip_ends_def drop_end_eq_Nil dest: set_dropWhileD)
  then show ?thesis by (simp add: dropWhile_eq_Nil_conv)
qed

lemma strip_ends_id:
  "xs = [] \<or> (\<not> P (hd xs) \<and> \<not> P (last xs)) \<Longrightarrow> strip_ends P xs = xs"
  by (cases xs) (auto simp: strip_ends_def drop_end_id)

lemma strip_ends_sublist: "sublist (strip_ends P xs) xs"
proof -
  have "suffix (dropWhile P xs) xs" by (rule suffix_dropWhile)
  moreover have "prefix (strip_ends P xs) (dropWhile P xs)"
    by (simp add: strip_ends_def drop_end_prefix)
  ultimately show ?thesis
    by (meson prefix_imp_sublist sublist_order.order.trans suffix_imp_sublist)
qed

lemma set_strip_ends: "set (strip_ends P xs) \<subseteq> set xs"
  using strip_ends_sublist by (rule set_mono_sublist)

lemma length_strip_ends: "length (strip_ends P xs) \<le> length xs"
  using strip_ends_sublist by (rule sublist_length_le)

lemma trim_eq_Nil: "trim s = [] \<longleftrightarrow> (\<forall>c \<in> set s. is_js_space c)"
  by (simp add: trim_def strip_ends_eq_Nil)

lemma trim_id: "(\<forall>c \<in> set s. \<not> is_js_space c) \<Longrightarrow> trim s = s"
  by (cases s) (auto simp: trim_def strip_ends_id)

lemma trim_idem [simp]: "trim (trim s) = trim s"
  unfolding trim_def
  by (rule strip_ends_id) (use strip_ends_hd strip_ends_last in blast)

lemma includes_sublist: "str_includes pat s \<longleftrightarrow> sublist pat s"
  by (induction s) (auto simp: sublist_Cons_right)

end
