(* ===== verification/Json.thy ===== *)
theory Json
  imports JsString
begin

text \<open>
  \<open>JSON.stringify\<close> on the values the services print: null, booleans, integers, strings,
  arrays and objects whose properties come in insertion order. The control plane compares
  configurations by comparing their JSON texts; \<open>stringify_inj\<close> shows that this decides
  equality of the values, property order included.
\<close>

section \<open>Decimal numerals\<close>

definition digit_char :: "nat \<Rightarrow> char" where
  "digit_char d = char_of (48 + d)"

definition digit_val :: "char \<Rightarrow> nat" where
  "digit_val c = of_char c - 48"

fun nat_digits :: "nat \<Rightarrow> string" where
  "nat_digits n =
     (if n < 10 then [digit_char n] else nat_digits (n div 10) @ [digit_char (n mod 10)])"

declare nat_digits.simps [simp del]

definition digits_val :: "string \<Rightarrow> nat" where
  "digits_val s = foldl (\<lambda>v c. 10 * v + digit_val c) 0 s"

definition int_digits :: "int \<Rightarrow> string" where
  "int_digits i = (if i < 0 then CHR ''-'' # nat_digits (nat (- i)) else nat_digits (nat i))"

lemma of_char_digit: "d < 10 \<Longrightarrow> of_char (digit_char d) = 48 + d"
  by (simp add: digit_char_def)

lemma is_digit_digit_char: "d < 10 \<Longrightarrow> is_digit (digit_char d)"
  by (simp add: is_digit_def of_char_digit)

lemma digit_val_digit_char: "d < 10 \<Longrightarrow> digit_val (digit_char d) = d"
  by (simp add: digit_val_def of_char_digit)

lemma nat_digits_all: "list_all is_digit (nat_digits n)"
proof (induction n rule: nat_digits.induct)
  case (1 n)
  then show ?case
    by (subst nat_digits.simps) (auto simp: is_digit_digit_char)
qed

lemma nat_digits_not_Nil [simp]: "nat_digits n \<noteq> []"
  by (subst nat_digits.simps) simp

lemma digits_val_snoc: "digits_val (s @ [c]) = 10 * digits_val s + digit_val c"
  by (simp add: digits_val_def)

lemma digits_val_nat_digits [simp]: "digits_val (nat_digits n) = n"
proof (induction n rule: nat_digits.induct)
  case (1 n)
  show ?case
  proof (cases "n < 10")
    case True
    then show ?thesis
      by (subst nat_digits.simps) (simp add: digits_val_def digit_val_digit_char)
  next
    case False
    with 1 show ?thesis
      by (subst nat_digits.simps) (simp add: digits_val_snoc digit_val_digit_char)
  qed
qed

lemma takeWhile_append_stop:
  "list_all P xs \<Longrightarrow> r = [] \<or> \<not> P (hd r) \<Longrightarrow> takeWhile P (xs @ r) = xs"
  by (induction xs) (cases r; auto)+

text \<open>
  What may follow a value inside a JSON text: nothing, or one of the three characters that
  end it.
\<close>

definition delimited :: "string \<Rightarrow> bool" where
  "delimited r \<longleftrightarrow> r = [] \<or> hd r \<in> {CHR '','', CHR '']'', CHR ''}''}"

lemma delimited_not_digit: "delimited r \<Longrightarrow> r = [] \<or> \<not> is_digit (hd r)"
  by (auto simp: delimited_def is_digit_def)

lemma nat_digits_prefix_free:
  assumes "nat_digits m @ r = nat_digits n @ r'" and "delimited r" and "delimited r'"
  shows "m = n \<and> r = r'"
proof -
  have "nat_digits m = takeWhile is_digit (nat_digits m @ r)"
    using assms(2) by (simp add: takeWhile_append_stop nat_digits_all delimited_not_digit)
  also have "\<dots> = takeWhile is_digit (nat_digits n @ r')" using assms(1) by simp
  also have "\<dots> = nat_digits n"
    using assms(3) by (simp add: takeWhile_append_stop nat_digits_all delimited_not_digit)
  finally have "nat_digits m = nat_digits n" .
  with assms(1) show ?thesis by (metis append_same_eq digits_val_nat_digits same_append_eq)
qed

lemma hd_nat_digits: "is_digit (hd (nat_digits n))"
  using nat_digits_all [of n] by (cases "nat_digits n") auto

lemma dash_not_digits: "CHR ''-'' # a \<noteq> nat_digits n @ b"
  using hd_nat_digits [of n] by (cases "nat_digits n") (auto simp: is_digit_def)

lemma int_digits_prefix_free:
  assumes eq: "int_digits i @ r = int_digits j @ r'" and r: "delimited r" "delimited r'"
  shows "i = j \<and> r = r'"
proof (cases "i < 0"; cases "j < 0")
  assume neg: "i < 0" "j < 0"
  with eq have "nat_digits (nat (- i)) @ r = nat_digits (nat (- j)) @ r'"
    by (simp add: int_digits_def)
  from nat_digits_prefix_free [OF this r] neg show ?thesis by auto
next
  assume pos: "\<not> i < 0" "\<not> j < 0"
  with eq have "nat_digits (nat i) @ r = nat_digits (nat j) @ r'"
    by (simp add: int_digits_def)
  from nat_digits_prefix_free [OF this r] pos show ?thesis by auto
next
  assume "i < 0" "\<not> j < 0"
  with eq dash_not_digits show ?thesis by (simp add: int_digits_def)
next
  assume "\<not> i < 0" "j < 0"
  with eq [symmetric] dash_not_digits show ?thesis by (simp add: int_digits_def)
qed

section \<open>Strings\<close>

definition hex_char :: "nat \<Rightarrow> char" where
  "hex_char d = (if d < 10 then char_of (48 + d) else char_of (87 + d))"

definition escape_char :: "char \<Rightarrow> string" where
  "escape_char c =
     (let n = of_char c :: nat in
      if n = 34 then [CHR 0x5C, CHR 0x22]
      else if n = 92 then [CHR 0x5C, CHR 0x5C]
      else if n = 8 then [CHR 0x5C, CHR ''b'']
      else if n = 12 then [CHR 0x5C, CHR ''f'']
      else if n = 10 then [CHR 0x5C, CHR ''n'']
      else if n = 13 then [CHR 0x5C, CHR ''r'']
      else if n = 9 then [CHR 0x5C, CHR ''t'']
      else if n < 32
      then [CHR 0x5C, CHR ''u'', CHR ''0'', CHR ''0'', hex_char (n div 16), hex_char (n mod 16)]
      else [c])"

definition quote :: "string \<Rightarrow> string" where
  "quote s = CHR 0x22 # concat (map escape_char s) @ [CHR 0x22]"

section \<open>Values\<close>

datatype json =
    JNull
  | JBool bool
  | JNum int
  | JStr string
  | JArr "json list"
  | JObj "(string \<times> json) list"

fun stringify :: "json \<Rightarrow> string"
  and stringify_elems :: "json list \<Rightarrow> string"
  and stringify_props :: "(string \<times> json) list \<Rightarrow> string" where
  "stringify JNull = ''null''"
| "stringify (JBool b) = (if b then ''true'' else ''false'')"
| "stringify (JNum i) = int_digits i"
| "stringify (JStr s) = quote s"
| "stringify (JArr []) = ''[]''"
| "stringify (JArr (x # xs)) = ''['' @ stringify x @ stringify_elems xs"
| "stringify (JObj []) = ''{}''"
| "stringify (JObj ((k, x) # ps)) = ''{'' @ quote k @ '':'' @ stringify x @ stringify_props ps"
| "stringify_elems [] = '']''"
| "stringify_elems (x # xs) = '','' @ stringify x @ stringify_elems xs"
| "stringify_props [] = ''}''"
| "stringify_props ((k, x) # ps) = '','' @ quote k @ '':'' @ stringify x @ stringify_props ps"

section \<open>The printer is injective\<close>

text \<open>Reading one escaped character back, the inverse the proofs use.\<close>

definition hex_val :: "char \<Rightarrow> nat" where
  "hex_val h = (if is_digit h then of_char h - 48 else of_char h - 87)"

fun read_char :: "string \<Rightarrow> (char \<times> string) option" where
  "read_char (b # s) =
     (if b \<noteq> CHR 0x5C then Some (b, s)
      else (case s of
        [] \<Rightarrow> None
      | x # t \<Rightarrow>
          if x = CHR ''b'' then Some (char_of (8::nat), t)
          else if x = CHR ''f'' then Some (char_of (12::nat), t)
          else if x = CHR ''n'' then Some (char_of (10::nat), t)
          else if x = CHR ''r'' then Some (char_of (13::nat), t)
          else if x = CHR ''t'' then Some (char_of (9::nat), t)
          else if x = CHR ''u''
          then Some (char_of (16 * hex_val (t ! 2) + hex_val (t ! 3)), drop 4 t)
          else Some (x, t)))"
| "read_char [] = None"

lemma hex_val_hex_char: "d < 16 \<Longrightarrow> hex_val (hex_char d) = d"
  by (simp add: hex_val_def hex_char_def is_digit_def)

lemma char_of_eq_iff: "char_of n = c \<longleftrightarrow> n mod 256 = (of_char c :: nat)" for n :: nat
  by (metis of_char_of of_char_eq_iff)

lemma read_char_escape: "read_char (escape_char c @ r) = Some (c, r)"
proof -
  define n where "n = (of_char c :: nat)"
  have c: "c = char_of n" by (simp add: n_def)
  consider "n \<in> {34, 92, 8, 12, 10, 13, 9}" | "n \<notin> {34, 92, 8, 12, 10, 13, 9}" "n < 32"
    | "n \<notin> {34, 92}" "32 \<le> n" by fastforce
  then show ?thesis
  proof cases
    case 1
    moreover have "char_of (34::nat) = CHR 0x22" "char_of (92::nat) = CHR 0x5C"
      by (simp_all add: char_of_eq_iff)
    ultimately show ?thesis unfolding c by (auto simp: escape_char_def)
  next
    case 2
    then have "escape_char c =
        [CHR 0x5C, CHR ''u'', CHR ''0'', CHR ''0'', hex_char (n div 16), hex_char (n mod 16)]"
      by (simp add: escape_char_def n_def [symmetric] Let_def)
    with 2 show ?thesis by (simp add: hex_val_hex_char c)
  next
    case 3
    then have "escape_char c = [c]" by (auto simp: escape_char_def n_def [symmetric] Let_def)
    moreover have "c \<noteq> CHR 0x5C" using 3 by (auto simp: n_def)
    ultimately show ?thesis by simp
  qed
qed

lemma escape_char_prefix_free:
  assumes "escape_char c @ r = escape_char d @ r'"
  shows "c = d \<and> r = r'"
  using arg_cong [OF assms, of read_char] by (simp add: read_char_escape)

lemma escape_char_not_quote: "escape_char c @ r \<noteq> CHR 0x22 # r'"
  by (auto simp: escape_char_def Let_def)

lemma escape_prefix_free:
  "concat (map escape_char s) @ CHR 0x22 # r = concat (map escape_char s') @ CHR 0x22 # r' \<Longrightarrow>
   s = s' \<and> r = r'"
proof (induction s arbitrary: s')
  case Nil
  then show ?case
    by (cases s') (simp_all add: escape_char_not_quote [symmetric])
next
  case (Cons c s)
  show ?case
  proof (cases s')
    case Nil
    with Cons.prems show ?thesis by (simp add: escape_char_not_quote)
  next
    case (Cons d t)
    with Cons.prems
    have "escape_char c @ (concat (map escape_char s) @ CHR 0x22 # r) =
          escape_char d @ (concat (map escape_char t) @ CHR 0x22 # r')"
      by simp
    from escape_char_prefix_free [OF this] Cons.IH [of t] Cons show ?thesis by simp
  qed
qed

lemma quote_prefix_free: "quote s @ r = quote s' @ r' \<Longrightarrow> s = s' \<and> r = r'"
  using escape_prefix_free [of s r s' r'] by (simp add: quote_def)

lemma delimited_elems: "delimited (stringify_elems xs @ r)"
  by (cases xs) (auto simp: delimited_def)

lemma delimited_props: "delimited (stringify_props ps @ r)"
  by (cases ps rule: stringify_props.cases) (auto simp: delimited_def)

text \<open>The first character tells the constructor.\<close>

definition first_tag :: "char \<Rightarrow> nat" where
  "first_tag c =
     (if c = CHR ''n'' then 0 else if c = CHR ''t'' then 1 else if c = CHR ''f'' then 2
      else if c = CHR ''['' then 3 else if c = CHR ''{'' then 4 else if c = CHR 0x22 then 5
      else if is_digit c \<or> c = CHR ''-'' then 6 else 7)"

fun json_tag :: "json \<Rightarrow> nat" where
  "json_tag JNull = 0"
| "json_tag (JBool b) = (if b then 1 else 2)"
| "json_tag (JArr xs) = 3"
| "json_tag (JObj ps) = 4"
| "json_tag (JStr s) = 5"
| "json_tag (JNum i) = 6"

lemma int_digits_first: "first_tag (hd (int_digits i @ r)) = 6" "int_digits i \<noteq> []"
proof -
  have "is_digit c \<Longrightarrow> first_tag c = 6" for c
    by (auto simp: first_tag_def is_digit_def)
  moreover have "first_tag (CHR ''-'') = 6"
    by (simp add: first_tag_def)
  ultimately show "first_tag (hd (int_digits i @ r)) = 6"
    by (auto simp: int_digits_def hd_nat_digits)
  show "int_digits i \<noteq> []" by (simp add: int_digits_def)
qed

lemma stringify_first: "first_tag (hd (stringify x @ r)) = json_tag x" "stringify x \<noteq> []"
proof -
  show "first_tag (hd (stringify x @ r)) = json_tag x"
  proof (cases "\<exists>i. x = JNum i")
    case True
    then show ?thesis using int_digits_first(1) by auto
  next
    case False
    then show ?thesis
      by (cases x rule: stringify.cases) (auto simp: quote_def first_tag_def)
  qed
  show "stringify x \<noteq> []"
    by (cases x rule: stringify.cases) (auto simp: quote_def int_digits_first)
qed

lemma stringify_same_tag: "stringify x @ r = stringify y @ r' \<Longrightarrow> json_tag x = json_tag y"
  using stringify_first by metis

lemma stringify_no_bracket: "stringify x @ r \<noteq> CHR '']'' # r'"
proof
  assume "stringify x @ r = CHR '']'' # r'"
  then have "json_tag x = first_tag (CHR '']'')"
    using stringify_first(1) [of x r] by simp
  moreover have "json_tag x < 7" by (cases x) auto
  ultimately show False by (simp add: first_tag_def is_digit_def)
qed

lemma stringify_prefix_free:
  "stringify x @ r = stringify y @ r' \<Longrightarrow> delimited r \<Longrightarrow> delimited r' \<Longrightarrow> x = y \<and> r = r'"
  "stringify_elems xs @ r = stringify_elems ys @ r' \<Longrightarrow> xs = ys \<and> r = r'"
  "stringify_props ps @ r = stringify_props qs @ r' \<Longrightarrow> ps = qs \<and> r = r'"
proof (induction x and xs and ps arbitrary: y r r' and ys r r' and qs r r'
    rule: stringify_stringify_elems_stringify_props.induct)
  case 1
  with stringify_same_tag [OF "1.prems"(1)] show ?case by (cases y) (auto split: if_splits)
next
  case (2 b)
  with stringify_same_tag [OF "2.prems"(1)] show ?case by (cases y) (auto split: if_splits)
next
  case (3 i)
  from stringify_same_tag [OF "3.prems"(1)] obtain j where y: "y = JNum j"
    by (cases y) (auto split: if_splits)
  with 3 int_digits_prefix_free [of i r j r'] show ?case by simp
next
  case (4 s)
  from stringify_same_tag [OF "4.prems"(1)] obtain t where y: "y = JStr t"
    by (cases y) (auto split: if_splits)
  with 4 quote_prefix_free [of s r t r'] show ?case by simp
next
  case 5
  from stringify_same_tag [OF "5.prems"(1)] obtain ys where y: "y = JArr ys"
    by (cases y) (auto split: if_splits)
  with "5.prems"(1) show ?case
    by (cases ys) (auto simp: stringify_no_bracket [symmetric])
next
  case (6 x xs)
  from stringify_same_tag [OF "6.prems"(1)] obtain ys where y: "y = JArr ys"
    by (cases y) (auto split: if_splits)
  show ?case
  proof (cases ys)
    case Nil
    with "6.prems"(1) y show ?thesis by (simp add: stringify_no_bracket)
  next
    case (Cons z zs)
    with "6.prems"(1) y
    have eq: "stringify x @ (stringify_elems xs @ r) = stringify z @ (stringify_elems zs @ r')"
      by simp
    from "6.IH"(1) [OF eq delimited_elems delimited_elems]
    have "x = z" and tl: "stringify_elems xs @ r = stringify_elems zs @ r'" by simp_all
    with "6.IH"(2) [OF tl] y Cons show ?thesis by simp
  qed
next
  case 7
  from stringify_same_tag [OF "7.prems"(1)] obtain qs where y: "y = JObj qs"
    by (cases y) (auto split: if_splits)
  with "7.prems"(1) show ?case
    by (cases qs) (auto simp: quote_def)
next
  case (8 k x ps)
  from stringify_same_tag [OF "8.prems"(1)] obtain qs where y: "y = JObj qs"
    by (cases y) (auto split: if_splits)
  show ?case
  proof (cases qs)
    case Nil
    with "8.prems"(1) y show ?thesis by (simp add: quote_def)
  next
    case (Cons q qs')
    obtain l z where q: "q = (l, z)" by (cases q)
    with "8.prems"(1) y Cons
    have "quote k @ (CHR '':'' # stringify x @ stringify_props ps @ r) =
          quote l @ (CHR '':'' # stringify z @ stringify_props qs' @ r')"
      by simp
    from quote_prefix_free [OF this]
    have "k = l" and eq: "stringify x @ (stringify_props ps @ r) = stringify z @ (stringify_props qs' @ r')"
      by simp_all
    from "8.IH"(1) [OF eq delimited_props delimited_props]
    have "x = z" and tl: "stringify_props ps @ r = stringify_props qs' @ r'" by simp_all
    with "8.IH"(2) [OF tl] y Cons q \<open>k = l\<close> show ?thesis by simp
  qed
next
  case 9
  then show ?case by (cases ys) auto
next
  case (10 x xs)
  show ?case
  proof (cases ys)
    case Nil
    with "10.prems" show ?thesis by simp
  next
    case (Cons z zs)
    with "10.prems"
    have eq: "stringify x @ (stringify_elems xs @ r) = stringify z @ (stringify_elems zs @ r')"
      by simp
    from "10.IH"(1) [OF eq delimited_elems delimited_elems]
    have "x = z" and tl: "stringify_elems xs @ r = stringify_elems zs @ r'" by simp_all
    with "10.IH"(2) [OF tl] Cons show ?thesis by simp
  qed
next
  case 11
  then show ?case by (cases qs rule: stringify_props.cases) auto
next
  case (12 k x ps)
  show ?case
  proof (cases qs)
    case Nil
    with "12.prems" show ?thesis by simp
  next
    case (Cons q qs')
    obtain l z where q: "q = (l, z)" by (cases q)
    with "12.prems" Cons
    have "quote k @ (CHR '':'' # stringify x @ stringify_props ps @ r) =
          quote l @ (CHR '':'' # stringify z @ stringify_props qs' @ r')"
      by simp
    from quote_prefix_free [OF this]
    have "k = l" and eq: "stringify x @ (stringify_props ps @ r) = stringify z @ (stringify_props qs' @ r')"
      by simp_all
    from "12.IH"(1) [OF eq delimited_props delimited_props]
    have "x = z" and tl: "stringify_props ps @ r = stringify_props qs' @ r'" by simp_all
    with "12.IH"(2) [OF tl] Cons q \<open>k = l\<close> show ?thesis by simp
  qed
qed

lemma stringify_inj: "stringify x = stringify y \<longleftrightarrow> x = y"
  using stringify_prefix_free(1) [of x "[]" y "[]"] by (auto simp: delimited_def)

end
