(* ===== verification/Entities.thy ===== *)
theory Entities
  imports Json
begin

text \<open>
  The persisted data (database/*.entity.ts, ssh/entities/revoked-session.entity.ts): one
  record per entity class with the class's columns, the JSON columns' element types, the
  unique constraints of the decorators, and the JSON texts of the columns the control plane
  compares. Dates are integers (milliseconds since the epoch). A nullable or optional
  property is an option.
\<close>

section \<open>Element types of the JSON columns\<close>

datatype protocol = Tcp | Udp

datatype runtimeStatus =
  Provisioning | Running | Stopped | Draining | Deleting | Deleted | StatusError

text \<open>
  A port binding. JavaScript objects keep the insertion order of their properties and
  \<open>JSON.stringify\<close> prints in that order, so the model records the one order that varies:
  whether \<open>name\<close> is the last property (the SSH binding that \<open>buildSpec\<close> pushes) or the
  first (a binding made by \<open>resolvePorts\<close>).
\<close>

record portBinding =
  pb_name :: "string option"
  pb_containerPort :: int
  pb_hostPort :: int
  pb_protocol :: protocol
  pb_nameLast :: bool

record secretRecord =
  sr_env :: string
  sr_value :: string
  sr_placeholder :: "string option"
  sr_allowedHosts :: "string list"
  sr_allowedHostPatterns :: "string list"
  sr_allowAnyHostDangerous :: "bool option"
  sr_requireTlsIdentity :: "bool option"
  sr_injectHeaders :: "bool option"
  sr_injectBasicAuth :: "bool option"
  sr_injectQuery :: "bool option"
  sr_injectBody :: "bool option"

record mountRecord =
  mr_volumeId :: string
  mr_volumeName :: string
  mr_mountPath :: string
  mr_subpath :: "string option"
  mr_readOnly :: "bool option"

section \<open>Entities\<close>

record runtimeEntity =
  rt_id :: string
  rt_sandboxId :: string
  rt_name :: "string option"
  rt_sandboxName :: string
  rt_runtimeHostId :: string
  rt_portBindings :: "portBinding list"
  rt_primaryPort :: int
  rt_hostPort :: int
  rt_primaryPortProtocol :: protocol
  rt_public :: bool
  rt_authToken :: string
  rt_status :: runtimeStatus
  rt_image :: string
  rt_command :: "string list option"
  rt_environment :: "(string \<times> string) list option"
  rt_secrets :: "secretRecord list option"
  rt_workingDir :: "string option"
  rt_mounts :: "mountRecord list option"
  rt_cpu :: int
  rt_memoryMiB :: int
  rt_diskGiB :: int
  rt_autoStopMinutes :: "int option"
  rt_ephemeral :: bool
  rt_lastActiveAt :: "int option"
  rt_statusReason :: "string option"
  rt_createdAt :: int
  rt_updatedAt :: int

record runtimeHost =
  rh_id :: string
  rh_name :: string
  rh_baseUrl :: string
  rh_publicBaseUrl :: string
  rh_enabled :: bool
  rh_lastSeenAt :: "int option"

record portLease =
  pl_id :: string
  pl_runtimeHostId :: string
  pl_port :: int
  pl_runtimeId :: string
  pl_leasedAt :: int

record volumeEntity =
  vo_id :: string
  vo_name :: string
  vo_backendName :: string
  vo_quotaMiB :: "int option"
  vo_createdAt :: int
  vo_updatedAt :: int

record previewToken =
  sp_id :: string
  sp_token :: string
  sp_sandboxId :: string
  sp_port :: int
  sp_expiresAt :: int
  sp_createdAt :: int

record revokedSession =
  rv_id :: int
  rv_tokenHash :: string
  rv_revokedAt :: int

section \<open>Unique constraints\<close>

text \<open>
  Two rows clash when they agree on a unique column or group of columns. SQL null values
  are pairwise different, so two unnamed runtimes do not clash.
\<close>

definition runtime_clash :: "runtimeEntity \<Rightarrow> runtimeEntity \<Rightarrow> bool" where
  "runtime_clash a b \<longleftrightarrow>
     rt_sandboxId a = rt_sandboxId b \<or> (rt_name a \<noteq> None \<and> rt_name a = rt_name b)"

definition lease_clash :: "portLease \<Rightarrow> portLease \<Rightarrow> bool" where
  "lease_clash a b \<longleftrightarrow> pl_runtimeHostId a = pl_runtimeHostId b \<and> pl_port a = pl_port b"

definition volume_clash :: "volumeEntity \<Rightarrow> volumeEntity \<Rightarrow> bool" where
  "volume_clash a b \<longleftrightarrow> vo_name a = vo_name b \<or> vo_backendName a = vo_backendName b"

definition preview_clash :: "previewToken \<Rightarrow> previewToken \<Rightarrow> bool" where
  "preview_clash a b \<longleftrightarrow> sp_token a = sp_token b \<and> sp_port a = sp_port b"

definition revoked_clash :: "revokedSession \<Rightarrow> revokedSession \<Rightarrow> bool" where
  "revoked_clash a b \<longleftrightarrow> rv_tokenHash a = rv_tokenHash b"

text \<open>The host table has no unique constraint besides its primary key.\<close>

definition host_clash :: "runtimeHost \<Rightarrow> runtimeHost \<Rightarrow> bool" where
  "host_clash a b \<longleftrightarrow> rh_id a = rh_id b"

section \<open>Generated columns\<close>

text \<open>
  What the database fills in: the generated primary key and the creation date of a new row
  (\<open>stamp\<close>), the update date of a saved one (\<open>touch\<close>).
\<close>

definition runtime_stamp :: "string \<Rightarrow> int \<Rightarrow> runtimeEntity \<Rightarrow> runtimeEntity" where
  "runtime_stamp i t r = r\<lparr>rt_id := i, rt_createdAt := t, rt_updatedAt := t\<rparr>"

definition runtime_touch :: "int \<Rightarrow> runtimeEntity \<Rightarrow> runtimeEntity" where
  "runtime_touch t r = r\<lparr>rt_updatedAt := t\<rparr>"

definition lease_stamp :: "string \<Rightarrow> int \<Rightarrow> portLease \<Rightarrow> portLease" where
  "lease_stamp i t r = r\<lparr>pl_id := i, pl_leasedAt := t\<rparr>"

definition volume_stamp :: "string \<Rightarrow> int \<Rightarrow> volumeEntity \<Rightarrow> volumeEntity" where
  "volume_stamp i t r = r\<lparr>vo_id := i, vo_createdAt := t, vo_updatedAt := t\<rparr>"

definition volume_touch :: "int \<Rightarrow> volumeEntity \<Rightarrow> volumeEntity" where
  "volume_touch t r = r\<lparr>vo_updatedAt := t\<rparr>"

definition preview_stamp :: "string \<Rightarrow> int \<Rightarrow> previewToken \<Rightarrow> previewToken" where
  "preview_stamp i t r = r\<lparr>sp_id := i, sp_createdAt := t\<rparr>"

definition revoked_stamp :: "int \<Rightarrow> int \<Rightarrow> revokedSession \<Rightarrow> revokedSession" where
  "revoked_stamp i t r = r\<lparr>rv_id := i, rv_revokedAt := t\<rparr>"

text \<open>The host row brings its own key and has no generated column.\<close>

definition host_stamp :: "string \<Rightarrow> int \<Rightarrow> runtimeHost \<Rightarrow> runtimeHost" where
  "host_stamp i t r = r"

definition no_touch :: "int \<Rightarrow> 'r \<Rightarrow> 'r" where
  "no_touch t r = r"

section \<open>JSON texts of columns\<close>

definition json_opt :: "string \<Rightarrow> ('a \<Rightarrow> json) \<Rightarrow> 'a option \<Rightarrow> (string \<times> json) list" where
  "json_opt k f x = (case x of None \<Rightarrow> [] | Some v \<Rightarrow> [(k, f v)])"

definition protocol_json :: "protocol \<Rightarrow> json" where
  "protocol_json p = JStr (case p of Tcp \<Rightarrow> ''tcp'' | Udp \<Rightarrow> ''udp'')"

definition strings_json :: "string list \<Rightarrow> json" where
  "strings_json xs = JArr (map JStr xs)"

definition env_json :: "(string \<times> string) list \<Rightarrow> json" where
  "env_json kvs = JObj (map (\<lambda>(k, v). (k, JStr v)) kvs)"

definition portBinding_json :: "portBinding \<Rightarrow> json" where
  "portBinding_json b =
     (let name = json_opt ''name'' JStr (pb_name b);
          rest = [(''containerPort'', JNum (pb_containerPort b)),
                  (''hostPort'', JNum (pb_hostPort b)),
                  (''protocol'', protocol_json (pb_protocol b))]
      in JObj (if pb_nameLast b then rest @ name else name @ rest))"

definition mountRecord_json :: "mountRecord \<Rightarrow> json" where
  "mountRecord_json m =
     JObj ([(''volumeId'', JStr (mr_volumeId m)), (''volumeName'', JStr (mr_volumeName m)),
            (''mountPath'', JStr (mr_mountPath m))]
           @ json_opt ''subpath'' JStr (mr_subpath m)
           @ json_opt ''readOnly'' JBool (mr_readOnly m))"

definition secretRecord_json :: "secretRecord \<Rightarrow> json" where
  "secretRecord_json s =
     JObj ([(''env'', JStr (sr_env s)), (''value'', JStr (sr_value s))]
           @ json_opt ''placeholder'' JStr (sr_placeholder s)
           @ [(''allowedHosts'', strings_json (sr_allowedHosts s)),
              (''allowedHostPatterns'', strings_json (sr_allowedHostPatterns s))]
           @ json_opt ''allowAnyHostDangerous'' JBool (sr_allowAnyHostDangerous s)
           @ json_opt ''requireTlsIdentity'' JBool (sr_requireTlsIdentity s)
           @ json_opt ''injectHeaders'' JBool (sr_injectHeaders s)
           @ json_opt ''injectBasicAuth'' JBool (sr_injectBasicAuth s)
           @ json_opt ''injectQuery'' JBool (sr_injectQuery s)
           @ json_opt ''injectBody'' JBool (sr_injectBody s))"

definition json_equal :: "('a \<Rightarrow> json) \<Rightarrow> 'a list \<Rightarrow> 'a list \<Rightarrow> bool" where
  "json_equal f xs ys \<longleftrightarrow> stringify (JArr (map f xs)) = stringify (JArr (map f ys))"

subsection \<open>What comparing the texts decides\<close>

lemma json_equal_map: "json_equal f xs ys \<longleftrightarrow> map f xs = map f ys"
  by (simp add: json_equal_def stringify_inj)

lemma inj_map_eq: "(\<And>x y. f x = f y \<longleftrightarrow> x = y) \<Longrightarrow> map f xs = map f ys \<longleftrightarrow> xs = ys"
  by (metis inj_map_eq_map inj_def)

lemma strings_json_inj [simp]: "strings_json xs = strings_json ys \<longleftrightarrow> xs = ys"
  by (simp add: strings_json_def inj_map_eq)

lemma env_json_inj [simp]: "env_json xs = env_json ys \<longleftrightarrow> xs = ys"
  by (simp add: env_json_def inj_map_eq split: prod.splits)

lemma protocol_json_inj [simp]: "protocol_json p = protocol_json q \<longleftrightarrow> p = q"
  by (cases p; cases q) (simp_all add: protocol_json_def)

lemma keys_json_opt: "fst ` set (json_opt k f x) = (if x = None then {} else {k})"
  by (cases x) (simp_all add: json_opt_def)

lemma json_opt_append:
  assumes "k \<notin> fst ` set xs" and "k \<notin> fst ` set ys" and "\<And>u v. f u = f v \<longleftrightarrow> u = v"
  shows "json_opt k f a @ xs = json_opt k f b @ ys \<longleftrightarrow> a = b \<and> xs = ys"
  using assms by (cases a; cases b) (force simp: json_opt_def)+

lemma json_opt_eq:
  assumes "\<And>u v. f u = f v \<longleftrightarrow> u = v"
  shows "json_opt k f a = json_opt k f b \<longleftrightarrow> a = b"
  using assms by (cases a; cases b) (simp_all add: json_opt_def)

lemma mountRecord_json_inj [simp]: "mountRecord_json a = mountRecord_json b \<longleftrightarrow> a = b"
  by (cases a; cases b)
    (simp add: mountRecord_json_def json_opt_append json_opt_eq keys_json_opt)

lemma secretRecord_json_inj [simp]: "secretRecord_json a = secretRecord_json b \<longleftrightarrow> a = b"
  by (cases a; cases b)
    (simp add: secretRecord_json_def json_opt_append json_opt_eq keys_json_opt image_Un)

text \<open>Two bindings with the same text differ at most in the recorded order of a missing name.\<close>

definition same_binding :: "portBinding \<Rightarrow> portBinding \<Rightarrow> bool" where
  "same_binding a b \<longleftrightarrow>
     pb_name a = pb_name b \<and> pb_containerPort a = pb_containerPort b \<and>
     pb_hostPort a = pb_hostPort b \<and> pb_protocol a = pb_protocol b \<and>
     (pb_name a \<noteq> None \<longrightarrow> pb_nameLast a = pb_nameLast b)"

lemma portBinding_json_eq: "portBinding_json a = portBinding_json b \<longleftrightarrow> same_binding a b"
  by (cases "pb_name a"; cases "pb_name b")
    (auto simp: portBinding_json_def same_binding_def json_opt_def Let_def split: if_splits)

end
