(* ===== verification/Repository.thy ===== *)
theory Repository
  imports Entities
begin

text \<open>
  The interface of a TypeORM \<open>Repository\<close> as the services use it. TypeORM and SQLite are not
  part of the program, so a repository is a record of operations that the services take as
  an argument, and the locale \<open>repository\<close> states the documented behaviour the proofs rely
  on. A table is the list of its rows, oldest first. I/O failures of the database file are
  not modelled; a violated unique constraint is. \<open>mem_repo\<close> is a reference table, which
  shows that the laws can hold for every entity of the schema and lets the witnesses run.
\<close>

section \<open>The operations\<close>

text \<open>
  \<open>findOne p\<close> stands for \<open>findOne\<close> and \<open>findOneBy\<close> with the criterion \<open>p\<close>; which of several
  matching rows it returns is up to the database. \<open>findDesc c\<close> is \<open>find\<close> with a descending
  order on a column. \<open>insertRow\<close> is \<open>save\<close> of an entity made by \<open>create\<close> that has no key yet,
  \<open>saveRow\<close> is \<open>save\<close> of a loaded entity; both return the saved entity. \<open>deleteRows p\<close> is
  \<open>delete\<close> with the criterion \<open>p\<close>.
\<close>

record 'r repo =
  findOne :: "('r \<Rightarrow> bool) \<Rightarrow> 'r list \<Rightarrow> 'r option"
  findDesc :: "('r \<Rightarrow> int) \<Rightarrow> 'r list \<Rightarrow> 'r list"
  insertRow :: "'r \<Rightarrow> 'r list \<Rightarrow> (exn + 'r) \<times> 'r list"
  saveRow :: "'r \<Rightarrow> 'r list \<Rightarrow> (exn + 'r) \<times> 'r list"
  deleteRows :: "('r \<Rightarrow> bool) \<Rightarrow> 'r list \<Rightarrow> 'r list"

section \<open>The laws\<close>

definition replace_row :: "('r \<Rightarrow> 'k) \<Rightarrow> 'r \<Rightarrow> 'r list \<Rightarrow> 'r list" where
  "replace_row key r t = map (\<lambda>x. if key x = key r then r else x) t"

text \<open>A table in which the key and the unique constraints hold.\<close>

definition table_ok :: "('r \<Rightarrow> 'k) \<Rightarrow> ('r \<Rightarrow> 'r \<Rightarrow> bool) \<Rightarrow> 'r list \<Rightarrow> bool" where
  "table_ok key clash t \<longleftrightarrow> distinct (map key t) \<and> sorted_wrt (\<lambda>a b. \<not> clash a b) t"

lemma filter_replace_row:
  assumes "distinct (map key t)" and "key r \<in> key ` set t"
  shows "filter (\<lambda>x. key x = key r) (replace_row key r t) = [r]"
  using assms
proof (induction t)
  case (Cons a t)
  have rest: "filter (\<lambda>x. key x = key r) (replace_row key r t) = []" if "key a = key r"
    using that Cons.prems(1) by (auto simp: replace_row_def filter_empty_conv image_iff)
  from Cons rest show ?case by (auto simp: replace_row_def)
qed simp

lemma filter_replace_others:
  "filter (\<lambda>x. key x \<noteq> key r) (replace_row key r t) = filter (\<lambda>x. key x \<noteq> key r) t"
  by (induction t) (auto simp: replace_row_def)

locale repository =
  fixes R :: "'r repo"
    and key :: "'r \<Rightarrow> 'k"
    and clash :: "'r \<Rightarrow> 'r \<Rightarrow> bool"
    and stamp :: "'k \<Rightarrow> int \<Rightarrow> 'r \<Rightarrow> 'r"
    and touch :: "int \<Rightarrow> 'r \<Rightarrow> 'r"
  assumes findOne_None: "findOne R p t = None \<longleftrightarrow> (\<forall>r \<in> set t. \<not> p r)"
    and findOne_Some: "findOne R p t = Some r \<Longrightarrow> r \<in> set t \<and> p r"
    and findDesc_set: "set (findDesc R col t) = set t"
    and findDesc_length: "length (findDesc R col t) = length t"
    and findDesc_sorted: "sorted_wrt (\<lambda>a b. col b \<le> col a) (findDesc R col t)"
    and insert_ok: "(\<forall>x \<in> set t. \<not> clash r x) \<Longrightarrow>
      \<exists>i c. insertRow R r t = (Inr (stamp i c r), t @ [stamp i c r]) \<and> key (stamp i c r) \<notin> key ` set t"
    and insert_clash: "x \<in> set t \<Longrightarrow> clash r x \<Longrightarrow> \<exists>e. insertRow R r t = (Inl e, t)"
    and save_ok: "key r \<in> key ` set t \<Longrightarrow> (\<forall>x \<in> set t. key x \<noteq> key r \<longrightarrow> \<not> clash r x) \<Longrightarrow>
      \<exists>c. saveRow R r t = (Inr (touch c r), replace_row key (touch c r) t)"
    and save_clash: "x \<in> set t \<Longrightarrow> key x \<noteq> key r \<Longrightarrow> clash r x \<Longrightarrow> \<exists>e. saveRow R r t = (Inl e, t)"
    and save_absent: "key r \<notin> key ` set t \<Longrightarrow> (\<forall>x \<in> set t. \<not> clash r x) \<Longrightarrow>
      \<exists>c. saveRow R r t = (Inr (touch c r), t @ [touch c r])"
    and delete_rows: "deleteRows R p t = filter (\<lambda>r. \<not> p r) t"
    and clash_sym: "clash a b \<longleftrightarrow> clash b a"
    and clash_stamp: "clash (stamp i c a) b \<longleftrightarrow> clash a b"
    and clash_touch: "clash (touch c a) b \<longleftrightarrow> clash a b"
    and key_touch: "key (touch c a) = key a"
begin

lemma clash_stamp_right: "clash b (stamp i c a) \<longleftrightarrow> clash b a"
  using clash_sym clash_stamp by blast

lemma clash_touch_right: "clash b (touch c a) \<longleftrightarrow> clash b a"
  using clash_sym clash_touch by blast

lemma insert_cases:
  obtains (ok) i c where "\<forall>x \<in> set t. \<not> clash r x"
      and "insertRow R r t = (Inr (stamp i c r), t @ [stamp i c r])"
      and "key (stamp i c r) \<notin> key ` set t"
    | (clash) e where "\<exists>x \<in> set t. clash r x" and "insertRow R r t = (Inl e, t)"
  using insert_ok [of t r] insert_clash [of _ t r] by blast

lemma save_cases:
  obtains (ok) c where "\<forall>x \<in> set t. key x \<noteq> key r \<longrightarrow> \<not> clash r x" and "key r \<in> key ` set t"
      and "saveRow R r t = (Inr (touch c r), replace_row key (touch c r) t)"
    | (absent) c where "\<forall>x \<in> set t. \<not> clash r x" and "key r \<notin> key ` set t"
      and "saveRow R r t = (Inr (touch c r), t @ [touch c r])"
    | (clash) e where "\<exists>x \<in> set t. key x \<noteq> key r \<and> clash r x" and "saveRow R r t = (Inl e, t)"
proof (cases "\<exists>x \<in> set t. key x \<noteq> key r \<and> clash r x")
  case True
  then obtain x where x: "x \<in> set t" "key x \<noteq> key r" "clash r x" by blast
  from save_clash [OF x] obtain e where "saveRow R r t = (Inl e, t)" by blast
  with True show thesis by (rule clash)
next
  case False
  then have no: "\<forall>x \<in> set t. key x \<noteq> key r \<longrightarrow> \<not> clash r x" by blast
  show thesis
  proof (cases "key r \<in> key ` set t")
    case True
    from save_ok [OF this no] obtain c where
      "saveRow R r t = (Inr (touch c r), replace_row key (touch c r) t)" by blast
    with no True show thesis by (rule ok)
  next
    case new: False
    with no have "\<forall>x \<in> set t. \<not> clash r x" by (metis image_eqI)
    with save_absent [OF new this] new show thesis using absent by blast
  qed
qed

lemma insert_keeps_ok:
  assumes ok: "table_ok key clash t" and ins: "insertRow R r t = (q, t')"
  shows "table_ok key clash t'"
proof (cases rule: insert_cases [of t r])
  case (ok i c)
  then show ?thesis
    using \<open>table_ok key clash t\<close> ins clash_sym [of r]
    by (auto simp: table_ok_def sorted_wrt_append clash_stamp_right)
next
  case (clash e)
  with ok ins show ?thesis by simp
qed

lemma keys_replace_row [simp]: "map key (replace_row key r t) = map key t"
  by (simp add: replace_row_def)

lemma replace_keeps_ok:
  assumes ok: "table_ok key clash t" and no: "\<forall>x \<in> set t. key x \<noteq> key r \<longrightarrow> \<not> clash r x"
  shows "table_ok key clash (replace_row key r t)"
proof -
  define f where "f x = (if key x = key r then r else x)" for x
  have step: "\<not> clash (f a) (f b)"
    if "a \<in> set t" "b \<in> set t" "\<not> clash a b" "key a \<noteq> key b" for a b
    using that no clash_sym [of a r] unfolding f_def by (metis (full_types))
  have "sorted_wrt (\<lambda>a b. key a \<noteq> key b \<and> \<not> clash a b) t"
    using ok unfolding table_ok_def
    by (auto simp: sorted_wrt_iff_nth_less nth_eq_iff_index_eq distinct_map inj_on_eq_iff)
  then have "sorted_wrt (\<lambda>a b. \<not> clash (f a) (f b)) t"
    by (rule sorted_wrt_mono_rel [rotated]) (use step in blast)
  then have "sorted_wrt (\<lambda>a b. \<not> clash a b) (map f t)"
    by (simp add: sorted_wrt_map)
  moreover have eq: "replace_row key r t = map f t" by (simp add: replace_row_def f_def)
  moreover have "map key (map f t) = map key t" using keys_replace_row [of r t] eq by simp
  ultimately show ?thesis using ok unfolding table_ok_def eq by (simp only: simp_thms)
qed

lemma save_keeps_ok:
  assumes ok: "table_ok key clash t" and save: "saveRow R r t = (q, t')"
  shows "table_ok key clash t'"
proof (cases rule: save_cases [of t r])
  case (ok c)
  then show ?thesis
    using \<open>table_ok key clash t\<close> save replace_keeps_ok [of t "touch c r"]
    by (simp add: clash_touch key_touch)
next
  case (absent c)
  then show ?thesis
    using \<open>table_ok key clash t\<close> save clash_sym [of r]
    by (auto simp: table_ok_def sorted_wrt_append clash_touch_right key_touch)
next
  case (clash e)
  with ok save show ?thesis by simp
qed

lemma delete_keeps_ok: "table_ok key clash t \<Longrightarrow> table_ok key clash (deleteRows R p t)"
  by (simp add: table_ok_def delete_rows distinct_map_filter sorted_wrt_filter)

text \<open>A criterion that at most one row meets picks that row.\<close>

lemma findOne_unique:
  assumes r: "r \<in> set t" "p r" and only: "\<And>x. x \<in> set t \<Longrightarrow> p x \<Longrightarrow> x = r"
  shows "findOne R p t = Some r"
proof (cases "findOne R p t")
  case None
  then have "\<not> p r" using r(1) by (auto simp: findOne_None)
  with r(2) show ?thesis by blast
next
  case (Some x)
  with findOne_Some [OF Some] only [of x] show ?thesis by simp
qed

lemma row_by_key:
  "table_ok key clash t \<Longrightarrow> a \<in> set t \<Longrightarrow> b \<in> set t \<Longrightarrow> key a = key b \<Longrightarrow> a = b"
  unfolding table_ok_def by (blast intro: distinct_map_unique)

lemma row_by_clash:
  assumes "table_ok key clash t" and "a \<in> set t" and "b \<in> set t" and "clash a b"
  shows "a = b"
proof (rule ccontr)
  assume "a \<noteq> b"
  obtain i j where ij: "i < length t" "t ! i = a" "j < length t" "t ! j = b"
    using assms(2,3) by (auto simp: in_set_conv_nth)
  have no: "\<not> clash (t ! i) (t ! j)" if "i < j" "j < length t" for i j
    using assms(1) that by (simp add: table_ok_def sorted_wrt_iff_nth_less)
  have "i < j \<or> j < i" using ij \<open>a \<noteq> b\<close> by (metis nat_neq_iff)
  then show False using ij no [of i j] no [of j i] assms(4) clash_sym [of a b] by auto
qed

end

section \<open>A reference table\<close>

definition mem_insert ::
  "('r \<Rightarrow> 'r \<Rightarrow> bool) \<Rightarrow> ('k \<Rightarrow> int \<Rightarrow> 'r \<Rightarrow> 'r) \<Rightarrow> ('r list \<Rightarrow> 'k) \<Rightarrow> 'r \<Rightarrow> 'r list \<Rightarrow> (exn + 'r) \<times> 'r list" where
  "mem_insert clash stamp fresh r t =
     (if list_ex (clash r) t then (Inl (JsError ''SQLITE_CONSTRAINT''), t)
      else (let r' = stamp (fresh t) 0 r in (Inr r', t @ [r'])))"

definition mem_save ::
  "('r \<Rightarrow> 'k) \<Rightarrow> ('r \<Rightarrow> 'r \<Rightarrow> bool) \<Rightarrow> (int \<Rightarrow> 'r \<Rightarrow> 'r) \<Rightarrow> 'r \<Rightarrow> 'r list \<Rightarrow> (exn + 'r) \<times> 'r list" where
  "mem_save key clash touch r t =
     (if list_ex (\<lambda>x. key x \<noteq> key r \<and> clash r x) t then (Inl (JsError ''SQLITE_CONSTRAINT''), t)
      else (let r' = touch 0 r in
            (Inr r', if list_ex (\<lambda>x. key x = key r) t then replace_row key r' t else t @ [r'])))"

definition mem_repo ::
  "('r \<Rightarrow> 'k) \<Rightarrow> ('r \<Rightarrow> 'r \<Rightarrow> bool) \<Rightarrow> ('k \<Rightarrow> int \<Rightarrow> 'r \<Rightarrow> 'r) \<Rightarrow> (int \<Rightarrow> 'r \<Rightarrow> 'r) \<Rightarrow> ('r list \<Rightarrow> 'k) \<Rightarrow> 'r repo" where
  "mem_repo key clash stamp touch fresh =
     \<lparr>findOne = (\<lambda>p t. find p t),
      findDesc = (\<lambda>c t. sort_key (\<lambda>r. - c r) t),
      insertRow = mem_insert clash stamp fresh,
      saveRow = mem_save key clash touch,
      deleteRows = (\<lambda>p t. filter (\<lambda>r. \<not> p r) t)\<rparr>"

text \<open>A key longer than every key of the table is new.\<close>

definition fresh_string :: "('r \<Rightarrow> string) \<Rightarrow> 'r list \<Rightarrow> string" where
  "fresh_string key t = CHR ''k'' # concat (map key t)"

definition fresh_int :: "('r \<Rightarrow> int) \<Rightarrow> 'r list \<Rightarrow> int" where
  "fresh_int key t = 1 + sum_list (map (\<lambda>r. \<bar>key r\<bar>) t)"

lemma fresh_string_new: "fresh_string key t \<notin> key ` set t"
proof
  assume "fresh_string key t \<in> key ` set t"
  then obtain r where r: "r \<in> set t" "fresh_string key t = key r" by auto
  have "length (key r) \<le> length (concat (map key t))"
    using r(1) by (induction t) auto
  moreover have "length (fresh_string key t) = Suc (length (concat (map key t)))"
    by (simp add: fresh_string_def)
  ultimately show False using r(2) by simp
qed

lemma fresh_int_new: "fresh_int key t \<notin> key ` set t"
proof
  assume "fresh_int key t \<in> key ` set t"
  then obtain r where r: "r \<in> set t" "fresh_int key t = key r" by auto
  have "0 \<le> sum_list (map (\<lambda>r. \<bar>key r\<bar>) u)" for u by (induction u) auto
  with r(1) have "\<bar>key r\<bar> \<le> sum_list (map (\<lambda>r. \<bar>key r\<bar>) t)"
    by (induction t) (auto intro: add_increasing add_increasing2)
  with r(2) show False by (simp add: fresh_int_def)
qed

lemma mem_repo_repository:
  assumes key_fresh: "\<And>t r c. key (stamp (fresh t) c r) \<notin> key ` set t \<or> (\<exists>x \<in> set t. clash r x)"
    and "\<And>a b. clash a b \<longleftrightarrow> clash b a"
    and "\<And>i c a b. clash (stamp i c a) b \<longleftrightarrow> clash a b"
    and "\<And>c a b. clash (touch c a) b \<longleftrightarrow> clash a b"
    and "\<And>c a. key (touch c a) = key a"
  shows "repository (mem_repo key clash stamp touch fresh) key clash stamp touch"
proof (unfold_locales, goal_cases)
  case (5 c t)
  have "sorted (map (\<lambda>r. - c r) (sort_key (\<lambda>r. - c r) t))" by simp
  then show ?case by (simp add: mem_repo_def sorted_wrt_map)
next
  case (6 t r)
  then show ?case
    using key_fresh [of t 0 r]
    by (auto simp: mem_repo_def mem_insert_def list_ex_iff Let_def)
next
  case (7 x t r)
  then show ?case by (auto simp: mem_repo_def mem_insert_def list_ex_iff)
next
  case (8 r t)
  then show ?case by (auto simp: mem_repo_def mem_save_def list_ex_iff Let_def)
next
  case (9 x t r)
  then show ?case by (auto simp: mem_repo_def mem_save_def list_ex_iff)
next
  case (10 r t)
  then show ?case by (auto simp: mem_repo_def mem_save_def list_ex_iff Let_def image_iff)
qed (use assms in \<open>auto simp: mem_repo_def find_None_set dest: find_Some_set\<close>)

section \<open>The schema's tables\<close>

definition runtime_table :: "runtimeEntity repo" where
  "runtime_table = mem_repo rt_id runtime_clash runtime_stamp runtime_touch (fresh_string rt_id)"

definition lease_table :: "portLease repo" where
  "lease_table = mem_repo pl_id lease_clash lease_stamp no_touch (fresh_string pl_id)"

definition volume_table :: "volumeEntity repo" where
  "volume_table = mem_repo vo_id volume_clash volume_stamp volume_touch (fresh_string vo_id)"

definition preview_table :: "previewToken repo" where
  "preview_table = mem_repo sp_id preview_clash preview_stamp no_touch (fresh_string sp_id)"

definition revoked_table :: "revokedSession repo" where
  "revoked_table = mem_repo rv_id revoked_clash revoked_stamp no_touch (fresh_int rv_id)"

definition host_table :: "runtimeHost repo" where
  "host_table = mem_repo rh_id host_clash host_stamp no_touch (fresh_string rh_id)"

lemmas clash_defs = runtime_clash_def lease_clash_def volume_clash_def preview_clash_def
  revoked_clash_def host_clash_def

lemmas stamp_defs = runtime_stamp_def runtime_touch_def lease_stamp_def volume_stamp_def
  volume_touch_def preview_stamp_def revoked_stamp_def host_stamp_def no_touch_def

lemmas table_defs = runtime_table_def lease_table_def volume_table_def preview_table_def
  revoked_table_def host_table_def

interpretation runtime_rows: repository runtime_table rt_id runtime_clash runtime_stamp runtime_touch
  unfolding runtime_table_def
  by (rule mem_repo_repository) (use fresh_string_new [of rt_id] in \<open>fastforce simp: clash_defs stamp_defs\<close>)+

interpretation lease_rows: repository lease_table pl_id lease_clash lease_stamp no_touch
  unfolding lease_table_def
  by (rule mem_repo_repository) (use fresh_string_new [of pl_id] in \<open>auto simp: clash_defs stamp_defs\<close>)

interpretation volume_rows: repository volume_table vo_id volume_clash volume_stamp volume_touch
  unfolding volume_table_def
  by (rule mem_repo_repository) (use fresh_string_new [of vo_id] in \<open>auto simp: clash_defs stamp_defs\<close>)

interpretation preview_rows: repository preview_table sp_id preview_clash preview_stamp no_touch
  unfolding preview_table_def
  by (rule mem_repo_repository) (use fresh_string_new [of sp_id] in \<open>auto simp: clash_defs stamp_defs\<close>)

interpretation revoked_rows: repository revoked_table rv_id revoked_clash revoked_stamp no_touch
  unfolding revoked_table_def
  by (rule mem_repo_repository) (use fresh_int_new [of rv_id] in \<open>auto simp: clash_defs stamp_defs\<close>)

interpretation host_rows: repository host_table rh_id host_clash host_stamp no_touch
  unfolding host_table_def
  by (rule mem_repo_repository) (auto simp: clash_defs stamp_defs)

end
