(* ===== verification/PosixPath.thy ===== *)
theory PosixPath
  imports JsString
begin

text \<open>
  The functions of Node's \<open>path.posix\<close> that the control plane calls (\<open>normalize\<close>,
  \<open>dirname\<close>, \<open>join\<close>) and the two path routines of the sandbox adapter that are built on
  them, \<open>parentDirectories\<close> and \<open>bootstrapDirectories\<close>. The lemmas show that the loop of
  \<open>parentDirectories\<close> ends for every path and what it returns for an absolute one.
\<close>

section \<open>Node's path.posix\<close>

abbreviation slash :: char where
  "slash \<equiv> CHR ''/''"

text \<open>
  Resolution of the \<open>.\<close>, \<open>..\<close> and empty segments. \<open>acc\<close> holds the segments kept so far, the
  last one first; \<open>climb\<close> says whether \<open>..\<close> may climb above the start.
\<close>

fun resolve_segments :: "bool \<Rightarrow> string list \<Rightarrow> string list \<Rightarrow> string list" where
  "resolve_segments climb acc [] = rev acc"
| "resolve_segments climb acc (seg # segs) =
     (if seg = [] \<or> seg = ''.'' then resolve_segments climb acc segs
      else if seg = ''..'' then
        (case acc of
           [] \<Rightarrow> resolve_segments climb (if climb then [''..''] else []) segs
         | prev # rest \<Rightarrow>
             if prev = ''..''
             then resolve_segments climb (if climb then ''..'' # acc else acc) segs
             else resolve_segments climb rest segs)
      else resolve_segments climb (seg # acc) segs)"

definition path_normalize :: "string \<Rightarrow> string" where
  "path_normalize p =
     (if p = [] then ''.'' else
        (let isAbsolute = hd p = slash;
             trailing = last p = slash;
             body = join [slash] (resolve_segments (\<not> isAbsolute) [] (split_on slash p))
         in if body = [] then
              (if isAbsolute then [slash] else if trailing then ''./'' else ''.'')
            else (if isAbsolute then [slash] else []) @ body @ (if trailing then [slash] else [])))"

text \<open>
  \<open>dirname\<close> scans from the end, never looking at index 0: it skips trailing slashes, then
  the last segment, and cuts at the slash before it.
\<close>

definition dirname_scan :: "string \<Rightarrow> string" where
  "dirname_scan p = dropWhile (\<lambda>c. c \<noteq> slash) (dropWhile (\<lambda>c. c = slash) (rev (tl p)))"

definition path_dirname :: "string \<Rightarrow> string" where
  "path_dirname p =
     (if p = [] then ''.'' else
        (let hasRoot = hd p = slash;
             scanned = dirname_scan p;
             stop = length scanned
         in if scanned = [] then (if hasRoot then [slash] else ''.'')
            else if hasRoot \<and> stop = 1 then ''//''
            else take stop p))"

definition path_join :: "string list \<Rightarrow> string" where
  "path_join parts =
     (let joined = join [slash] (filter (\<lambda>p. p \<noteq> []) parts)
      in if joined = [] then ''.'' else path_normalize joined)"

section \<open>Parent directories\<close>

lemma length_dirname_scan: "p \<noteq> [] \<Longrightarrow> length (dirname_scan p) < length p"
proof -
  assume "p \<noteq> []"
  have "length (dirname_scan p) \<le> length (rev (tl p))"
    unfolding dirname_scan_def by (rule order.trans [OF length_dropWhile_le length_dropWhile_le])
  with \<open>p \<noteq> []\<close> show ?thesis by (cases p) auto
qed

lemma dirname_scan_two: "dirname_scan [a, b] = []"
  by (simp add: dirname_scan_def)

lemma length_path_dirname:
  assumes "p \<noteq> []" and "p \<noteq> ''.''" and "p \<noteq> ''/''"
  shows "length (path_dirname p) < length p \<or> path_dirname p = ''.''"
proof -
  have len: "length (dirname_scan p) < length p" using assms(1) by (rule length_dirname_scan)
  consider "dirname_scan p = []" "hd p = slash" | "dirname_scan p = []" "hd p \<noteq> slash"
    | "dirname_scan p \<noteq> []" "hd p = slash \<and> length (dirname_scan p) = 1"
    | "dirname_scan p \<noteq> []" "\<not> (hd p = slash \<and> length (dirname_scan p) = 1)"
    by blast
  then show ?thesis
  proof cases
    case 1
    have "length p \<noteq> 1"
    proof
      assume "length p = 1"
      with 1 have "p = ''/''" by (cases p) auto
      with assms(3) show False ..
    qed
    with assms(1) have "1 < length p" by (cases p) auto
    moreover have "path_dirname p = ''/''" using 1 assms(1) by (simp add: path_dirname_def)
    ultimately show ?thesis by simp
  next
    case 2
    then show ?thesis using assms(1) by (simp add: path_dirname_def)
  next
    case 3
    have "length p \<noteq> 2"
    proof
      assume "length p = 2"
      then obtain a b where "p = [a, b]" by (auto simp: length_Suc_conv numeral_2_eq_2)
      with 3 show False by (simp add: dirname_scan_two)
    qed
    with len 3 have "2 < length p" by linarith
    moreover have "path_dirname p = ''//''" using 3 assms(1) by (simp add: path_dirname_def)
    ultimately show ?thesis by simp
  next
    case 4
    then have "path_dirname p = take (length (dirname_scan p)) p"
      using assms(1) by (auto simp: path_dirname_def Let_def)
    with len show ?thesis by simp
  qed
qed

text \<open>
  The loop \<open>while (current && current !== '.' && current !== '/')\<close> of \<open>parentDirectories\<close>:
  \<open>dirs\<close> grows at the end, so it is kept reversed, which the final \<open>dirs.reverse()\<close> undoes.
\<close>

function parent_loop :: "string \<Rightarrow> string list \<Rightarrow> string list" where
  "parent_loop current dirs =
     (if current \<noteq> [] \<and> current \<noteq> ''.'' \<and> current \<noteq> ''/''
      then parent_loop (path_dirname current) (current # dirs)
      else dirs)"
  by pat_completeness auto
termination
proof (relation "measure (\<lambda>(c, dirs). if c = ''.'' then 0 else Suc (length c))", goal_cases)
  case (2 current dirs)
  then show ?case using length_path_dirname [of current] by auto
qed simp

declare parent_loop.simps [simp del]

definition parentDirectories :: "string \<Rightarrow> string list" where
  "parentDirectories filePath = parent_loop (path_dirname (path_normalize filePath)) []"

text \<open>
  A JavaScript \<open>Set\<close> of strings keeps the order of the first insertions.
\<close>

definition set_add :: "'a list \<Rightarrow> 'a \<Rightarrow> 'a list" where
  "set_add xs x = (if x \<in> set xs then xs else xs @ [x])"

definition set_add_all :: "'a list \<Rightarrow> 'a list \<Rightarrow> 'a list" where
  "set_add_all xs ys = foldl set_add xs ys"

definition bootstrapDirectories :: "string option \<Rightarrow> string list \<Rightarrow> string list" where
  "bootstrapDirectories workingDir mountPaths =
     (let add_path = (\<lambda>dirs path.
            set_add (set_add_all dirs (parentDirectories (path @ ''/.keep''))) (path_normalize path));
          dirs0 = (case workingDir of None \<Rightarrow> [] | Some w \<Rightarrow> if w = [] then [] else add_path [] w)
      in foldl add_path dirs0 mountPaths)"

section \<open>Absolute paths\<close>

text \<open>
  A path given by its segments: \<open>abs_path [a, b]\<close> is \<open>/a/b\<close>. Plain segments are non-empty,
  hold no slash and are neither \<open>.\<close> nor \<open>..\<close>.
\<close>

definition plain_seg :: "string \<Rightarrow> bool" where
  "plain_seg s \<longleftrightarrow> s \<noteq> [] \<and> slash \<notin> set s \<and> s \<noteq> ''.'' \<and> s \<noteq> ''..''"

definition abs_path :: "string list \<Rightarrow> string" where
  "abs_path segs = slash # join [slash] segs"

lemma resolve_plain:
  "\<forall>s \<in> set segs. plain_seg s \<Longrightarrow> resolve_segments climb acc segs = rev acc @ segs"
  by (induction segs arbitrary: acc) (auto simp: plain_seg_def)

lemma join_not_Nil: "segs \<noteq> [] \<Longrightarrow> \<forall>s \<in> set segs. s \<noteq> [] \<Longrightarrow> join sep segs \<noteq> []"
  by (induction sep segs rule: join.induct) auto

lemma last_join:
  "segs \<noteq> [] \<Longrightarrow> \<forall>s \<in> set segs. s \<noteq> [] \<Longrightarrow> last (join sep segs) = last (last segs)"
proof (induction sep segs rule: join.induct)
  case (3 sep x y xs)
  then show ?case using join_not_Nil [of "y # xs" sep] by simp
qed simp_all

lemma path_normalize_abs:
  assumes "\<forall>s \<in> set segs. plain_seg s" and "segs \<noteq> []"
  shows "path_normalize (abs_path segs) = abs_path segs"
proof -
  have ne: "join [slash] segs \<noteq> []"
    using assms by (intro join_not_Nil) (auto simp: plain_seg_def)
  have "last segs \<in> set segs" using assms(2) by simp
  then have lst: "last segs \<noteq> []" "slash \<notin> set (last segs)"
    using assms(1) by (auto simp: plain_seg_def)
  have "last (join [slash] segs) = last (last segs)"
    using assms by (intro last_join) (auto simp: plain_seg_def)
  then have "last (join [slash] segs) \<noteq> slash"
    using lst(2) last_in_set [OF lst(1)] by metis
  moreover have "split_on slash (abs_path segs) = [] # segs"
    using assms split_on_join [of segs slash] by (auto simp: abs_path_def plain_seg_def)
  ultimately show ?thesis
    using ne assms by (simp add: path_normalize_def abs_path_def resolve_plain)
qed

lemma join_snoc: "segs \<noteq> [] \<Longrightarrow> join sep (segs @ [s]) = join sep segs @ sep @ s"
  by (induction sep segs rule: join.induct) auto

lemma dropWhile_rev_seg:
  "slash \<notin> set s \<Longrightarrow> dropWhile (\<lambda>c. c \<noteq> slash) (rev s @ slash # t) = slash # t"
  by (induction s rule: rev_induct) auto

lemma path_dirname_abs:
  assumes "\<forall>s \<in> set (segs @ [s]). plain_seg s" and "segs \<noteq> []"
  shows "path_dirname (abs_path (segs @ [s])) = abs_path segs"
proof -
  have s: "s \<noteq> []" "slash \<notin> set s" using assms(1) by (auto simp: plain_seg_def)
  let ?j = "join [slash] segs"
  have j: "?j \<noteq> []" using assms by (intro join_not_Nil) (auto simp: plain_seg_def)
  have p: "abs_path (segs @ [s]) = slash # ?j @ slash # s"
    using assms(2) by (simp add: abs_path_def join_snoc)
  have "last s \<noteq> slash" using s last_in_set by metis
  then have 1: "dropWhile (\<lambda>c. c = slash) (rev (?j @ slash # s)) = rev s @ slash # rev ?j"
    using s by (cases s rule: rev_cases) auto
  then have "dirname_scan (abs_path (segs @ [s])) = slash # rev ?j"
    unfolding dirname_scan_def p list.sel using s(2) by (simp add: dropWhile_rev_seg)
  with j show ?thesis
    unfolding path_dirname_def using assms(2) by (simp add: Let_def abs_path_def join_snoc)
qed

lemma path_dirname_root:
  assumes "plain_seg s"
  shows "path_dirname (abs_path [s]) = ''/''"
proof -
  have "\<forall>c \<in> set (dropWhile (\<lambda>c. c = slash) (rev s)). c \<noteq> slash"
    using assms by (auto simp: plain_seg_def dest: set_dropWhileD)
  then have "dirname_scan (slash # s) = []"
    unfolding dirname_scan_def list.sel by (simp only: dropWhile_eq_Nil_conv)
  then show ?thesis by (simp add: path_dirname_def abs_path_def)
qed

lemma abs_path_not_stop:
  "segs \<noteq> [] \<Longrightarrow> \<forall>s \<in> set segs. plain_seg s \<Longrightarrow> abs_path segs \<noteq> ''/'' \<and> abs_path segs \<noteq> ''.''"
  using join_not_Nil [of segs "[slash]"] by (auto simp: abs_path_def plain_seg_def)

text \<open>The loop walks up from a path to the root, collecting every path on the way.\<close>

lemma parent_loop_abs:
  assumes "\<forall>s \<in> set segs. plain_seg s"
  shows "parent_loop (abs_path segs) dirs =
    map (\<lambda>k. abs_path (take k segs)) [1..<Suc (length segs)] @ dirs"
  using assms
proof (induction segs arbitrary: dirs rule: rev_induct)
  case Nil
  then show ?case by (subst parent_loop.simps) (simp add: abs_path_def)
next
  case (snoc s segs)
  have step: "parent_loop (abs_path (segs @ [s])) dirs =
      parent_loop (path_dirname (abs_path (segs @ [s]))) (abs_path (segs @ [s]) # dirs)"
    using abs_path_not_stop [of "segs @ [s]"] snoc.prems
    by (subst parent_loop.simps) (simp add: abs_path_def)
  have "path_dirname (abs_path (segs @ [s])) = abs_path segs"
  proof (cases "segs = []")
    case True
    with snoc.prems show ?thesis using path_dirname_root [of s] by (simp add: abs_path_def)
  next
    case False
    with snoc.prems show ?thesis by (rule_tac path_dirname_abs)
  qed
  with step snoc
  have "parent_loop (abs_path (segs @ [s])) dirs =
      map (\<lambda>k. abs_path (take k segs)) [1..<Suc (length segs)] @ abs_path (segs @ [s]) # dirs"
    by simp
  moreover have "map (\<lambda>k. abs_path (take k segs)) [1..<Suc (length segs)] =
      map (\<lambda>k. abs_path (take k (segs @ [s]))) [1..<Suc (length segs)]"
    by (rule map_cong) auto
  ultimately show ?case by simp
qed


section \<open>Directories after their parents\<close>

text \<open>The directories that are not made: where the walk up ends.\<close>

definition top_dir :: "string \<Rightarrow> bool" where
  "top_dir d \<longleftrightarrow> d = ''/'' \<or> d = ''.''"

lemma path_dirname_not_Nil: "path_dirname p \<noteq> []"
  by (cases "p = []"; cases "dirname_scan p = []") (simp_all add: path_dirname_def Let_def)

text \<open>Every directory of a list has its parent in the set or earlier in the list.\<close>

fun grounded :: "string set \<Rightarrow> string list \<Rightarrow> bool" where
  "grounded D [] = True"
| "grounded D (d # ds) =
     ((top_dir (path_dirname d) \<or> path_dirname d \<in> D) \<and> grounded (insert d D) ds)"

lemma grounded_mono: "grounded D ds \<Longrightarrow> D \<subseteq> E \<Longrightarrow> grounded E ds"
proof (induction ds arbitrary: D E)
  case (Cons d ds)
  have "grounded (insert d E) ds"
    by (rule Cons.IH [of "insert d D"]) (use Cons.prems in \<open>simp_all, blast\<close>)
  moreover have "top_dir (path_dirname d) \<or> path_dirname d \<in> E"
    using Cons.prems by (simp, blast)
  ultimately show ?case by simp
qed simp

lemma grounded_append: "grounded D (xs @ ys) \<longleftrightarrow> grounded D xs \<and> grounded (D \<union> set xs) ys"
  by (induction xs arbitrary: D) auto

lemma grounded_parent:
  "grounded D ds \<Longrightarrow> d \<in> set ds \<Longrightarrow> top_dir (path_dirname d) \<or> path_dirname d \<in> D \<union> set ds"
  by (induction ds arbitrary: D) auto

lemma parent_loop_grounded:
  "c \<noteq> [] \<Longrightarrow> grounded (if top_dir c then D else insert c D) dirs \<Longrightarrow> grounded D (parent_loop c dirs)"
proof (induction c dirs arbitrary: D rule: parent_loop.induct)
  case (1 c dirs)
  show ?case
  proof (cases "top_dir c")
    case True
    with 1 show ?thesis by (subst parent_loop.simps) (auto simp: top_dir_def)
  next
    case False
    let ?D = "if top_dir (path_dirname c) then D else insert (path_dirname c) D"
    have "grounded (insert c ?D) dirs" using 1(3) False by (auto elim: grounded_mono)
    then have "grounded ?D (c # dirs)" by simp
    with 1 False have "grounded D (parent_loop (path_dirname c) (c # dirs))"
      by (intro 1(1)) (auto simp: top_dir_def path_dirname_not_Nil)
    with False 1(2) show ?thesis by (subst parent_loop.simps) (auto simp: top_dir_def)
  qed
qed

lemma parent_loop_set: "set dirs \<subseteq> set (parent_loop c dirs)"
proof (induction c dirs rule: parent_loop.induct)
  case (1 c dirs)
  then show ?case by (subst parent_loop.simps) auto
qed

lemma parent_loop_mem: "c \<noteq> [] \<Longrightarrow> top_dir c \<or> c \<in> set (parent_loop c dirs)"
  using parent_loop_set [of "c # dirs" "path_dirname c"]
  by (subst parent_loop.simps) (auto simp: top_dir_def)

lemma parentDirectories_grounded: "grounded {} (parentDirectories p)"
  unfolding parentDirectories_def by (rule parent_loop_grounded) (simp_all add: path_dirname_not_Nil)

lemma parentDirectories_mem:
  "top_dir (path_dirname (path_normalize p)) \<or> path_dirname (path_normalize p) \<in> set (parentDirectories p)"
  unfolding parentDirectories_def by (rule parent_loop_mem [OF path_dirname_not_Nil])

text \<open>
  \<open>bootstrapDirectories\<close> adds the parents of a file in the directory, then the normalised directory
  itself, whose parent is the parent of the last of these.
\<close>

lemma set_add_grounded: "grounded {} ds \<Longrightarrow> grounded (set ds) [d] \<Longrightarrow> grounded {} (set_add ds d)"
  by (simp add: set_add_def grounded_append)

lemma set_set_add [simp]: "set (set_add ds d) = insert d (set ds)"
  by (auto simp: set_add_def)

lemma set_add_all_grounded:
  "grounded {} ds \<Longrightarrow> grounded (set ds) es \<Longrightarrow> grounded {} (set_add_all ds es) \<and> set (set_add_all ds es) = set ds \<union> set es"
proof (induction es arbitrary: ds)
  case (Cons e es)
  then have "grounded {} (set_add ds e)" by (intro set_add_grounded) simp_all
  with Cons show ?case by (simp add: set_add_all_def)
qed (simp add: set_add_all_def)

lemma dropWhile_rev_last:
  "q \<noteq> [] \<Longrightarrow> last q \<noteq> slash \<Longrightarrow> dropWhile (\<lambda>c. c = slash) (rev q) = rev q"
  by (cases q rule: rev_cases) auto

lemma dirname_segment:
  assumes "s \<noteq> []" "slash \<notin> set s" "q \<noteq> []" "last q \<noteq> slash" "set t \<subseteq> {slash}"
  shows "path_dirname (q @ slash # s @ t) = q"
proof -
  have "dropWhile (\<lambda>c. c = slash) (rev (x @ slash # s @ t)) = rev s @ slash # rev x" for x
  proof -
    have "dropWhile (\<lambda>c. c = slash) (rev t @ rev s @ slash # rev x) = dropWhile (\<lambda>c. c = slash) (rev s @ slash # rev x)"
      using assms(5) by (intro dropWhile_append2) auto
    also have "\<dots> = rev s @ slash # rev x"
      using assms(1,2) by (cases s rule: rev_cases) auto
    finally show ?thesis by simp
  qed
  then have scan: "dirname_scan (q @ slash # s @ t) = slash # rev (tl q)"
    using assms(2,3) by (simp add: dirname_scan_def dropWhile_rev_seg)
  have len: "Suc (length (tl q)) = length q" using assms(3) by (cases q) auto
  have "length q \<noteq> Suc 0" if "hd q = slash" using that assms(3,4) by (cases q) auto
  then show ?thesis
    unfolding path_dirname_def scan Let_def using assms(3) len by (auto simp: hd_append)
qed

lemma dirname_single:
  assumes "s \<noteq> []" "slash \<notin> set s" "set t \<subseteq> {slash}"
  shows "path_dirname (s @ t) = ''.''" "path_dirname (slash # s @ t) = ''/''"
proof -
  have scan: "dropWhile (\<lambda>c. c \<noteq> slash) (dropWhile (\<lambda>c. c = slash) (rev (u @ t))) = []"
    if "slash \<notin> set u" for u
  proof -
    have "dropWhile (\<lambda>c. c = slash) (rev (u @ t)) = dropWhile (\<lambda>c. c = slash) (rev u)"
      using assms(3) by (simp, intro dropWhile_append2) auto
    moreover have "\<forall>c \<in> set (dropWhile (\<lambda>c. c = slash) (rev u)). c \<noteq> slash"
      using that by (auto dest: set_dropWhileD)
    ultimately show ?thesis by (simp only: dropWhile_eq_Nil_conv)
  qed
  have "slash \<notin> set (tl s)" using assms(2) by (cases s) simp_all
  moreover have "tl (s @ t) = tl s @ t" using assms(1) by simp
  ultimately have "dirname_scan (s @ t) = []" "dirname_scan (slash # s @ t) = []"
    unfolding dirname_scan_def list.sel by (simp_all only: scan assms(2) not_False_eq_True)
  moreover have "hd s \<noteq> slash" using assms(1,2) by (cases s) auto
  ultimately show "path_dirname (s @ t) = ''.''" "path_dirname (slash # s @ t) = ''/''"
    using assms(1) by (simp_all add: path_dirname_def Let_def hd_append)
qed

text \<open>A normalised path is its root, its segments and perhaps one slash.\<close>

definition clean :: "string list \<Rightarrow> bool" where
  "clean segs \<longleftrightarrow> (\<forall>s \<in> set segs. s \<noteq> [] \<and> slash \<notin> set s)"

lemma split_on_clean: "\<forall>s \<in> set (split_on slash p). slash \<notin> set s"
  by (induction p) (auto split: list.splits)

lemma resolve_clean:
  "\<forall>s \<in> set segs. slash \<notin> set s \<Longrightarrow> clean acc \<Longrightarrow> clean (resolve_segments climb acc segs)"
proof (induction climb acc segs rule: resolve_segments.induct)
  case (2 climb acc seg segs)
  show ?case
  proof (cases "seg = [] \<or> seg = ''.''")
    case True
    have "clean (resolve_segments climb acc segs)" by (rule 2(1) [OF True]) (use 2(6,7) in auto)
    with True show ?thesis by auto
  next
    case dots: False
    have segs: "\<forall>s \<in> set segs. slash \<notin> set s" and seg: "slash \<notin> set seg" using 2(6) by simp_all
    show ?thesis
    proof (cases "seg = ''..''")
      case False
      have "clean (resolve_segments climb (seg # acc) segs)"
        by (rule 2(5) [OF dots False segs]) (use 2(7) dots seg in \<open>simp add: clean_def\<close>)
      with dots False show ?thesis by simp
    next
      case True
      show ?thesis
      proof (cases acc)
        case Nil
        have "clean (resolve_segments climb (if climb then [''..''] else []) segs)"
          by (rule 2(2) [OF dots True Nil segs]) (simp add: clean_def)
        with True Nil show ?thesis by simp
      next
        case (Cons prev rest)
        have "clean (resolve_segments climb (if climb then ''..'' # acc else acc) segs)" if "prev = ''..''"
          by (rule 2(3) [OF dots True Cons that segs]) (use 2(7) in \<open>simp add: clean_def\<close>)
        moreover have "clean (resolve_segments climb rest segs)" if "prev \<noteq> ''..''"
          by (rule 2(4) [OF dots True Cons that segs]) (use 2(7) Cons in \<open>simp add: clean_def\<close>)
        ultimately show ?thesis using True Cons by (cases climb; cases "prev = ''..''") simp_all
      qed
    qed
  qed
qed (simp add: clean_def)

lemma resolve_snoc:
  "plain_seg k \<Longrightarrow> resolve_segments climb acc (segs @ [k]) = resolve_segments climb acc segs @ [k]"
  by (induction climb acc segs rule: resolve_segments.induct) (auto simp: plain_seg_def split: list.splits)

lemma split_on_not_Nil: "split_on d p \<noteq> []"
  by (induction p) (auto split: list.splits)

lemma split_on_snoc: "split_on d (p @ d # q) = split_on d p @ split_on d q"
  by (induction p) (auto simp: split_on_not_Nil split: list.splits)

lemma dirname_join:
  assumes "clean (segs @ [s])" "set t \<subseteq> {slash}"
  shows "path_dirname (join [slash] (segs @ [s]) @ t) = (if segs = [] then ''.'' else join [slash] segs)"
    "path_dirname (slash # join [slash] (segs @ [s]) @ t) = slash # join [slash] segs"
proof -
  have s: "s \<noteq> []" "slash \<notin> set s" using assms(1) by (auto simp: clean_def)
  have j: "join [slash] segs \<noteq> [] \<and> last (join [slash] segs) \<noteq> slash" if "segs \<noteq> []"
  proof -
    have "last segs \<in> set segs" using that by simp
    then have "last segs \<noteq> []" "slash \<notin> set (last segs)" using assms(1) by (auto simp: clean_def)
    moreover have "\<forall>s \<in> set segs. s \<noteq> []" using assms(1) by (simp add: clean_def)
    ultimately show ?thesis
      using last_join [OF that] join_not_Nil [OF that] last_in_set by metis
  qed
  show "path_dirname (join [slash] (segs @ [s]) @ t) = (if segs = [] then ''.'' else join [slash] segs)"
  proof (cases "segs = []")
    case True
    with dirname_single(1) [OF s assms(2)] show ?thesis by simp
  next
    case False
    with dirname_segment [OF s _ _ assms(2)] j [OF False] show ?thesis by (simp add: join_snoc)
  qed
  show "path_dirname (slash # join [slash] (segs @ [s]) @ t) = slash # join [slash] segs"
  proof (cases "segs = []")
    case True
    with dirname_single(2) [OF s assms(2)] show ?thesis by simp
  next
    case False
    with dirname_segment [OF s, of "slash # join [slash] segs" t] assms(2) j [OF False]
    show ?thesis by (simp add: join_snoc)
  qed
qed

lemma keep_seg: "plain_seg ''.keep''"
  by (simp add: plain_seg_def)

text \<open>The parent of a directory is the parent of the parent of a file in it.\<close>

lemma dirname_normalize:
  assumes "w \<noteq> []"
  defines "c \<equiv> path_dirname (path_normalize (w @ ''/.keep''))"
  shows "top_dir c \<and> top_dir (path_dirname (path_normalize w)) \<or> path_dirname (path_normalize w) = path_dirname c"
proof -
  define R where "R = resolve_segments (hd w \<noteq> slash) [] (split_on slash w)"
  have hd: "hd (w @ ''/.keep'') = hd w" using assms(1) by simp
  have "resolve_segments (hd w \<noteq> slash) [] (split_on slash (w @ ''/.keep'')) = R @ [''.keep'']"
    using resolve_snoc [OF keep_seg] by (simp add: R_def split_on_snoc split_on_no_sep)
  moreover have clean: "clean (R @ [''.keep''])"
    using resolve_clean [OF split_on_clean, of "[]"] keep_seg by (simp add: R_def clean_def plain_seg_def)
  moreover have "join [slash] (R @ [''.keep'']) \<noteq> []"
    using clean by (intro join_not_Nil) (auto simp: clean_def)
  ultimately have norm: "path_normalize (w @ ''/.keep'') =
      (if hd w = slash then [slash] else []) @ join [slash] (R @ [''.keep''])"
    unfolding path_normalize_def by (simp add: hd assms(1))
  have c: "c = (if hd w = slash then slash # join [slash] R else if R = [] then ''.'' else join [slash] R)"
    unfolding c_def norm using dirname_join [OF clean, of "[]"] by simp
  show ?thesis
  proof (cases "R = []")
    case True
    have "path_dirname ''/'' = ''/''" "path_dirname ''./'' = ''.''" "path_dirname ''.'' = ''.''" by code_simp+
    moreover from True have "path_normalize w \<in> {''/'', ''./'', ''.''}"
      unfolding path_normalize_def R_def using assms(1) by (simp add: Let_def)
    ultimately show ?thesis using True by (auto simp: c top_dir_def)
  next
    case False
    then obtain segs s where R: "R = segs @ [s]" by (cases R rule: rev_cases) auto
    have cl: "clean (segs @ [s])" using clean by (simp add: R clean_def)
    have "join [slash] R \<noteq> []" using False clean by (intro join_not_Nil) (auto simp: clean_def)
    then have "path_normalize w = (if hd w = slash then [slash] else []) @ join [slash] R @
        (if last w = slash then [slash] else [])"
      unfolding path_normalize_def R_def using assms(1) by (simp add: Let_def)
    then show ?thesis
      using dirname_join [OF cl, of "if last w = slash then [slash] else []"] dirname_join [OF cl, of "[]"]
      by (auto simp: c R)
  qed
qed

lemma bootstrap_step_grounded:
  assumes "grounded {} ds"
  shows "grounded {} (set_add (set_add_all ds (parentDirectories (w @ ''/.keep''))) (path_normalize w)) \<and>
    insert (path_normalize w) (set ds) \<subseteq> set (set_add (set_add_all ds (parentDirectories (w @ ''/.keep''))) (path_normalize w))"
proof -
  let ?ps = "parentDirectories (w @ ''/.keep'')"
  have ps: "grounded {} ?ps" by (rule parentDirectories_grounded)
  then have "grounded (set ds) ?ps" by (rule grounded_mono) simp
  note added = set_add_all_grounded [OF assms this]
  have "top_dir (path_dirname (path_normalize w)) \<or> path_dirname (path_normalize w) \<in> set ?ps"
  proof (cases "w = []")
    case True
    moreover have "path_dirname (path_normalize []) = ''.''" by code_simp
    ultimately show ?thesis by (simp add: top_dir_def)
  next
    case False
    define c where "c = path_dirname (path_normalize (w @ ''/.keep''))"
    have mem: "top_dir c \<or> c \<in> set ?ps" unfolding c_def by (rule parentDirectories_mem)
    have top: "top_dir (path_dirname d)" if "top_dir d" for d
    proof -
      have "path_dirname ''/'' = ''/''" "path_dirname ''.'' = ''.''" by code_simp+
      with that show ?thesis by (auto simp: top_dir_def)
    qed
    from dirname_normalize [OF False] mem grounded_parent [OF ps, of c] top [of c]
    show ?thesis by (auto simp flip: c_def)
  qed
  with added show ?thesis by (auto intro!: set_add_grounded)
qed

lemma bootstrapDirectories_grounded:
  "grounded {} (bootstrapDirectories workingDir ms) \<and>
   (\<forall>w. workingDir = Some w \<and> w \<noteq> [] \<or> w \<in> set ms \<longrightarrow>
     path_normalize w \<in> set (bootstrapDirectories workingDir ms))"
proof -
  define add where "add = (\<lambda>dirs w. set_add (set_add_all dirs (parentDirectories (w @ ''/.keep''))) (path_normalize w))"
  have step: "grounded {} (add ds w) \<and> insert (path_normalize w) (set ds) \<subseteq> set (add ds w)"
    if "grounded {} ds" for ds w
    unfolding add_def by (rule bootstrap_step_grounded [OF that])
  have all: "grounded {} (foldl add ds ms) \<and> set ds \<union> path_normalize ` set ms \<subseteq> set (foldl add ds ms)"
    if "grounded {} ds" for ds
    using that
  proof (induction ms arbitrary: ds)
    case (Cons m ms)
    from step [OF Cons.prems, of m] Cons.IH [of "add ds m"] show ?case by auto
  qed simp
  define ds where "ds = (case workingDir of None \<Rightarrow> [] | Some w \<Rightarrow> if w = [] then [] else add [] w)"
  have "grounded {} ds \<and> (\<forall>w. workingDir = Some w \<and> w \<noteq> [] \<longrightarrow> path_normalize w \<in> set ds)"
    using step [of "[]"] by (auto simp: ds_def split: option.splits)
  moreover have "bootstrapDirectories workingDir ms = foldl add ds ms"
    unfolding bootstrapDirectories_def add_def ds_def Let_def by (rule refl)
  ultimately show ?thesis using all [of ds] by auto
qed

end
