(* ===== verification/Config.thy ===== *)
theory Config
  imports Complex_Main Json PosixPath
begin

text \<open>
  \<open>AppConfigService\<close> (config/app-config.service.ts). A configuration is the process
  environment and the working directory; every getter reads it afresh, as the service does.
  \<open>js_Number\<close> is JavaScript's conversion of a string to a number. Finite values are kept
  exact: the rounding of literals of more than 15 significant digits to a double is not
  modelled.
\<close>

section \<open>JavaScript numbers from strings\<close>

datatype js_number = NaN | Infinite | Finite rat

definition digit_span :: "string \<Rightarrow> string \<times> string" where
  "digit_span s = (takeWhile is_digit s, dropWhile is_digit s)"

text \<open>The exponent after \<open>e\<close>: an optional sign and at least one digit.\<close>

definition parse_exponent :: "string \<Rightarrow> int option" where
  "parse_exponent s =
     (let (neg, ds) = (case s of [] \<Rightarrow> (False, s)
            | c # r \<Rightarrow> if c = CHR ''-'' then (True, r) else if c = CHR ''+'' then (False, r) else (False, s))
      in if ds = [] \<or> \<not> list_all is_digit ds then None
         else Some (if neg then - int (digits_val ds) else int (digits_val ds)))"

text \<open>\<open>10 ** e\<close>\<close>

definition pow10 :: "int \<Rightarrow> rat" where
  "pow10 e = (if e < 0 then 1 / 10 ^ nat (- e) else 10 ^ nat e)"

definition parse_decimal :: "string \<Rightarrow> rat option" where
  "parse_decimal s =
     (let (ip, r1) = digit_span s;
          (fp, r2) = (case r1 of [] \<Rightarrow> ([], [])
             | c # r \<Rightarrow> if c = CHR ''.'' then digit_span r else ([], r1));
          mantissa = of_nat (digits_val (ip @ fp)) / 10 ^ length fp
      in if ip = [] \<and> fp = [] then None
         else (case r2 of [] \<Rightarrow> Some mantissa
           | c # r \<Rightarrow> if c = CHR ''e'' \<or> c = CHR ''E''
               then map_option (\<lambda>e. mantissa * pow10 e) (parse_exponent r) else None))"

definition radix_digit :: "char \<Rightarrow> nat" where
  "radix_digit c =
     (let n = of_char c :: nat in
      if 48 \<le> n \<and> n \<le> 57 then n - 48
      else if 97 \<le> n \<and> n \<le> 102 then n - 87
      else if 65 \<le> n \<and> n \<le> 70 then n - 55 else 99)"

definition parse_radix :: "nat \<Rightarrow> string \<Rightarrow> rat option" where
  "parse_radix b s =
     (if s \<noteq> [] \<and> list_all (\<lambda>c. radix_digit c < b) s
      then Some (of_nat (foldl (\<lambda>v c. b * v + radix_digit c) 0 s)) else None)"

text \<open>Values from \<open>2^1024 - 2^970\<close> on round to infinity.\<close>

definition js_finite :: "rat \<Rightarrow> js_number" where
  "js_finite q = (if \<bar>q\<bar> < 2 ^ 1024 - 2 ^ 970 then Finite q else Infinite)"

definition number_of_option :: "rat option \<Rightarrow> js_number" where
  "number_of_option r = (case r of None \<Rightarrow> NaN | Some q \<Rightarrow> js_finite q)"

definition js_Number :: "string \<Rightarrow> js_number" where
  "js_Number raw =
     (let s = trim raw in
      case s of
        [] \<Rightarrow> Finite 0
      | c # r \<Rightarrow>
          if prefix ''0x'' s \<or> prefix ''0X'' s then number_of_option (parse_radix 16 (drop 2 s))
          else if prefix ''0o'' s \<or> prefix ''0O'' s then number_of_option (parse_radix 8 (drop 2 s))
          else if prefix ''0b'' s \<or> prefix ''0B'' s then number_of_option (parse_radix 2 (drop 2 s))
          else (let (neg, u) = (if c = CHR ''-'' then (True, r) else if c = CHR ''+'' then (False, r) else (False, s))
                in if u = ''Infinity'' then Infinite
                   else number_of_option (map_option (\<lambda>q. if neg then - q else q) (parse_decimal u))))"

definition math_trunc :: "rat \<Rightarrow> int" where
  "math_trunc q = (if q < 0 then \<lceil>q\<rceil> else \<lfloor>q\<rfloor>)"

section \<open>The service\<close>

record config =
  process_env :: "string \<Rightarrow> string option"
  process_cwd :: string

text \<open>The constructor: started inside \<open>apps/cloud-api\<close>, the repository root is used.\<close>

definition cwd :: "config \<Rightarrow> string" where
  "cwd cfg =
     (let raw = process_cwd cfg in
      if suffix ''/apps/cloud-api'' raw then path_join [path_dirname (path_dirname raw)] else raw)"

definition readInt :: "config \<Rightarrow> string \<Rightarrow> int \<Rightarrow> int" where
  "readInt cfg name fallback =
     (case process_env cfg name of
        None \<Rightarrow> fallback
      | Some raw \<Rightarrow> (case js_Number raw of Finite q \<Rightarrow> math_trunc q | _ \<Rightarrow> fallback))"

text \<open>\<open>process.env.X?.trim() || d\<close>\<close>

definition envOr :: "config \<Rightarrow> string \<Rightarrow> string \<Rightarrow> string" where
  "envOr cfg name d = (case opt_trim (process_env cfg name) of None \<Rightarrow> d | Some v \<Rightarrow> v)"

definition port :: "config \<Rightarrow> int" where
  "port cfg = readInt cfg ''MICROSANDBOX_CLOUD_PORT'' 3210"

definition host :: "config \<Rightarrow> string" where
  "host cfg = envOr cfg ''MICROSANDBOX_CLOUD_HOST'' ''0.0.0.0''"

definition sqlitePath :: "config \<Rightarrow> string" where
  "sqlitePath cfg =
     envOr cfg ''MICROSANDBOX_CLOUD_SQLITE_PATH''
       (path_join [cwd cfg, ''data'', ''microsandbox-cloud.sqlite''])"

definition managedVolumeRoot :: "config \<Rightarrow> string" where
  "managedVolumeRoot cfg =
     envOr cfg ''MICROSANDBOX_CLOUD_MANAGED_VOLUME_ROOT''
       (path_join [path_dirname (sqlitePath cfg), ''volumes''])"

definition internalApiToken :: "config \<Rightarrow> string option" where
  "internalApiToken cfg = opt_trim (process_env cfg ''MICROSANDBOX_CLOUD_INTERNAL_API_TOKEN'')"

definition proxyTokenSecret :: "config \<Rightarrow> string" where
  "proxyTokenSecret cfg = envOr cfg ''MICROSANDBOX_CLOUD_PROXY_TOKEN_SECRET'' ''change-me''"

definition connectionTtlSeconds :: "config \<Rightarrow> int" where
  "connectionTtlSeconds cfg = readInt cfg ''MICROSANDBOX_CLOUD_CONNECTION_TTL_SECONDS'' 600"

definition proxyBaseUrl :: "config \<Rightarrow> string" where
  "proxyBaseUrl cfg =
     envOr cfg ''MICROSANDBOX_CLOUD_PROXY_BASE_URL'' (''http://localhost:'' @ int_digits (port cfg))"

definition runtimeHostName :: "config \<Rightarrow> string" where
  "runtimeHostName cfg = envOr cfg ''MICROSANDBOX_CLOUD_RUNTIME_HOST_NAME'' ''local''"

definition runtimeHostBaseUrl :: "config \<Rightarrow> string" where
  "runtimeHostBaseUrl cfg =
     envOr cfg ''MICROSANDBOX_CLOUD_RUNTIME_HOST_BASE_URL''
       (''http://127.0.0.1:'' @ int_digits (port cfg))"

definition runtimeHostPublicBaseUrl :: "config \<Rightarrow> string" where
  "runtimeHostPublicBaseUrl cfg =
     envOr cfg ''MICROSANDBOX_CLOUD_RUNTIME_HOST_PUBLIC_BASE_URL'' (proxyBaseUrl cfg)"

definition sandboxNamePrefix :: "config \<Rightarrow> string" where
  "sandboxNamePrefix cfg = envOr cfg ''MICROSANDBOX_CLOUD_SANDBOX_NAME_PREFIX'' ''runtime''"

definition volumeNamePrefix :: "config \<Rightarrow> string" where
  "volumeNamePrefix cfg = envOr cfg ''MICROSANDBOX_CLOUD_VOLUME_NAME_PREFIX'' ''runtime-data''"

definition portRangeStart :: "config \<Rightarrow> int" where
  "portRangeStart cfg = readInt cfg ''MICROSANDBOX_CLOUD_PORT_RANGE_START'' 31000"

definition portRangeEnd :: "config \<Rightarrow> int" where
  "portRangeEnd cfg = readInt cfg ''MICROSANDBOX_CLOUD_PORT_RANGE_END'' 31999"

definition defaultExposedPort :: "config \<Rightarrow> int" where
  "defaultExposedPort cfg = readInt cfg ''MICROSANDBOX_CLOUD_DEFAULT_EXPOSED_PORT'' 8080"

definition defaultVolumeMountPath :: "config \<Rightarrow> string" where
  "defaultVolumeMountPath cfg =
     envOr cfg ''MICROSANDBOX_CLOUD_DEFAULT_VOLUME_MOUNT_PATH'' ''/workspace''"

definition defaultCpu :: "config \<Rightarrow> int" where
  "defaultCpu cfg = readInt cfg ''MICROSANDBOX_CLOUD_DEFAULT_CPU'' 1"

definition defaultMemoryMiB :: "config \<Rightarrow> int" where
  "defaultMemoryMiB cfg = readInt cfg ''MICROSANDBOX_CLOUD_DEFAULT_MEMORY_MIB'' 2048"

definition defaultDiskGiB :: "config \<Rightarrow> int" where
  "defaultDiskGiB cfg = readInt cfg ''MICROSANDBOX_CLOUD_DEFAULT_DISK_GIB'' 6"

definition node_env :: "config \<Rightarrow> string" where
  "node_env cfg = envOr cfg ''MICROSANDBOX_ENV'' ''development''"

definition isDev :: "config \<Rightarrow> bool" where
  "isDev cfg = (node_env cfg = ''development'')"

definition isProd :: "config \<Rightarrow> bool" where
  "isProd cfg = (node_env cfg = ''production'')"

definition defaultImage :: "config \<Rightarrow> string" where
  "defaultImage cfg = envOr cfg ''MICROSANDBOX_CLOUD_DEFAULT_IMAGE'' ''nginx:stable-alpine''"

definition healthcheckTimeoutMs :: "config \<Rightarrow> int" where
  "healthcheckTimeoutMs cfg = readInt cfg ''MICROSANDBOX_CLOUD_HEALTHCHECK_TIMEOUT_MS'' 3000"

definition runtimeReadyTimeoutMs :: "config \<Rightarrow> int" where
  "runtimeReadyTimeoutMs cfg = readInt cfg ''MICROSANDBOX_CLOUD_RUNTIME_READY_TIMEOUT_MS'' 15000"

definition runtimeReadyPollIntervalMs :: "config \<Rightarrow> int" where
  "runtimeReadyPollIntervalMs cfg =
     readInt cfg ''MICROSANDBOX_CLOUD_RUNTIME_READY_POLL_INTERVAL_MS'' 500"

section \<open>Lemmas\<close>

text \<open>An environment without any of the variables: every getter gives its default.\<close>

definition empty_config :: config where
  "empty_config = \<lparr>process_env = (\<lambda>_. None), process_cwd = ''/srv''\<rparr>"

lemma readInt_unset [simp]: "process_env cfg name = None \<Longrightarrow> readInt cfg name d = d"
  by (simp add: readInt_def)

lemma readInt_empty [simp]: "readInt empty_config name d = d"
  by (simp add: empty_config_def)

lemma envOr_unset [simp]: "process_env cfg name = None \<Longrightarrow> envOr cfg name d = d"
  by (simp add: envOr_def opt_trim_def)

lemma envOr_empty [simp]: "envOr empty_config name d = d"
  by (simp add: empty_config_def)

lemma envOr_not_empty: "d \<noteq> [] \<Longrightarrow> envOr cfg name d \<noteq> []"
  by (auto simp: envOr_def opt_trim_def non_empty_def split: option.splits if_splits)

lemma digit_span_digits: "list_all is_digit s \<Longrightarrow> digit_span s = (s, [])"
  by (simp add: digit_span_def list_all_iff)

lemma parse_decimal_digits:
  "list_all is_digit s \<Longrightarrow> s \<noteq> [] \<Longrightarrow> parse_decimal s = Some (of_nat (digits_val s))"
  by (simp add: parse_decimal_def digit_span_digits)

lemma digit_not_space: "is_digit c \<Longrightarrow> \<not> is_js_space c"
  by (auto simp: is_digit_def is_js_space_def)

lemma int_digits_chars: "c \<in> set (int_digits i) \<Longrightarrow> is_digit c \<or> c = CHR ''-''"
  using nat_digits_all by (auto simp: int_digits_def list_all_iff split: if_splits)

lemma trim_int_digits [simp]: "trim (int_digits i) = int_digits i"
proof (rule trim_id, rule ballI)
  fix c assume "c \<in> set (int_digits i)"
  then show "\<not> is_js_space c"
    using int_digits_chars [of c i] digit_not_space [of c] by (auto simp: is_js_space_def)
qed

lemma int_digits_no_letter: "\<not> is_digit c \<Longrightarrow> c \<noteq> CHR ''-'' \<Longrightarrow> \<not> prefix [d, c] (int_digits i)"
  by (auto dest!: set_mono_prefix int_digits_chars)

lemma nat_digits_not_Infinity [simp]: "nat_digits n \<noteq> ''Infinity''"
  using hd_nat_digits [of n] by (auto simp: is_digit_def)

lemma js_Number_int_digits:
  assumes "\<bar>i\<bar> < 2 ^ 53"
  shows "js_Number (int_digits i) = Finite (of_int i)"
proof -
  have bound: "\<bar>of_int i :: rat\<bar> < 2 ^ 1024 - 2 ^ 970"
  proof -
    have "\<bar>of_int i :: rat\<bar> = of_int \<bar>i\<bar>" by simp
    also have "\<dots> < of_int (2 ^ 53)" using assms by (simp only: of_int_less_iff)
    also have "\<dots> \<le> (2 ^ 1024 - 2 ^ 970 :: rat)" by simp
    finally show ?thesis .
  qed
  have no: "\<not> prefix [d, c] (int_digits i)" if "c \<in> set ''xXoObB''" for c d
    using that by (intro int_digits_no_letter) (auto simp: is_digit_def)
  have dec: "parse_decimal (nat_digits n) = Some (of_nat n)" for n
    by (simp add: parse_decimal_digits nat_digits_all)
  show ?thesis
  proof (cases "i < 0")
    case True
    then have s: "int_digits i = CHR ''-'' # nat_digits (nat (- i))"
      by (simp add: int_digits_def)
    have "js_Number (int_digits i) = number_of_option (Some (- of_nat (nat (- i))))"
      unfolding js_Number_def trim_int_digits Let_def using no
      by (simp add: s dec)
    with True bound show ?thesis by (simp add: number_of_option_def js_finite_def)
  next
    case False
    then have s: "int_digits i = nat_digits (nat i)" by (simp add: int_digits_def)
    obtain c r where cr: "nat_digits (nat i) = c # r" by (cases "nat_digits (nat i)") auto
    with hd_nat_digits [of "nat i"] have c: "is_digit c" by simp
    then have "c \<noteq> CHR ''-''" "c \<noteq> CHR ''+''" "c \<noteq> CHR ''I''" by (auto simp: is_digit_def)
    then have "js_Number (int_digits i) = number_of_option (Some (of_nat (nat i)))"
      unfolding js_Number_def trim_int_digits Let_def using no [unfolded s cr] dec [of "nat i"]
        nat_digits_not_Infinity [of "nat i"]
      by (simp add: s cr)
    with False bound show ?thesis by (simp add: number_of_option_def js_finite_def)
  qed
qed

lemma readInt_int_digits:
  assumes "process_env cfg name = Some (int_digits i)" and "\<bar>i\<bar> < 2 ^ 53"
  shows "readInt cfg name d = i"
  using assms by (simp add: readInt_def js_Number_int_digits math_trunc_def)

lemma readInt_blank:
  assumes "process_env cfg name = Some raw" and "\<forall>c \<in> set raw. is_js_space c"
  shows "readInt cfg name d = 0"
proof -
  have "trim raw = []" using assms(2) by (simp add: trim_eq_Nil)
  then show ?thesis using assms(1) by (simp add: readInt_def js_Number_def math_trunc_def)
qed

end
