(* ===== verification/Platform.thy ===== *)
theory Platform
  imports Repository Config
begin

text \<open>
  What the services are given: the interface \<open>MicrosandboxAdapter\<close>
  (microsandbox/microsandbox-adapter.interface.ts) and the rest of their environment
  (repositories, clock, timers, randomness, SHA-256) as one record of operations, and the
  state they work on: the six tables, the in-memory SSH sessions, and an opaque outside
  world \<open>'v\<close> with the virtual machines, the clock and the random generator.
\<close>

section \<open>The adapter interface\<close>

record registryAuth =
  ra_server :: string
  ra_username :: string
  ra_password :: string

record runtimeFile =
  rf_path :: string
  rf_content :: string

record mountInput =
  mi_volumeName :: string
  mi_mountPath :: string
  mi_readOnly :: "bool option"

text \<open>\<open>ssh?: { enabled: boolean }\<close> is an optional Boolean.\<close>

record createRuntimeInput =
  ci_sandboxName :: string
  ci_image :: string
  ci_registryAuth :: "registryAuth option"
  ci_command :: "string list option"
  ci_workingDir :: "string option"
  ci_ports :: "portBinding list"
  ci_mounts :: "mountInput list"
  ci_cpu :: int
  ci_memoryMiB :: int
  ci_diskGiB :: int
  ci_env :: "(string \<times> string) list"
  ci_secrets :: "secretRecord list"
  ci_files :: "runtimeFile list"
  ci_autoStopMinutes :: "int option"
  ci_ssh :: "bool option"

record imageInfo =
  im_reference :: string
  im_architecture :: "string option"
  im_os :: "string option"
  im_sizeBytes :: "int option"
  im_layerCount :: int

record execResult =
  er_stdout :: string
  er_stderr :: string
  er_exitCode :: int

record 'v adapter =
  ad_listCachedImages :: "('v, imageInfo list) eff"
  ad_pullImage :: "string \<Rightarrow> registryAuth option \<Rightarrow> ('v, imageInfo \<times> bool) eff"
  ad_ensureVolume :: "string \<Rightarrow> int option \<Rightarrow> ('v, unit) eff"
  ad_removeVolume :: "string \<Rightarrow> ('v, unit) eff"
  ad_createDetachedRuntime :: "createRuntimeInput \<Rightarrow> ('v, unit) eff"
  ad_start :: "string \<Rightarrow> string list option \<Rightarrow> string option \<Rightarrow> ('v, unit) eff"
  ad_stop :: "string \<Rightarrow> ('v, unit) eff"
  ad_remove :: "string \<Rightarrow> ('v, unit) eff"
  ad_exec :: "string \<Rightarrow> string \<Rightarrow> string list \<Rightarrow> ('v, execResult) eff"
  ad_refreshActivity :: "string \<Rightarrow> ('v, unit) eff"
  ad_writeFiles :: "string \<Rightarrow> runtimeFile list \<Rightarrow> ('v, unit) eff"
  ad_readFiles :: "string \<Rightarrow> string list \<Rightarrow> ('v, runtimeFile list) eff"
  ad_getStatus :: "string \<Rightarrow> ('v, string option) eff"
  ad_isHealthy :: "int \<Rightarrow> ('v, bool) eff"

section \<open>State and environment\<close>

text \<open>An entry of the session map of \<open>SshSessionService\<close>.\<close>

record sessionEntry =
  se_sandboxId :: string
  se_hostPort :: int
  se_expiresAt :: int

text \<open>A JavaScript \<open>Map\<close> is an association list in insertion order.\<close>

record 'v sys =
  hosts :: "runtimeHost list"
  runtimes :: "runtimeEntity list"
  leases :: "portLease list"
  volumes :: "volumeEntity list"
  previews :: "previewToken list"
  revoked :: "revokedSession list"
  sessions :: "(string \<times> sessionEntry) list"
  ext :: 'v

record 'v io =
  io_config :: config
  io_adapter :: "'v adapter"
  hostRepo :: "runtimeHost repo"
  runtimeRepo :: "runtimeEntity repo"
  portLeaseRepo :: "portLease repo"
  volumeRepo :: "volumeEntity repo"
  signedPreviewRepo :: "previewToken repo"
  revokedRepo :: "revokedSession repo"
  io_now :: "'v \<Rightarrow> int \<times> 'v"
  io_sleep :: "int \<Rightarrow> 'v \<Rightarrow> 'v"
  io_randomHex :: "nat \<Rightarrow> 'v \<Rightarrow> string \<times> 'v"
  io_randomBase64url :: "nat \<Rightarrow> 'v \<Rightarrow> string \<times> 'v"
  io_sha256hex :: "string \<Rightarrow> string"

text \<open>Calls into the outside world leave the tables and the sessions alone.\<close>

definition outside :: "('v, 'a) eff \<Rightarrow> ('v sys, 'a) eff" where
  "outside m = (\<lambda>s. case m (ext s) of (r, v) \<Rightarrow> (r, s\<lparr>ext := v\<rparr>))"

definition outside_pure :: "('v \<Rightarrow> 'a \<times> 'v) \<Rightarrow> ('v sys, 'a) eff" where
  "outside_pure f = (\<lambda>s. case f (ext s) of (x, v) \<Rightarrow> (Inr x, s\<lparr>ext := v\<rparr>))"

definition dateNow :: "'v io \<Rightarrow> ('v sys, int) eff" where
  "dateNow io = outside_pure (io_now io)"

definition setTimeoutMs :: "'v io \<Rightarrow> int \<Rightarrow> ('v sys, unit) eff" where
  "setTimeoutMs io ms = outside_pure (\<lambda>v. ((), io_sleep io ms v))"

section \<open>Calls on the tables\<close>

definition runtime_findOne :: "'v io \<Rightarrow> (runtimeEntity \<Rightarrow> bool) \<Rightarrow> ('v sys, runtimeEntity option) eff" where
  "runtime_findOne io p = gets (\<lambda>s. findOne (runtimeRepo io) p (runtimes s))"

definition runtime_insert :: "'v io \<Rightarrow> runtimeEntity \<Rightarrow> ('v sys, runtimeEntity) eff" where
  "runtime_insert io r =
     (\<lambda>s. case insertRow (runtimeRepo io) r (runtimes s) of (q, t) \<Rightarrow> (q, s\<lparr>runtimes := t\<rparr>))"

definition runtime_save :: "'v io \<Rightarrow> runtimeEntity \<Rightarrow> ('v sys, runtimeEntity) eff" where
  "runtime_save io r =
     (\<lambda>s. case saveRow (runtimeRepo io) r (runtimes s) of (q, t) \<Rightarrow> (q, s\<lparr>runtimes := t\<rparr>))"

definition runtime_delete :: "'v io \<Rightarrow> (runtimeEntity \<Rightarrow> bool) \<Rightarrow> ('v sys, unit) eff" where
  "runtime_delete io p = modify (\<lambda>s. s\<lparr>runtimes := deleteRows (runtimeRepo io) p (runtimes s)\<rparr>)"

definition lease_findOne :: "'v io \<Rightarrow> (portLease \<Rightarrow> bool) \<Rightarrow> ('v sys, portLease option) eff" where
  "lease_findOne io p = gets (\<lambda>s. findOne (portLeaseRepo io) p (leases s))"

definition lease_insert :: "'v io \<Rightarrow> portLease \<Rightarrow> ('v sys, portLease) eff" where
  "lease_insert io r =
     (\<lambda>s. case insertRow (portLeaseRepo io) r (leases s) of (q, t) \<Rightarrow> (q, s\<lparr>leases := t\<rparr>))"

definition lease_delete :: "'v io \<Rightarrow> (portLease \<Rightarrow> bool) \<Rightarrow> ('v sys, unit) eff" where
  "lease_delete io p = modify (\<lambda>s. s\<lparr>leases := deleteRows (portLeaseRepo io) p (leases s)\<rparr>)"

definition volume_findOne :: "'v io \<Rightarrow> (volumeEntity \<Rightarrow> bool) \<Rightarrow> ('v sys, volumeEntity option) eff" where
  "volume_findOne io p = gets (\<lambda>s. findOne (volumeRepo io) p (volumes s))"

definition volume_insert :: "'v io \<Rightarrow> volumeEntity \<Rightarrow> ('v sys, volumeEntity) eff" where
  "volume_insert io r =
     (\<lambda>s. case insertRow (volumeRepo io) r (volumes s) of (q, t) \<Rightarrow> (q, s\<lparr>volumes := t\<rparr>))"

definition volume_delete :: "'v io \<Rightarrow> (volumeEntity \<Rightarrow> bool) \<Rightarrow> ('v sys, unit) eff" where
  "volume_delete io p = modify (\<lambda>s. s\<lparr>volumes := deleteRows (volumeRepo io) p (volumes s)\<rparr>)"

definition preview_findOne :: "'v io \<Rightarrow> (previewToken \<Rightarrow> bool) \<Rightarrow> ('v sys, previewToken option) eff" where
  "preview_findOne io p = gets (\<lambda>s. findOne (signedPreviewRepo io) p (previews s))"

definition preview_insert :: "'v io \<Rightarrow> previewToken \<Rightarrow> ('v sys, previewToken) eff" where
  "preview_insert io r =
     (\<lambda>s. case insertRow (signedPreviewRepo io) r (previews s) of (q, t) \<Rightarrow> (q, s\<lparr>previews := t\<rparr>))"

definition preview_delete :: "'v io \<Rightarrow> (previewToken \<Rightarrow> bool) \<Rightarrow> ('v sys, unit) eff" where
  "preview_delete io p = modify (\<lambda>s. s\<lparr>previews := deleteRows (signedPreviewRepo io) p (previews s)\<rparr>)"

definition runtime_findDesc :: "'v io \<Rightarrow> (runtimeEntity \<Rightarrow> int) \<Rightarrow> ('v sys, runtimeEntity list) eff" where
  "runtime_findDesc io c = gets (\<lambda>s. findDesc (runtimeRepo io) c (runtimes s))"

definition volume_findDesc :: "'v io \<Rightarrow> (volumeEntity \<Rightarrow> int) \<Rightarrow> ('v sys, volumeEntity list) eff" where
  "volume_findDesc io c = gets (\<lambda>s. findDesc (volumeRepo io) c (volumes s))"

definition host_findOne :: "'v io \<Rightarrow> (runtimeHost \<Rightarrow> bool) \<Rightarrow> ('v sys, runtimeHost option) eff" where
  "host_findOne io p = gets (\<lambda>s. findOne (hostRepo io) p (hosts s))"

definition host_save :: "'v io \<Rightarrow> runtimeHost \<Rightarrow> ('v sys, runtimeHost) eff" where
  "host_save io r =
     (\<lambda>s. case saveRow (hostRepo io) r (hosts s) of (q, t) \<Rightarrow> (q, s\<lparr>hosts := t\<rparr>))"

definition revoked_findOne :: "'v io \<Rightarrow> (revokedSession \<Rightarrow> bool) \<Rightarrow> ('v sys, revokedSession option) eff" where
  "revoked_findOne io p = gets (\<lambda>s. findOne (revokedRepo io) p (revoked s))"

definition revoked_insert :: "'v io \<Rightarrow> revokedSession \<Rightarrow> ('v sys, revokedSession) eff" where
  "revoked_insert io r =
     (\<lambda>s. case insertRow (revokedRepo io) r (revoked s) of (q, t) \<Rightarrow> (q, s\<lparr>revoked := t\<rparr>))"

lemmas table_ops = runtime_findDesc_def volume_findDesc_def host_findOne_def host_save_def
  revoked_findOne_def revoked_insert_def runtime_findOne_def runtime_insert_def runtime_save_def runtime_delete_def
  lease_findOne_def lease_insert_def lease_delete_def volume_findOne_def volume_insert_def
  volume_delete_def preview_findOne_def preview_insert_def preview_delete_def

section \<open>The database the services assume\<close>

text \<open>Every repository of the environment obeys the laws of its entity.\<close>

locale database =
  fixes io :: "'v io"
  assumes runtime_repo: "repository (runtimeRepo io) rt_id runtime_clash runtime_stamp runtime_touch"
    and lease_repo: "repository (portLeaseRepo io) pl_id lease_clash lease_stamp no_touch"
    and volume_repo: "repository (volumeRepo io) vo_id volume_clash volume_stamp volume_touch"
    and preview_repo: "repository (signedPreviewRepo io) sp_id preview_clash preview_stamp no_touch"
    and revoked_repo: "repository (revokedRepo io) rv_id revoked_clash revoked_stamp no_touch"
    and host_repo: "repository (hostRepo io) rh_id host_clash host_stamp no_touch"

sublocale database \<subseteq> rt: repository "runtimeRepo io" rt_id runtime_clash runtime_stamp runtime_touch
  by (rule runtime_repo)

sublocale database \<subseteq> pl: repository "portLeaseRepo io" pl_id lease_clash lease_stamp no_touch
  by (rule lease_repo)

sublocale database \<subseteq> vo: repository "volumeRepo io" vo_id volume_clash volume_stamp volume_touch
  by (rule volume_repo)

sublocale database \<subseteq> sp: repository "signedPreviewRepo io" sp_id preview_clash preview_stamp no_touch
  by (rule preview_repo)

sublocale database \<subseteq> rv: repository "revokedRepo io" rv_id revoked_clash revoked_stamp no_touch
  by (rule revoked_repo)

sublocale database \<subseteq> rh: repository "hostRepo io" rh_id host_clash host_stamp no_touch
  by (rule host_repo)

text \<open>The keys and unique constraints of all tables of a state.\<close>

definition tables_ok :: "'v sys \<Rightarrow> bool" where
  "tables_ok s \<longleftrightarrow>
     table_ok rt_id runtime_clash (runtimes s) \<and> table_ok pl_id lease_clash (leases s) \<and>
     table_ok vo_id volume_clash (volumes s) \<and> table_ok sp_id preview_clash (previews s) \<and>
     table_ok rv_id revoked_clash (revoked s) \<and> table_ok rh_id host_clash (hosts s)"

lemma outside_run:
  "outside m s = (r, t) \<longleftrightarrow> (\<exists>v. m (ext s) = (r, v) \<and> t = s\<lparr>ext := v\<rparr>)"
  by (auto simp: outside_def split: prod.splits)

lemma keeps_outside:
  assumes "\<And>s v. I s \<Longrightarrow> I (s\<lparr>ext := v\<rparr>)"
  shows "keeps I (outside m)"
  using assms by (intro keepsI) (auto simp: outside_run)

lemma keeps_outside_pure:
  assumes "\<And>s v. I s \<Longrightarrow> I (s\<lparr>ext := v\<rparr>)"
  shows "keeps I (outside_pure f)"
proof (rule keepsI)
  fix s r t assume "I s" and "outside_pure f s = (r, t)"
  moreover have "t = s\<lparr>ext := snd (f (ext s))\<rparr>" if "outside_pure f s = (r, t)"
    using that by (simp add: outside_pure_def split_beta)
  ultimately show "I t" using assms by simp
qed

lemma keeps_clock:
  assumes "\<And>s v. I s \<Longrightarrow> I (s\<lparr>ext := v\<rparr>)"
  shows "keeps I (dateNow io)" and "keeps I (setTimeoutMs io ms)"
  unfolding dateNow_def setTimeoutMs_def by (rule keeps_outside_pure, rule assms, assumption)+

lemma tables_ok_ext [simp]: "tables_ok (s\<lparr>ext := v\<rparr>) = tables_ok s"
  by (simp add: tables_ok_def)

lemma tables_ok_sessions [simp]: "tables_ok (s\<lparr>sessions := m\<rparr>) = tables_ok s"
  by (simp add: tables_ok_def)

lemma keeps_tables_outside [keeps_intros]:
  "keeps tables_ok (outside m)" "keeps tables_ok (outside_pure f)"
  "keeps tables_ok (dateNow io)" "keeps tables_ok (setTimeoutMs io ms)"
  by (rule keeps_outside keeps_outside_pure keeps_clock; simp)+

text \<open>Replacing one table by a table that keeps its constraints.\<close>

lemma tables_ok_update:
  "tables_ok s \<Longrightarrow> table_ok rt_id runtime_clash a \<Longrightarrow> tables_ok (s\<lparr>runtimes := a\<rparr>)"
  "tables_ok s \<Longrightarrow> table_ok pl_id lease_clash b \<Longrightarrow> tables_ok (s\<lparr>leases := b\<rparr>)"
  "tables_ok s \<Longrightarrow> table_ok vo_id volume_clash c \<Longrightarrow> tables_ok (s\<lparr>volumes := c\<rparr>)"
  "tables_ok s \<Longrightarrow> table_ok sp_id preview_clash d \<Longrightarrow> tables_ok (s\<lparr>previews := d\<rparr>)"
  "tables_ok s \<Longrightarrow> table_ok rv_id revoked_clash e \<Longrightarrow> tables_ok (s\<lparr>revoked := e\<rparr>)"
  "tables_ok s \<Longrightarrow> table_ok rh_id host_clash f \<Longrightarrow> tables_ok (s\<lparr>hosts := f\<rparr>)"
  by (simp_all add: tables_ok_def)

lemma tables_okD:
  assumes "tables_ok s"
  shows "table_ok rt_id runtime_clash (runtimes s)" and "table_ok pl_id lease_clash (leases s)"
    and "table_ok vo_id volume_clash (volumes s)" and "table_ok sp_id preview_clash (previews s)"
    and "table_ok rv_id revoked_clash (revoked s)" and "table_ok rh_id host_clash (hosts s)"
  using assms by (simp_all add: tables_ok_def)

lemma keeps_write:
  assumes "\<And>s r t. I s \<Longrightarrow> w s = (r, t) \<Longrightarrow> I (u s t)"
  shows "keeps I (\<lambda>s. case w s of (r, t) \<Rightarrow> (r, u s t))"
proof (rule keepsI)
  fix s r z assume "I s" and run: "(case w s of (r, t) \<Rightarrow> (r, u s t)) = (r, z)"
  obtain q t where q: "w s = (q, t)" by (cases "w s")
  with run have "z = u s t" by simp
  with assms [OF \<open>I s\<close> q] show "I z" by simp
qed

lemma keeps_modify: "(\<And>s. I s \<Longrightarrow> I (f s)) \<Longrightarrow> keeps I (modify f)"
  by (rule keepsI) auto

context database begin

lemma keeps_tables_insert [keeps_intros]:
  "keeps tables_ok (runtime_insert io r)" "keeps tables_ok (runtime_save io r)"
  "keeps tables_ok (lease_insert io l)" "keeps tables_ok (volume_insert io w)"
  "keeps tables_ok (preview_insert io k)" "keeps tables_ok (revoked_insert io x)"
  "keeps tables_ok (host_save io h)"
  unfolding table_ops
  by (rule keeps_write, rule tables_ok_update, assumption,
      erule tables_okD(1) [THEN rt.insert_keeps_ok] tables_okD(1) [THEN rt.save_keeps_ok]
        tables_okD(2) [THEN pl.insert_keeps_ok] tables_okD(3) [THEN vo.insert_keeps_ok]
        tables_okD(4) [THEN sp.insert_keeps_ok] tables_okD(5) [THEN rv.insert_keeps_ok]
        tables_okD(6) [THEN rh.save_keeps_ok], assumption)+

lemma keeps_tables_delete [keeps_intros]:
  "keeps tables_ok (runtime_delete io p)" "keeps tables_ok (lease_delete io q)"
  "keeps tables_ok (volume_delete io u)" "keeps tables_ok (preview_delete io v)"
  unfolding table_ops
  by (rule keeps_modify, rule tables_ok_update, assumption,
      rule rt.delete_keeps_ok pl.delete_keeps_ok vo.delete_keeps_ok sp.delete_keeps_ok,
      erule tables_okD)+

lemma keeps_tables_find [keeps_intros]:
  "keeps tables_ok (runtime_findOne io p)" "keeps tables_ok (lease_findOne io q)"
  "keeps tables_ok (volume_findOne io u)" "keeps tables_ok (preview_findOne io v)"
  "keeps tables_ok (host_findOne io h)" "keeps tables_ok (revoked_findOne io x)"
  "keeps tables_ok (runtime_findDesc io c)" "keeps tables_ok (volume_findDesc io d)"
  unfolding table_ops by (rule keeps_gets)+

end

section \<open>A reference environment\<close>

text \<open>The reference tables under any configuration, adapter, clock and random source.\<close>

definition mem_io ::
  "config \<Rightarrow> 'v adapter \<Rightarrow> ('v \<Rightarrow> int \<times> 'v) \<Rightarrow> (int \<Rightarrow> 'v \<Rightarrow> 'v) \<Rightarrow> (nat \<Rightarrow> 'v \<Rightarrow> string \<times> 'v) \<Rightarrow>
   (nat \<Rightarrow> 'v \<Rightarrow> string \<times> 'v) \<Rightarrow> (string \<Rightarrow> string) \<Rightarrow> 'v io" where
  "mem_io cfg ad now slp hex b64 sha =
     \<lparr>io_config = cfg, io_adapter = ad, hostRepo = host_table, runtimeRepo = runtime_table,
      portLeaseRepo = lease_table, volumeRepo = volume_table, signedPreviewRepo = preview_table,
      revokedRepo = revoked_table, io_now = now, io_sleep = slp, io_randomHex = hex,
      io_randomBase64url = b64, io_sha256hex = sha\<rparr>"

lemma mem_io_sel [simp]:
  "io_config (mem_io cfg ad now slp hex b64 sha) = cfg"
  "io_adapter (mem_io cfg ad now slp hex b64 sha) = ad"
  "io_now (mem_io cfg ad now slp hex b64 sha) = now"
  "io_sleep (mem_io cfg ad now slp hex b64 sha) = slp"
  "io_randomHex (mem_io cfg ad now slp hex b64 sha) = hex"
  "io_randomBase64url (mem_io cfg ad now slp hex b64 sha) = b64"
  "io_sha256hex (mem_io cfg ad now slp hex b64 sha) = sha"
  by (simp_all add: mem_io_def)

interpretation mem: database "mem_io cfg ad now slp hex b64 sha"
  by (rule database.intro, simp_all only: mem_io_def io.simps)
    (rule runtime_rows.repository_axioms lease_rows.repository_axioms
      volume_rows.repository_axioms preview_rows.repository_axioms
      revoked_rows.repository_axioms host_rows.repository_axioms)+

end
