(* ===== verification/World.thy ===== *)
theory World
  imports Platform
begin

text \<open>
  A small concrete outside world: a clock, a counter as the random source, and virtual
  machines that are a list of names with their status and the host ports they answer on.
  With the reference tables it gives a complete environment \<open>demo_io\<close>, on which the
  witnesses run the services. It models no code of the repository.
\<close>

section \<open>The world\<close>

record world =
  w_now :: int
  w_rand :: nat
  w_vms :: "(string \<times> string) list"
  w_up :: "int list"

definition world0 :: world where
  "world0 = \<lparr>w_now = 1000, w_rand = 0, w_vms = [], w_up = []\<rparr>"

definition demo_random :: "string \<Rightarrow> nat \<Rightarrow> world \<Rightarrow> string \<times> world" where
  "demo_random pre n w = (pre @ nat_digits (w_rand w), w\<lparr>w_rand := Suc (w_rand w)\<rparr>)"

definition set_vm :: "string \<Rightarrow> string \<Rightarrow> world \<Rightarrow> world" where
  "set_vm name st w = w\<lparr>w_vms := (name, st) # filter (\<lambda>(n, _). n \<noteq> name) (w_vms w)\<rparr>"

definition demo_adapter :: "world adapter" where
  "demo_adapter =
     \<lparr>ad_listCachedImages = ret [],
      ad_pullImage = (\<lambda>ref _. ret (\<lparr>im_reference = ref, im_architecture = None, im_os = None,
        im_sizeBytes = None, im_layerCount = 1\<rparr>, False)),
      ad_ensureVolume = (\<lambda>_ _. ret ()),
      ad_removeVolume = (\<lambda>_. ret ()),
      ad_createDetachedRuntime = (\<lambda>ci. modify (\<lambda>w.
        set_vm (ci_sandboxName ci) ''running'' (w\<lparr>w_up := map pb_hostPort (ci_ports ci) @ w_up w\<rparr>))),
      ad_start = (\<lambda>n _ _. modify (set_vm n ''running'')),
      ad_stop = (\<lambda>n. modify (set_vm n ''stopped'')),
      ad_remove = (\<lambda>n. modify (\<lambda>w. w\<lparr>w_vms := filter (\<lambda>(m, _). m \<noteq> n) (w_vms w)\<rparr>)),
      ad_exec = (\<lambda>_ c _. ret \<lparr>er_stdout = c, er_stderr = [], er_exitCode = 0\<rparr>),
      ad_refreshActivity = (\<lambda>_. ret ()),
      ad_writeFiles = (\<lambda>_ _. ret ()),
      ad_readFiles = (\<lambda>_ ps. ret (map (\<lambda>p. \<lparr>rf_path = p, rf_content = []\<rparr>) ps)),
      ad_getStatus = (\<lambda>n. gets (\<lambda>w. map_of (w_vms w) n)),
      ad_isHealthy = (\<lambda>p. gets (\<lambda>w. List.member (w_up w) p))\<rparr>"

definition demo_io :: "config \<Rightarrow> world io" where
  "demo_io cfg =
     mem_io cfg demo_adapter (\<lambda>w. (w_now w, w)) (\<lambda>ms w. w\<lparr>w_now := w_now w + max 1 ms\<rparr>)
       (demo_random ''h'') (demo_random ''b'') (\<lambda>s. ''sha-'' @ s)"

text \<open>A configuration with two variables set: the range of the host ports.\<close>

definition range_config :: "int \<Rightarrow> int \<Rightarrow> config" where
  "range_config a b =
     \<lparr>process_env = (\<lambda>n. if n = ''MICROSANDBOX_CLOUD_PORT_RANGE_START'' then Some (int_digits a)
        else if n = ''MICROSANDBOX_CLOUD_PORT_RANGE_END'' then Some (int_digits b) else None),
      process_cwd = ''/srv''\<rparr>"

definition sys0 :: "world sys" where
  "sys0 = \<lparr>hosts = [], runtimes = [], leases = [], volumes = [], previews = [], revoked = [],
     sessions = [], ext = world0\<rparr>"

lemma demo_database [simp]: "database (demo_io cfg)"
  unfolding demo_io_def by (rule mem.database_axioms)

lemma demo_config [simp]: "io_config (demo_io cfg) = cfg"
  by (simp add: demo_io_def)

lemma demo_sel [simp]:
  "io_adapter (demo_io cfg) = demo_adapter"
  "io_now (demo_io cfg) = (\<lambda>w. (w_now w, w))"
  "io_sleep (demo_io cfg) = (\<lambda>ms w. w\<lparr>w_now := w_now w + max 1 ms\<rparr>)"
  "io_randomHex (demo_io cfg) = demo_random ''h''"
  "io_randomBase64url (demo_io cfg) = demo_random ''b''"
  "runtimeRepo (demo_io cfg) = runtime_table" "portLeaseRepo (demo_io cfg) = lease_table"
  "volumeRepo (demo_io cfg) = volume_table" "signedPreviewRepo (demo_io cfg) = preview_table"
  "revokedRepo (demo_io cfg) = revoked_table" "hostRepo (demo_io cfg) = host_table"
  by (simp_all add: demo_io_def mem_io_def)

lemma demo_adapter_sel [simp]:
  "ad_getStatus demo_adapter n = gets (\<lambda>w. map_of (w_vms w) n)"
  "ad_isHealthy demo_adapter p = gets (\<lambda>w. List.member (w_up w) p)"
  "ad_createDetachedRuntime demo_adapter ci = modify (\<lambda>w.
     set_vm (ci_sandboxName ci) ''running'' (w\<lparr>w_up := map pb_hostPort (ci_ports ci) @ w_up w\<rparr>))"
  "ad_ensureVolume demo_adapter n q = ret ()"
  "ad_start demo_adapter n c d = modify (set_vm n ''running'')"
  "ad_stop demo_adapter n = modify (set_vm n ''stopped'')"
  "ad_writeFiles demo_adapter n fs = ret ()"
  by (simp_all add: demo_adapter_def)

lemma tables_ok_sys0 [simp]: "tables_ok sys0"
  by (simp add: sys0_def tables_ok_def table_ok_def)

lemma range_config_ports [simp]:
  assumes "\<bar>a\<bar> < 2 ^ 53" and "\<bar>b\<bar> < 2 ^ 53"
  shows "portRangeStart (range_config a b) = a" and "portRangeEnd (range_config a b) = b"
  unfolding portRangeStart_def portRangeEnd_def
  by (rule readInt_int_digits; use assms in \<open>simp add: range_config_def\<close>)+

end
