(* ===== verification/Identity.thy ===== *)
theory Identity
  imports JsString
begin

text \<open>
  \<open>RuntimeIdentityService\<close> (runtime-control/runtime-identity.service.ts): how a caller's
  sandbox id or name becomes the identifier the tables are keyed by, and how the names of
  the VM and of the backing volume are built from it. The lemmas show which identifiers
  come out, that normalising twice changes nothing, when it throws, and when two sandboxes
  have different VM names.
\<close>

section \<open>The service\<close>

definition is_separator :: "char \<Rightarrow> bool" where
  "is_separator c \<longleftrightarrow> c \<in> {CHR ''.'', CHR ''_'', CHR ''-''}"

definition is_id_char :: "char \<Rightarrow> bool" where
  "is_id_char c \<longleftrightarrow> is_lower_az c \<or> is_digit c \<or> is_separator c"

definition normalizeSegment :: "string \<Rightarrow> string \<Rightarrow> exn + string" where
  "normalizeSegment v fieldName =
     (let normalized =
            strip_ends is_separator
              (replace_runs (\<lambda>c. c = CHR ''-'') ''-''
                (replace_runs (\<lambda>c. \<not> is_id_char c) ''-''
                  (toLowerCase (trim v))))
      in if normalized = [] then Inl (JsError (fieldName @ '' is required''))
         else if length normalized > 64
         then Inr (str_or (drop_end is_separator (take 64 normalized)) (take 64 normalized))
         else Inr normalized)"

definition normalizeSandboxId :: "string \<Rightarrow> exn + string" where
  "normalizeSandboxId v = normalizeSegment v ''sandboxId''"

definition trimName :: "string \<Rightarrow> string" where
  "trimName v =
     (if length v \<le> 120 then v else drop_end is_separator (take 120 v))"

definition sandboxName :: "string \<Rightarrow> string \<Rightarrow> exn + string" where
  "sandboxName pre sandboxId =
     (case normalizeSandboxId sandboxId of
        Inl e \<Rightarrow> Inl e
      | Inr normalized \<Rightarrow> Inr (trimName (pre @ ''-'' @ normalized)))"

definition volumeName :: "string \<Rightarrow> string \<Rightarrow> exn + string" where
  "volumeName pre sandboxId =
     (case normalizeSandboxId sandboxId of
        Inl e \<Rightarrow> Inl e
      | Inr normalized \<Rightarrow> Inr (trimName (pre @ ''-'' @ normalized)))"

section \<open>What a normalised identifier is\<close>

text \<open>
  The contract: 1 to 64 characters from a-z, 0-9 and the separators, beginning and ending
  in a letter or digit, with no two dashes in a row.
\<close>

definition id_wf :: "string \<Rightarrow> bool" where
  "id_wf s \<longleftrightarrow>
     s \<noteq> [] \<and> length s \<le> 64 \<and> list_all is_id_char s \<and>
     \<not> is_separator (hd s) \<and> \<not> is_separator (last s) \<and> \<not> sublist ''--'' s"

definition is_alnum :: "char \<Rightarrow> bool" where
  "is_alnum c \<longleftrightarrow> is_lower_az c \<or> is_upper_az c \<or> is_digit c"

text \<open>A provider of identifiers, as the registry uses it: a normaliser onto a set of identifiers.\<close>

locale id_normalizer =
  fixes norm :: "string \<Rightarrow> exn + string" and wf :: "string \<Rightarrow> bool"
  assumes norm_wf: "norm x = Inr y \<Longrightarrow> wf y"
    and norm_fix: "wf y \<Longrightarrow> norm y = Inr y"
begin

lemma norm_idem: "norm x = Inr y \<Longrightarrow> norm y = Inr y"
  by (rule norm_fix [OF norm_wf])

lemma norm_range: "(\<exists>x. norm x = Inr y) \<longleftrightarrow> wf y"
  using norm_wf norm_fix by blast

lemma norm_stable: "norm x = Inr y \<Longrightarrow> norm y = Inr z \<Longrightarrow> z = y"
  by (simp add: norm_idem)

end

section \<open>Run replacement and stripping\<close>

lemma replace_runs_none: "(\<And>c. c \<in> set s \<Longrightarrow> \<not> P c) \<Longrightarrow> replace_runs P r s = s"
  by (induction P r s rule: replace_runs.induct) auto

lemma set_replace_runs: "set (replace_runs P r s) \<subseteq> {c \<in> set s. \<not> P c} \<union> set r"
proof (induction P r s rule: replace_runs.induct)
  case (2 P r c s)
  then show ?case using set_dropWhileD [of _ P s] by (cases "P c") auto
qed simp

lemma keep_replace_runs: "c \<in> set s \<Longrightarrow> \<not> P c \<Longrightarrow> c \<in> set (replace_runs P r s)"
proof (induction P r s rule: replace_runs.induct)
  case (2 P r d s)
  show ?case
  proof (cases "P d")
    case True
    have "c \<in> set s" using 2 True by auto
    then have "c \<in> set (dropWhile P s)"
      using \<open>\<not> P c\<close> by (induction s) auto
    then show ?thesis using "2.IH"(1) True \<open>\<not> P c\<close> by simp
  next
    case False
    then show ?thesis using 2 by auto
  qed
qed simp

lemma hd_replace_runs_dash:
  "s \<noteq> [] \<Longrightarrow> hd (replace_runs (\<lambda>c. c = d) [d] s) = hd s"
  by (cases s) auto

lemma replace_runs_eq_Nil [simp]: "replace_runs P [d] s = [] \<longleftrightarrow> s = []"
  by (cases s) auto

lemma replace_runs_no_double: "\<not> sublist [d, d] (replace_runs (\<lambda>c. c = d) [d] s)"
proof (induction "\<lambda>c. c = d" "[d]" s rule: replace_runs.induct)
  case (2 c s)
  let ?rest = "dropWhile (\<lambda>c. c = d) s"
  show ?case
  proof (cases "c = d")
    case True
    have "?rest \<noteq> [] \<Longrightarrow> hd ?rest \<noteq> d" using hd_dropWhile [of "\<lambda>c. c = d" s] by auto
    then have "\<not> prefix [d] (replace_runs (\<lambda>c. c = d) [d] ?rest)"
      by (cases ?rest) (simp_all add: prefix_Cons del: dropWhile_eq_Nil_conv)
    with 2 True show ?thesis by (auto simp: sublist_Cons_right)
  next
    case False
    with 2 show ?thesis by (auto simp: sublist_Cons_right)
  qed
qed simp

lemma replace_runs_no_double_id:
  "\<not> sublist [d, d] s \<Longrightarrow> replace_runs (\<lambda>c. c = d) [d] s = s"
proof (induction s)
  case (Cons c s)
  then have s: "\<not> sublist [d, d] s" by (auto simp: sublist_Cons_right)
  show ?case
  proof (cases "c = d")
    case True
    have "dropWhile (\<lambda>c. c = d) s = s"
      using Cons.prems True by (cases s) (auto simp: sublist_Cons_right)
    with True Cons.IH [OF s] show ?thesis by simp
  next
    case False
    with Cons.IH [OF s] show ?thesis by simp
  qed
qed simp

lemma keep_drop_end: "c \<in> set s \<Longrightarrow> \<not> P c \<Longrightarrow> c \<in> set (drop_end P s)"
  by (induction s rule: rev_induct) (auto split: if_splits)

lemma keep_dropWhile: "c \<in> set s \<Longrightarrow> \<not> P c \<Longrightarrow> c \<in> set (dropWhile P s)"
  by (induction s) auto

lemma keep_strip_ends: "c \<in> set s \<Longrightarrow> \<not> P c \<Longrightarrow> c \<in> set (strip_ends P s)"
  unfolding strip_ends_def by (intro keep_drop_end keep_dropWhile)

section \<open>Facts about characters of identifiers\<close>

lemma separator_not_alnum: "is_separator c \<Longrightarrow> \<not> is_lower_az c \<and> \<not> is_upper_az c \<and> \<not> is_digit c"
  by (auto simp: is_separator_def is_lower_az_def is_upper_az_def is_digit_def)

lemma id_char_not_space: "is_id_char c \<Longrightarrow> \<not> is_js_space c"
  by (auto simp: is_id_char_def is_separator_def is_lower_az_def is_digit_def is_js_space_def)

lemma lower_separator: "is_separator c \<Longrightarrow> lower_char c = c"
  by (auto simp: is_separator_def lower_char_def)

lemma lower_id_char: "is_id_char c \<Longrightarrow> lower_char c = c"
  by (auto simp: is_id_char_def lower_separator intro: lower_char_lower)

lemma alnum_not_space: "is_alnum c \<Longrightarrow> \<not> is_js_space c"
  by (auto simp: is_alnum_def is_lower_az_def is_upper_az_def is_digit_def is_js_space_def)

lemma lower_alnum: "is_alnum c \<Longrightarrow> is_id_char (lower_char c) \<and> \<not> is_separator (lower_char c)"
  by (auto simp: is_alnum_def is_id_char_def lower_char_az lower_char_digit
      dest: separator_not_alnum)

lemma lower_id_not_separator:
  "is_id_char (lower_char c) \<Longrightarrow> \<not> is_separator (lower_char c) \<Longrightarrow> is_alnum c"
  by (auto simp: is_alnum_def is_id_char_def lower_char_az lower_char_digit)

lemma dash_separator: "is_separator (CHR ''-'')"
  by (simp add: is_separator_def)

section \<open>Normalisation\<close>

text \<open>The text after both replacements, before the ends are stripped.\<close>

definition dashed :: "string \<Rightarrow> string" where
  "dashed v = replace_runs (\<lambda>c. c = CHR ''-'') ''-''
     (replace_runs (\<lambda>c. \<not> is_id_char c) ''-'' (toLowerCase (trim v)))"

lemma dashed_id_chars: "c \<in> set (dashed v) \<Longrightarrow> is_id_char c"
  using set_replace_runs [of "\<lambda>c. c = CHR ''-''" "''-''"]
    set_replace_runs [of "\<lambda>c. \<not> is_id_char c" "''-''"]
  unfolding dashed_def by (fastforce simp: is_id_char_def is_separator_def)

lemma dashed_alnum:
  "(\<exists>c \<in> set (dashed v). \<not> is_separator c) \<longleftrightarrow> (\<exists>c \<in> set v. is_alnum c)"
proof
  assume "\<exists>c \<in> set (dashed v). \<not> is_separator c"
  then obtain c where c: "c \<in> set (dashed v)" "\<not> is_separator c" by blast
  have "c \<in> set (toLowerCase (trim v))"
    using c set_replace_runs [of "\<lambda>c. c = CHR ''-''" "''-''"]
      set_replace_runs [of "\<lambda>c. \<not> is_id_char c" "''-''" "toLowerCase (trim v)"] dash_separator
    unfolding dashed_def by fastforce
  then obtain d where "d \<in> set v" "c = lower_char d"
    using set_strip_ends unfolding toLowerCase_def trim_def by fastforce
  with c dashed_id_chars [OF c(1)] show "\<exists>c \<in> set v. is_alnum c"
    by (auto dest: lower_id_not_separator)
next
  assume "\<exists>c \<in> set v. is_alnum c"
  then obtain c where c: "c \<in> set v" "is_alnum c" by blast
  then have "c \<in> set (trim v)"
    by (simp add: trim_def keep_strip_ends alnum_not_space)
  then have "lower_char c \<in> set (toLowerCase (trim v))" by (simp add: toLowerCase_def)
  then have "lower_char c \<in> set (dashed v)"
    using lower_alnum [OF c(2)] dash_separator
    unfolding dashed_def by (intro keep_replace_runs) auto
  with lower_alnum [OF c(2)] show "\<exists>c \<in> set (dashed v). \<not> is_separator c" by blast
qed

lemma normalizeSegment_dashed:
  "normalizeSegment v f =
     (let n = strip_ends is_separator (dashed v) in
      if n = [] then Inl (JsError (f @ '' is required''))
      else if length n > 64 then Inr (str_or (drop_end is_separator (take 64 n)) (take 64 n))
      else Inr n)"
  by (simp add: normalizeSegment_def dashed_def Let_def)

text \<open>A prefix of a stripped text keeps its first character, so cutting it leaves something.\<close>

lemma cut_not_empty:
  assumes "n \<noteq> []" and "\<not> is_separator (hd n)" and "0 < k"
  shows "drop_end is_separator (take k n) \<noteq> []"
    and "hd (drop_end is_separator (take k n)) = hd n"
proof -
  have "take k n \<noteq> []" and hd: "hd (take k n) = hd n"
    using assms by (auto simp: hd_take)
  then have "hd (take k n) \<in> set (take k n)" by (metis list.set_sel(1))
  with assms(2) hd show ne: "drop_end is_separator (take k n) \<noteq> []"
    by (auto simp: drop_end_eq_Nil)
  show "hd (drop_end is_separator (take k n)) = hd n"
    using hd_drop_end [OF ne] hd by simp
qed

text \<open>The shape both results of the function have: a piece of the dashed text.\<close>

lemma normalizeSegment_cases:
  assumes "normalizeSegment v f = Inr y"
  obtains n where "n = strip_ends is_separator (dashed v)" and "n \<noteq> []"
    and "y = (if length n > 64 then drop_end is_separator (take 64 n) else n)"
proof -
  define n where "n = strip_ends is_separator (dashed v)"
  have ne: "n \<noteq> []"
    using assms by (auto simp: normalizeSegment_dashed n_def Let_def split: if_splits)
  have "\<not> is_separator (hd n)"
    using ne unfolding n_def by (rule strip_ends_hd)
  then have "drop_end is_separator (take 64 n) \<noteq> []"
    using ne by (intro cut_not_empty) auto
  then have "y = (if length n > 64 then drop_end is_separator (take 64 n) else n)"
    using assms ne
    by (auto simp: normalizeSegment_dashed n_def Let_def str_or_def split: if_splits)
  with that n_def ne show thesis by blast
qed

lemma normalizeSegment_wf:
  assumes "normalizeSegment v f = Inr y"
  shows "id_wf y"
proof -
  obtain n where n: "n = strip_ends is_separator (dashed v)" "n \<noteq> []"
    and y: "y = (if length n > 64 then drop_end is_separator (take 64 n) else n)"
    using assms by (rule normalizeSegment_cases)
  have hd_n: "\<not> is_separator (hd n)" using n strip_ends_hd by blast
  have last_n: "\<not> is_separator (last n)" using n strip_ends_last by blast
  have "sublist y n"
    using y prefix_imp_sublist [OF prefix_order.trans [OF drop_end_prefix take_is_prefix]]
    by (auto split: if_splits)
  then have sub: "sublist y (dashed v)"
    using n strip_ends_sublist sublist_order.order.trans by blast
  have "\<not> sublist ''--'' (dashed v)"
    unfolding dashed_def by (rule replace_runs_no_double)
  with sub have nodd: "\<not> sublist ''--'' y" using sublist_order.order.trans by blast
  have chars: "list_all is_id_char y"
    using sub dashed_id_chars by (auto simp: list_all_iff dest: set_mono_sublist)
  have ends: "y \<noteq> [] \<and> \<not> is_separator (hd y) \<and> \<not> is_separator (last y)"
  proof (cases "length n > 64")
    case True
    have "drop_end is_separator (take 64 n) \<noteq> []"
      and "hd (drop_end is_separator (take 64 n)) = hd n"
      using cut_not_empty [OF n(2) hd_n, of 64] by simp_all
    with True y hd_n show ?thesis using last_drop_end by auto
  next
    case False
    with y n hd_n last_n show ?thesis by simp
  qed
  have "length y \<le> 64"
    using y length_drop_end [of is_separator "take 64 n"] by (auto split: if_splits)
  with ends chars nodd show ?thesis by (simp add: id_wf_def)
qed

lemma normalizeSegment_fix:
  assumes "id_wf y"
  shows "normalizeSegment y f = Inr y"
proof -
  have chars: "\<And>c. c \<in> set y \<Longrightarrow> is_id_char c"
    using assms by (auto simp: id_wf_def list_all_iff)
  have "trim y = y" using chars id_char_not_space by (intro trim_id) blast
  moreover have "toLowerCase y = y"
    unfolding toLowerCase_def using chars lower_id_char by (intro map_update_id) blast
  moreover have "replace_runs (\<lambda>c. \<not> is_id_char c) ''-'' y = y"
    using chars by (intro replace_runs_none) blast
  moreover have "replace_runs (\<lambda>c. c = CHR ''-'') ''-'' y = y"
    using assms by (intro replace_runs_no_double_id) (simp add: id_wf_def)
  ultimately have "dashed y = y" by (simp add: dashed_def)
  moreover have "strip_ends is_separator y = y"
    using assms by (intro strip_ends_id) (simp add: id_wf_def)
  ultimately show ?thesis
    using assms by (simp add: normalizeSegment_dashed id_wf_def)
qed

interpretation sandbox_id: id_normalizer normalizeSandboxId id_wf
  by unfold_locales
    (simp_all add: normalizeSandboxId_def normalizeSegment_wf normalizeSegment_fix)

lemma normalizeSandboxId_err:
  "normalizeSandboxId v = Inl e \<longleftrightarrow>
     (\<forall>c \<in> set v. \<not> is_alnum c) \<and> e = JsError ''sandboxId is required''"
proof -
  have "strip_ends is_separator (dashed v) = [] \<longleftrightarrow> (\<forall>c \<in> set v. \<not> is_alnum c)"
    using dashed_alnum [of v] by (auto simp: strip_ends_eq_Nil)
  then show ?thesis
    by (auto simp: normalizeSandboxId_def normalizeSegment_dashed Let_def)
qed

section \<open>VM and volume names\<close>

lemma trimName_length: "length (trimName v) \<le> 120"
  using length_drop_end [of is_separator "take 120 v"] by (simp add: trimName_def)

lemma sandboxName_short:
  assumes "normalizeSandboxId sid = Inr y" and "length pre \<le> 55"
  shows "sandboxName pre sid = Inr (pre @ ''-'' @ y)"
  using assms sandbox_id.norm_wf [OF assms(1)]
  by (simp add: sandboxName_def trimName_def id_wf_def)

lemma volumeName_sandboxName: "volumeName pre sid = sandboxName pre sid"
  by (simp add: volumeName_def sandboxName_def)

end
