(* ===== verification/JsDate.thy ===== *)
theory JsDate
  imports Json
begin

text \<open>
  \<open>Date.prototype.toISOString\<close> on a date given in milliseconds since the epoch, by the
  proleptic Gregorian calendar. The summaries print their dates with it.
\<close>

section \<open>Calendar\<close>

text \<open>Year, month and day of a day number; day 0 is 1970-01-01.\<close>

definition civil_of_days :: "int \<Rightarrow> int \<times> int \<times> int" where
  "civil_of_days days =
     (let z = days + 719468;
          era = z div 146097;
          doe = z mod 146097;
          yoe = (doe - doe div 1460 + doe div 36524 - doe div 146096) div 365;
          doy = doe - (365 * yoe + yoe div 4 - yoe div 100);
          mp = (5 * doy + 2) div 153;
          d = doy - (153 * mp + 2) div 5 + 1;
          m = (if mp < 10 then mp + 3 else mp - 9);
          y = yoe + era * 400 + (if m \<le> 2 then 1 else 0)
      in (y, m, d))"

definition pad :: "nat \<Rightarrow> int \<Rightarrow> string" where
  "pad w i = (let ds = nat_digits (nat i) in replicate (w - length ds) (CHR ''0'') @ ds)"

text \<open>Years from 0 to 9999 have four digits, the others a sign and six.\<close>

definition iso_year :: "int \<Rightarrow> string" where
  "iso_year y =
     (if 0 \<le> y \<and> y \<le> 9999 then pad 4 y
      else (if y < 0 then ''-'' else ''+'') @ pad 6 \<bar>y\<bar>)"

definition toISOString :: "int \<Rightarrow> string" where
  "toISOString ms =
     (let (y, m, d) = civil_of_days (ms div 86400000);
          t = ms mod 86400000
      in iso_year y @ ''-'' @ pad 2 m @ ''-'' @ pad 2 d @ ''T''
         @ pad 2 (t div 3600000) @ '':'' @ pad 2 (t div 60000 mod 60) @ '':''
         @ pad 2 (t div 1000 mod 60) @ ''.'' @ pad 3 (t mod 1000) @ ''Z'')"

text \<open>
  A date further from the epoch than 100 million days is invalid: \<open>toISOString\<close> throws a
  \<open>RangeError\<close>. Dates from a clock are not; the callers whose dates a request sets check this.
\<close>

definition valid_date :: "int \<Rightarrow> bool" where
  "valid_date ms \<longleftrightarrow> \<bar>ms\<bar> \<le> 8640000000000000"

section \<open>Lemmas\<close>

lemma toISOString_epoch: "toISOString 0 = ''1970-01-01T00:00:00.000Z''"
  by code_simp

lemma toISOString_leap_day: "toISOString 1709208000123 = ''2024-02-29T12:00:00.123Z''"
  by code_simp

end
