(* ===== verification/Registry.thy ===== *)
theory Registry
  imports World Identity JsDate
begin

text \<open>
  \<open>RuntimeRegistryService\<close> (runtime-registry/runtime-registry.service.ts): the operations on
  the tables, one definition per method. The second half specifies the port allocator (the
  method \<open>leasePorts\<close> returns the lowest free ports or throws and drops every lease of the
  runtime), states the contract of an allocator as the locale \<open>port_allocator\<close>, proves its
  consequences there and shows that the registry is one. It also shows what the look-ups
  return, what deletion removes and what a status summary reveals.
\<close>

section \<open>Hosts and runtimes\<close>

definition localHostId :: string where
  "localHostId = ''local''"

definition ensureLocalHost :: "'v io \<Rightarrow> ('v sys, runtimeHost) eff" where
  "ensureLocalHost io =
     bnd (host_findOne io (\<lambda>h. rh_id h = localHostId)) (\<lambda>existing.
     bnd (dateNow io) (\<lambda>now.
     let base = \<lparr>rh_id = localHostId, rh_name = runtimeHostName (io_config io),
                 rh_baseUrl = runtimeHostBaseUrl (io_config io),
                 rh_publicBaseUrl = runtimeHostPublicBaseUrl (io_config io),
                 rh_enabled = True, rh_lastSeenAt = Some now\<rparr>
     in case existing of
          Some h \<Rightarrow> host_save io
            (h\<lparr>rh_id := rh_id base, rh_name := rh_name base, rh_baseUrl := rh_baseUrl base,
               rh_publicBaseUrl := rh_publicBaseUrl base, rh_enabled := rh_enabled base,
               rh_lastSeenAt := rh_lastSeenAt base\<rparr>)
        | None \<Rightarrow> host_save io base))"

definition listRuntimes :: "'v io \<Rightarrow> ('v sys, runtimeEntity list) eff" where
  "listRuntimes io = runtime_findDesc io rt_createdAt"

definition findRuntimeBySandboxIdOrName :: "'v io \<Rightarrow> string \<Rightarrow> ('v sys, runtimeEntity option) eff" where
  "findRuntimeBySandboxIdOrName io v =
     bnd (lift_sum (normalizeSandboxId v)) (\<lambda>normalized.
     runtime_findOne io (\<lambda>r. rt_sandboxId r = normalized \<or> rt_name r = Some normalized))"

definition findRuntimeBySandboxId :: "'v io \<Rightarrow> string \<Rightarrow> ('v sys, runtimeEntity option) eff" where
  "findRuntimeBySandboxId io sandboxId =
     bnd (lift_sum (normalizeSandboxId sandboxId)) (\<lambda>normalized.
     runtime_findOne io (\<lambda>r. rt_sandboxId r = normalized))"

definition saveRuntime :: "'v io \<Rightarrow> runtimeEntity \<Rightarrow> ('v sys, runtimeEntity) eff" where
  "saveRuntime io input = runtime_insert io input"

text \<open>The patch of \<open>Object.assign\<close> is a function on the entity.\<close>

definition updateRuntime ::
  "'v io \<Rightarrow> runtimeEntity \<Rightarrow> (runtimeEntity \<Rightarrow> runtimeEntity) \<Rightarrow> ('v sys, runtimeEntity) eff" where
  "updateRuntime io runtime patch = runtime_save io (patch runtime)"

definition deleteRuntime :: "'v io \<Rightarrow> runtimeEntity \<Rightarrow> ('v sys, unit) eff" where
  "deleteRuntime io runtime =
     bnd (runtime_delete io (\<lambda>r. rt_id r = rt_id runtime)) (\<lambda>_.
     bnd (lease_delete io (\<lambda>l. pl_runtimeId l = rt_id runtime)) (\<lambda>_.
     preview_delete io (\<lambda>t. sp_sandboxId t = rt_sandboxId runtime)))"

definition setRuntimeStatus ::
  "'v io \<Rightarrow> runtimeEntity \<Rightarrow> runtimeStatus \<Rightarrow> string option \<Rightarrow> ('v sys, runtimeEntity) eff" where
  "setRuntimeStatus io runtime status statusReason =
     bnd (if status = Running then bnd (dateNow io) (\<lambda>now. ret (Some now))
          else ret (rt_lastActiveAt runtime)) (\<lambda>active.
     updateRuntime io runtime (\<lambda>r. r\<lparr>rt_status := status, rt_statusReason := statusReason,
       rt_lastActiveAt := active\<rparr>))"

section \<open>Names\<close>

definition reg_sandboxName :: "'v io \<Rightarrow> string \<Rightarrow> exn + string" where
  "reg_sandboxName io sandboxId = sandboxName (sandboxNamePrefix (io_config io)) sandboxId"

definition volumeBackendName :: "'v io \<Rightarrow> string \<Rightarrow> exn + string" where
  "volumeBackendName io volumeId = volumeName (volumeNamePrefix (io_config io)) volumeId"

text \<open>\<open>!value?.trim()\<close>\<close>

definition blank :: "string option \<Rightarrow> bool" where
  "blank v = (case v of None \<Rightarrow> True | Some s \<Rightarrow> trim s = [])"

definition normalizeName :: "string option \<Rightarrow> exn + string option" where
  "normalizeName v =
     (if blank v then Inr None
      else (case normalizeSandboxId (the v) of Inl e \<Rightarrow> Inl e | Inr n \<Rightarrow> Inr (Some n)))"

definition createSandboxId :: "'v io \<Rightarrow> string option \<Rightarrow> ('v sys, string) eff" where
  "createSandboxId io seed =
     (if \<not> blank seed then lift_sum (normalizeSandboxId (the seed))
      else bnd (outside_pure (io_randomHex io 8)) (\<lambda>h. lift_sum (normalizeSandboxId h)))"

section \<open>Port leases\<close>

text \<open>The loop of \<open>leasePorts\<close>, from the port it looks at and the ports leased so far.\<close>

function lease_loop ::
  "'v io \<Rightarrow> string \<Rightarrow> int \<Rightarrow> int \<Rightarrow> int list \<Rightarrow> ('v sys, int list) eff" where
  "lease_loop io runtimeId count p ports =
     (if p \<le> portRangeEnd (io_config io) \<and> int (length ports) < count then
        bnd (lease_findOne io (\<lambda>l. pl_runtimeHostId l = localHostId \<and> pl_port l = p)) (\<lambda>existing.
        case existing of
          Some _ \<Rightarrow> lease_loop io runtimeId count (p + 1) ports
        | None \<Rightarrow>
            bnd (catching
                  (bnd (lease_insert io \<lparr>pl_id = [], pl_runtimeHostId = localHostId, pl_port = p,
                          pl_runtimeId = runtimeId, pl_leasedAt = 0\<rparr>) (\<lambda>_. ret (ports @ [p])))
                  (\<lambda>_. ret ports)) (\<lambda>ports'.
            lease_loop io runtimeId count (p + 1) ports'))
      else ret ports)"
  by pat_completeness auto
termination
  by (relation "measure (\<lambda>(io, _, _, p, _). nat (portRangeEnd (io_config io) + 1 - p))") auto

declare lease_loop.simps [simp del]

definition leasePorts :: "'v io \<Rightarrow> string \<Rightarrow> int \<Rightarrow> ('v sys, int list) eff" where
  "leasePorts io runtimeId count =
     bnd (lease_loop io runtimeId count (portRangeStart (io_config io)) []) (\<lambda>ports.
     if int (length ports) \<noteq> count then
       bnd (lease_delete io (\<lambda>l. pl_runtimeId l = runtimeId)) (\<lambda>_.
       throw (JsError ''No free runtime ports available''))
     else ret ports)"

definition releasePorts :: "'v io \<Rightarrow> string \<Rightarrow> ('v sys, unit) eff" where
  "releasePorts io runtimeId = lease_delete io (\<lambda>l. pl_runtimeId l = runtimeId)"

section \<open>Status summary\<close>

record runtimeSummary =
  su_runtimeId :: string
  su_sandboxId :: string
  su_name :: "string option"
  su_sandboxName :: string
  su_runtimeHostId :: string
  su_hostPort :: int
  su_primaryPort :: int
  su_primaryPortProtocol :: protocol
  su_portBindings :: "portBinding list"
  su_public :: bool
  su_status :: runtimeStatus
  su_image :: string
  su_command :: "string list"
  su_env :: "(string \<times> string) list"
  su_workingDir :: "string option"
  su_mounts :: "mountRecord list"
  su_volumeMountPath :: "string option"
  su_cpu :: int
  su_memoryMiB :: int
  su_diskGiB :: int
  su_autoStopMinutes :: "int option"
  su_ephemeral :: bool
  su_hasSecrets :: bool
  su_lastActiveAt :: "string option"
  su_statusReason :: "string option"
  su_createdAt :: "string option"
  su_updatedAt :: "string option"

text \<open>\<open>x ?? []\<close>\<close>

definition or_nil :: "'a list option \<Rightarrow> 'a list" where
  "or_nil x = (case x of None \<Rightarrow> [] | Some xs \<Rightarrow> xs)"

definition runtimeStatusSummary :: "runtimeEntity \<Rightarrow> runtimeSummary" where
  "runtimeStatusSummary r =
     (let firstMount = (case or_nil (rt_mounts r) of [] \<Rightarrow> None | m # _ \<Rightarrow> Some m)
      in \<lparr>su_runtimeId = rt_id r, su_sandboxId = rt_sandboxId r, su_name = rt_name r,
          su_sandboxName = rt_sandboxName r, su_runtimeHostId = rt_runtimeHostId r,
          su_hostPort = rt_hostPort r, su_primaryPort = rt_primaryPort r,
          su_primaryPortProtocol = rt_primaryPortProtocol r,
          su_portBindings = rt_portBindings r, su_public = rt_public r,
          su_status = rt_status r, su_image = rt_image r,
          su_command = or_nil (rt_command r), su_env = or_nil (rt_environment r),
          su_workingDir = rt_workingDir r, su_mounts = or_nil (rt_mounts r),
          su_volumeMountPath = map_option mr_mountPath firstMount,
          su_cpu = rt_cpu r, su_memoryMiB = rt_memoryMiB r, su_diskGiB = rt_diskGiB r,
          su_autoStopMinutes = rt_autoStopMinutes r, su_ephemeral = rt_ephemeral r,
          su_hasSecrets = (0 < length (or_nil (rt_secrets r))),
          su_lastActiveAt = map_option toISOString (rt_lastActiveAt r),
          su_statusReason = rt_statusReason r,
          su_createdAt = Some (toISOString (rt_createdAt r)),
          su_updatedAt = Some (toISOString (rt_updatedAt r))\<rparr>)"

section \<open>Volumes\<close>

definition reg_listVolumes :: "'v io \<Rightarrow> ('v sys, volumeEntity list) eff" where
  "reg_listVolumes io = volume_findDesc io vo_createdAt"

definition findVolumeByIdOrName :: "'v io \<Rightarrow> string \<Rightarrow> ('v sys, volumeEntity option) eff" where
  "findVolumeByIdOrName io v =
     bnd (lift_sum (normalizeName (Some v))) (\<lambda>normalized.
     case normalized of
       None \<Rightarrow> ret None
     | Some n \<Rightarrow> volume_findOne io (\<lambda>r. vo_id r = v \<or> vo_name r = n))"

definition saveVolume :: "'v io \<Rightarrow> volumeEntity \<Rightarrow> ('v sys, volumeEntity) eff" where
  "saveVolume io input = volume_insert io input"

definition reg_deleteVolume :: "'v io \<Rightarrow> volumeEntity \<Rightarrow> ('v sys, unit) eff" where
  "reg_deleteVolume io volume = volume_delete io (\<lambda>r. vo_id r = vo_id volume)"

section \<open>Signed preview tokens\<close>

definition createSignedPreviewToken ::
  "'v io \<Rightarrow> string \<Rightarrow> int \<Rightarrow> int \<Rightarrow> ('v sys, previewToken) eff" where
  "createSignedPreviewToken io sandboxId p ttlSeconds =
     bnd (preview_delete io (\<lambda>t. sp_sandboxId t = sandboxId \<and> sp_port t = p)) (\<lambda>_.
     bnd (outside_pure (io_randomBase64url io 24)) (\<lambda>token.
     bnd (dateNow io) (\<lambda>now.
     preview_insert io \<lparr>sp_id = [], sp_token = token, sp_sandboxId = sandboxId, sp_port = p,
       sp_expiresAt = now + ttlSeconds * 1000, sp_createdAt = 0\<rparr>)))"

definition getSignedPreviewToken ::
  "'v io \<Rightarrow> string \<Rightarrow> int \<Rightarrow> ('v sys, previewToken option) eff" where
  "getSignedPreviewToken io token p =
     preview_findOne io (\<lambda>t. sp_token t = token \<and> sp_port t = p)"

definition expireSignedPreviewToken :: "'v io \<Rightarrow> string \<Rightarrow> int \<Rightarrow> ('v sys, unit) eff" where
  "expireSignedPreviewToken io token p =
     preview_delete io (\<lambda>t. sp_token t = token \<and> sp_port t = p)"

definition hasSignedPreviewTokenExpired :: "'v io \<Rightarrow> previewToken \<Rightarrow> ('v sys, bool) eff" where
  "hasSignedPreviewTokenExpired io record =
     bnd (dateNow io) (\<lambda>now. ret (sp_expiresAt record \<le> now))"

section \<open>Comparisons\<close>

definition mountRecordsEqual :: "mountRecord list option \<Rightarrow> mountRecord list \<Rightarrow> bool" where
  "mountRecordsEqual current next = json_equal mountRecord_json (or_nil current) next"

definition portBindingsEqual :: "portBinding list option \<Rightarrow> portBinding list \<Rightarrow> bool" where
  "portBindingsEqual current next = json_equal portBinding_json (or_nil current) next"


section \<open>Specification of the port allocator\<close>

text \<open>The ports of the local host in a range that no lease holds, lowest first.\<close>

definition leased :: "portLease list \<Rightarrow> int \<Rightarrow> bool" where
  "leased ls p \<longleftrightarrow> (\<exists>l \<in> set ls. pl_runtimeHostId l = localHostId \<and> pl_port l = p)"

definition free_from :: "portLease list \<Rightarrow> int \<Rightarrow> int \<Rightarrow> int list" where
  "free_from ls a b = filter (\<lambda>p. \<not> leased ls p) [a..b]"

definition free_ports :: "config \<Rightarrow> portLease list \<Rightarrow> int list" where
  "free_ports cfg ls = free_from ls (portRangeStart cfg) (portRangeEnd cfg)"

text \<open>The leases of a runtime on a list of ports of the local host.\<close>

definition grants :: "string \<Rightarrow> int list \<Rightarrow> portLease list \<Rightarrow> bool" where
  "grants rid ps new \<longleftrightarrow> map pl_port new = ps \<and>
     list_all (\<lambda>l. pl_runtimeHostId l = localHostId \<and> pl_runtimeId l = rid) new"

lemma free_from_done: "b < a \<Longrightarrow> free_from ls a b = []"
  by (simp add: free_from_def)

lemma free_from_step:
  "a \<le> b \<Longrightarrow> free_from ls a b =
     (if leased ls a then free_from ls (a + 1) b else a # free_from ls (a + 1) b)"
  by (simp add: free_from_def upto_rec1)

lemma free_from_after:
  assumes "pl_port l < a"
  shows "free_from (ls @ [l]) a b = free_from ls a b"
  unfolding free_from_def
  by (rule filter_cong [OF refl]) (use assms in \<open>auto simp: leased_def\<close>)

lemma set_free_from: "set (free_from ls a b) = {p. a \<le> p \<and> p \<le> b \<and> \<not> leased ls p}"
  by (auto simp: free_from_def)

lemma distinct_free_from [simp]: "distinct (free_from ls a b)"
  by (simp add: free_from_def)

lemma sorted_free_from [simp]: "sorted (free_from ls a b)"
  by (simp add: free_from_def sorted_wrt_filter)

lemma grants_Cons:
  "grants rid (p # ps) (l # new) \<longleftrightarrow>
     pl_port l = p \<and> pl_runtimeHostId l = localHostId \<and> pl_runtimeId l = rid \<and> grants rid ps new"
  by (auto simp: grants_def)

context database begin

lemma lease_findOne_run:
  obtains (free) "\<not> leased (leases s) p"
      and "lease_findOne io (\<lambda>l. pl_runtimeHostId l = localHostId \<and> pl_port l = p) s = (Inr None, s)"
    | (held) l where "leased (leases s) p"
      and "lease_findOne io (\<lambda>l. pl_runtimeHostId l = localHostId \<and> pl_port l = p) s = (Inr (Some l), s)"
proof (cases "findOne (portLeaseRepo io) (\<lambda>l. pl_runtimeHostId l = localHostId \<and> pl_port l = p) (leases s)")
  case None
  then show thesis
    using free pl.findOne_None [of "\<lambda>l. pl_runtimeHostId l = localHostId \<and> pl_port l = p" "leases s"]
    by (auto simp: leased_def lease_findOne_def)
next
  case (Some l)
  then show thesis
    using held pl.findOne_Some [OF Some] by (auto simp: leased_def lease_findOne_def)
qed

lemma lease_insert_free:
  assumes "\<not> leased (leases s) p"
  obtains l where "grants rid [p] [l]"
    and "lease_insert io \<lparr>pl_id = [], pl_runtimeHostId = localHostId, pl_port = p,
           pl_runtimeId = rid, pl_leasedAt = 0\<rparr> s = (Inr l, s\<lparr>leases := leases s @ [l]\<rparr>)"
proof -
  let ?r = "\<lparr>pl_id = [], pl_runtimeHostId = localHostId, pl_port = p,
              pl_runtimeId = rid, pl_leasedAt = 0\<rparr>"
  have "\<forall>x \<in> set (leases s). \<not> lease_clash ?r x"
    using assms by (auto simp: leased_def lease_clash_def)
  then obtain i c where
    ins: "insertRow (portLeaseRepo io) ?r (leases s) = (Inr (lease_stamp i c ?r), leases s @ [lease_stamp i c ?r])"
    using pl.insert_ok by blast
  show thesis
    by (rule that [of "lease_stamp i c ?r"])
      (use ins in \<open>simp_all add: grants_def lease_stamp_def lease_insert_def\<close>)
qed

lemma lease_loop_run:
  defines "hi \<equiv> portRangeEnd (io_config io)"
  shows "\<exists>new. grants rid (take (nat count - length ports) (free_from (leases s) p hi)) new \<and>
     lease_loop io rid count p ports s =
       (Inr (ports @ take (nat count - length ports) (free_from (leases s) p hi)),
        s\<lparr>leases := leases s @ new\<rparr>)"
proof (induction "nat (hi + 1 - p)" arbitrary: p ports s)
  case 0
  then show ?case
    by (intro exI [of _ "[]"])
      (simp add: lease_loop.simps [of io rid count p] free_from_done grants_def hi_def)
next
  case (Suc n)
  then have n: "n = nat (hi + 1 - (p + 1))" and p: "p \<le> hi" by simp_all
  note IH = Suc.hyps(1) [OF n]
  show ?case
  proof (cases "int (length ports) < count")
    case False
    then show ?thesis
      by (intro exI [of _ "[]"]) (simp add: lease_loop.simps [of io rid count p] grants_def)
  next
    case more: True
    with p have guard: "p \<le> portRangeEnd (io_config io) \<and> int (length ports) < count"
      by (simp add: hi_def)
    show ?thesis
    proof (cases rule: lease_findOne_run [of s p])
      case (held l)
      with guard have "lease_loop io rid count p ports s = lease_loop io rid count (p + 1) ports s"
        by (subst lease_loop.simps) (simp add: bnd_run)
      with held(1) p show ?thesis using IH [of ports s] by (simp add: free_from_step)
    next
      case free
      from free(1) obtain l where l: "grants rid [p] [l]"
        and ins: "lease_insert io \<lparr>pl_id = [], pl_runtimeHostId = localHostId, pl_port = p,
           pl_runtimeId = rid, pl_leasedAt = 0\<rparr> s = (Inr l, s\<lparr>leases := leases s @ [l]\<rparr>)"
        by (rule lease_insert_free)
      from guard free(2) ins have step: "lease_loop io rid count p ports s =
          lease_loop io rid count (p + 1) (ports @ [p]) (s\<lparr>leases := leases s @ [l]\<rparr>)"
        by (subst lease_loop.simps) (simp add: bnd_run catching_run)
      have after: "free_from (leases s @ [l]) (p + 1) hi = free_from (leases s) (p + 1) hi"
        by (rule free_from_after) (use l in \<open>simp add: grants_def\<close>)
      have k: "nat count - length ports = Suc (nat count - Suc (length ports))" using more by simp
      obtain new where "grants rid (take (nat count - Suc (length ports)) (free_from (leases s) (p + 1) hi)) new"
        and "lease_loop io rid count p ports s =
          (Inr (ports @ p # take (nat count - Suc (length ports)) (free_from (leases s) (p + 1) hi)),
           s\<lparr>leases := leases s @ l # new\<rparr>)"
        using IH [of "ports @ [p]" "s\<lparr>leases := leases s @ [l]\<rparr>"] step after by auto
      then show ?thesis using l p free(1)
        by (intro exI [of _ "l # new"]) (simp add: free_from_step k grants_Cons)
    qed
  qed
qed

text \<open>\<open>leasePorts\<close> in one equation: the lowest free ports, or an error that costs every lease.\<close>

lemma leasePorts_run:
  assumes "0 \<le> count"
  obtains (leased) new where "nat count \<le> length (free_ports (io_config io) (leases s))"
      and "grants rid (take (nat count) (free_ports (io_config io) (leases s))) new"
      and "leasePorts io rid count s =
        (Inr (take (nat count) (free_ports (io_config io) (leases s))), s\<lparr>leases := leases s @ new\<rparr>)"
    | (short) "length (free_ports (io_config io) (leases s)) < nat count"
      and "leasePorts io rid count s =
        (Inl (JsError ''No free runtime ports available''),
         s\<lparr>leases := filter (\<lambda>l. pl_runtimeId l \<noteq> rid) (leases s)\<rparr>)"
proof -
  let ?free = "free_ports (io_config io) (leases s)"
  obtain new where new: "grants rid (take (nat count) ?free) new"
    and run: "lease_loop io rid count (portRangeStart (io_config io)) [] s =
      (Inr (take (nat count) ?free), s\<lparr>leases := leases s @ new\<rparr>)"
    using lease_loop_run [of rid count "[]" s "portRangeStart (io_config io)"]
    by (auto simp: free_ports_def)
  show thesis
  proof (cases "nat count \<le> length ?free")
    case True
    with run assms have "leasePorts io rid count s = (Inr (take (nat count) ?free), s\<lparr>leases := leases s @ new\<rparr>)"
      by (simp add: leasePorts_def bnd_run min_def)
    with True new show thesis by (rule leased)
  next
    case False
    from new have "filter (\<lambda>l. pl_runtimeId l \<noteq> rid) new = []"
      by (auto simp: grants_def list_all_iff filter_empty_conv)
    with False run assms show thesis
      by (intro short) (simp_all add: leasePorts_def bnd_run min_def lease_delete_def pl.delete_rows)
  qed
qed

end

section \<open>The contract of a port allocator\<close>

text \<open>
  \<open>held s r\<close> is the set of ports that \<open>r\<close> holds in the state \<open>s\<close>. A successful call gives
  the asked number of ports nobody held; a failed one takes away all the ports of the caller.
\<close>

locale port_allocator =
  fixes lease :: "'id \<Rightarrow> int \<Rightarrow> ('s, int list) eff"
    and release :: "'id \<Rightarrow> ('s, unit) eff"
    and held :: "'s \<Rightarrow> 'id \<Rightarrow> int set"
    and ok :: "'s \<Rightarrow> bool"
  assumes lease_ok: "ok s \<Longrightarrow> 0 \<le> n \<Longrightarrow> lease r n s = (Inr ps, t) \<Longrightarrow>
      ok t \<and> distinct ps \<and> int (length ps) = n \<and> set ps \<inter> \<Union> (range (held s)) = {} \<and>
      held t = (held s)(r := held s r \<union> set ps)"
    and lease_err: "ok s \<Longrightarrow> 0 \<le> n \<Longrightarrow> lease r n s = (Inl e, t) \<Longrightarrow> ok t \<and> held t = (held s)(r := {})"
    and release_ok: "ok s \<Longrightarrow> \<exists>t. release r s = (Inr (), t) \<and> ok t \<and> held t = (held s)(r := {})"
    and held_disjoint: "ok s \<Longrightarrow> r \<noteq> q \<Longrightarrow> held s r \<inter> held s q = {}"
    and held_finite: "ok s \<Longrightarrow> finite (held s r)"
begin

lemma keeps_ok: "0 \<le> n \<Longrightarrow> keeps ok (lease r n)" "keeps ok (release r)"
  unfolding keeps_def
  using lease_ok lease_err release_ok by (metis sum.exhaust, metis prod.inject)

text \<open>Two successful calls for one holder: it holds the ports of both.\<close>

lemma lease_twice:
  assumes "ok s" and "0 \<le> m" and "0 \<le> n"
    and "lease r m s = (Inr ps, t)" and "lease r n t = (Inr qs, u)"
  shows "int (card (held u r)) = int (card (held s r)) + m + n" and "set ps \<inter> set qs = {}"
    and "set qs \<subseteq> held u r" and "set ps \<subseteq> held u r"
proof -
  note 1 = lease_ok [OF assms(1,2,4)]
  then have "ok t" by simp
  note 2 = lease_ok [OF this assms(3,5)]
  from 1 2 show dis: "set ps \<inter> set qs = {}" by fastforce
  from 1 2 show "set qs \<subseteq> held u r" "set ps \<subseteq> held u r" by auto
  have "held s r \<inter> set ps = {}" using 1 by auto
  moreover have "(held s r \<union> set ps) \<inter> set qs = {}" using 1 2 by fastforce
  moreover have "held u r = (held s r \<union> set ps) \<union> set qs" using 1 2 by simp
  moreover have "card (set ps) = length ps" "card (set qs) = length qs"
    using 1 2 by (simp_all add: distinct_card)
  ultimately show "int (card (held u r)) = int (card (held s r)) + m + n"
    using held_finite [OF \<open>ok s\<close>, of r] 1 2 by (simp add: card_Un_disjoint)
qed

text \<open>After any sequence of calls, the holders hold disjoint sets of ports.\<close>

lemma for_each_disjoint:
  assumes "ok s" and "for_each (\<lambda>(r, n). if 0 < n then bnd (lease r n) (\<lambda>_. ret ()) else release r) calls s = (q, t)"
    and "r \<noteq> r'"
  shows "held t r \<inter> held t r' = {}"
proof (rule held_disjoint [OF _ assms(3)])
  have "keeps ok (for_each (\<lambda>(r, n). if 0 < n then bnd (lease r n) (\<lambda>_. ret ()) else release r) calls)"
    by (auto intro!: keeps_intros keeps_ok)
  then show "ok t" using assms(1,2) by (rule keepsD)
qed

end

definition held_ports :: "'v sys \<Rightarrow> string \<Rightarrow> int set" where
  "held_ports s rid =
     pl_port ` {l \<in> set (leases s). pl_runtimeHostId l = localHostId \<and> pl_runtimeId l = rid}"

lemma held_leased: "p \<in> held_ports s rid \<Longrightarrow> leased (leases s) p"
  by (auto simp: held_ports_def leased_def)

lemma held_ports_leases [simp]: "held_ports (s\<lparr>leases := ls\<rparr>) rid =
    pl_port ` {l \<in> set ls. pl_runtimeHostId l = localHostId \<and> pl_runtimeId l = rid}"
  by (simp add: held_ports_def)

lemma held_ports_drop:
  "held_ports (s\<lparr>leases := filter (\<lambda>l. pl_runtimeId l \<noteq> rid) (leases s)\<rparr>) = (held_ports s)(rid := {})"
  by (auto simp: fun_eq_iff held_ports_def)

lemma held_ports_grant:
  assumes "grants rid ps new"
  shows "held_ports (s\<lparr>leases := leases s @ new\<rparr>) = (held_ports s)(rid := held_ports s rid \<union> set ps)"
proof
  fix r
  have ps: "set ps = pl_port ` set new" using assms by (auto simp: grants_def)
  have new: "{l \<in> set new. pl_runtimeHostId l = localHostId \<and> pl_runtimeId l = r} =
      (if r = rid then set new else {})"
    using assms by (auto simp: grants_def list_all_iff)
  have "{l \<in> set (leases s @ new). P l} = {l \<in> set (leases s). P l} \<union> {l \<in> set new. P l}" for P
    by auto
  then show "held_ports (s\<lparr>leases := leases s @ new\<rparr>) r =
      ((held_ports s)(rid := held_ports s rid \<union> set ps)) r"
    by (simp only: held_ports_leases new ps) (simp add: held_ports_def image_Un)
qed

context database begin

lemma keeps_tables_leases [keeps_intros]: "keeps tables_ok (leasePorts io rid n)"
  "keeps tables_ok (releasePorts io rid)"
proof -
  have "keeps tables_ok (lease_loop io rid n p ps)" for p ps
  proof (induction "nat (portRangeEnd (io_config io) + 1 - p)" arbitrary: p ps)
    case 0
    then show ?case by (subst lease_loop.simps) (auto intro!: keeps_intros)
  next
    case (Suc k)
    then have k: "k = nat (portRangeEnd (io_config io) + 1 - (p + 1))" by simp
    show ?case by (subst lease_loop.simps) (intro keeps_intros Suc.hyps(1) [OF k])
  qed
  then show "keeps tables_ok (leasePorts io rid n)" "keeps tables_ok (releasePorts io rid)"
    by (auto simp: leasePorts_def releasePorts_def intro!: keeps_intros)
qed

end

sublocale database \<subseteq> ports: port_allocator "leasePorts io" "releasePorts io" held_ports tables_ok
proof (unfold_locales, goal_cases)
  case (1 s n r ps t)
  have "tables_ok t" by (rule keepsD [OF keeps_tables_leases(1) 1(1,3)])
  from \<open>0 \<le> n\<close> show ?case
  proof (cases rule: leasePorts_run [where count = n and s = s and rid = r])
    case (leased new)
    let ?free = "free_ports (io_config io) (leases s)"
    from leased(3) 1(3) have ps: "ps = take (nat n) ?free" and t: "t = s\<lparr>leases := leases s @ new\<rparr>" by auto
    have "\<not> leased (leases s) p" if "p \<in> set ps" for p
      using that ps by (auto simp: free_ports_def set_free_from dest!: in_set_takeD)
    then have "set ps \<inter> \<Union> (range (held_ports s)) = {}" by (auto dest: held_leased)
    then show ?thesis
      using \<open>tables_ok t\<close> leased(1) 1(2) held_ports_grant [OF leased(2), of s] unfolding t ps
      by (simp add: free_ports_def)
  qed (use 1(3) in simp)
next
  case (2 s n r e t)
  have "tables_ok t" by (rule keepsD [OF keeps_tables_leases(1) 2(1,3)])
  from \<open>0 \<le> n\<close> show ?case
    by (cases rule: leasePorts_run [where count = n and s = s and rid = r])
      (use 2 \<open>tables_ok t\<close> held_ports_drop [of r s] in auto)
next
  case (3 s r)
  have run: "releasePorts io r s = (Inr (), s\<lparr>leases := filter (\<lambda>l. pl_runtimeId l \<noteq> r) (leases s)\<rparr>)"
    by (simp add: releasePorts_def lease_delete_def pl.delete_rows)
  from keepsD [OF keeps_tables_leases(2) 3 run] show ?case
    using run held_ports_drop by blast
next
  case (4 s r q)
  have "pl_runtimeId a = pl_runtimeId b"
    if "a \<in> set (leases s)" "b \<in> set (leases s)" "pl_runtimeHostId a = pl_runtimeHostId b"
      "pl_port a = pl_port b" for a b
    using pl.row_by_clash [OF tables_okD(2) [OF 4(1)], of a b] that by (simp add: lease_clash_def)
  note same = this
  have False if "p \<in> held_ports s r" and "p \<in> held_ports s q" for p
  proof -
    from that obtain a b where "a \<in> set (leases s)" "b \<in> set (leases s)"
      "pl_runtimeHostId a = localHostId" "pl_runtimeHostId b = localHostId"
      "pl_port a = p" "pl_port b = p" "pl_runtimeId a = r" "pl_runtimeId b = q"
      by (auto simp: held_ports_def)
    with same [of a b] 4(2) show False by simp
  qed
  then show ?case by blast
next
  case (5 s r)
  then show ?case by (simp add: held_ports_def)
qed

interpretation mem_ports: port_allocator "leasePorts (mem_io cfg ad now slp hex b64 sha)"
  "releasePorts (mem_io cfg ad now slp hex b64 sha)" held_ports tables_ok
  by (rule mem.ports.port_allocator_axioms)

section \<open>Lemmas on the other operations\<close>

context database begin

lemma runtime_find_unique:
  assumes "tables_ok s" and "\<And>a b. p a \<Longrightarrow> p b \<Longrightarrow> rt_id a = rt_id b \<or> runtime_clash a b"
  shows "runtime_findOne io p s = (Inr (find p (runtimes s)), s)"
proof (cases "find p (runtimes s)")
  case None
  then have "findOne (runtimeRepo io) p (runtimes s) = None"
    by (simp add: rt.findOne_None find_None_set)
  with None show ?thesis by (simp add: runtime_findOne_def)
next
  case (Some r)
  then have r: "r \<in> set (runtimes s)" "p r" by (simp_all add: find_Some_set)
  have "findOne (runtimeRepo io) p (runtimes s) = Some r"
  proof (rule rt.findOne_unique [of _ _ p, OF r])
    fix x assume x: "x \<in> set (runtimes s)" "p x"
    from assms(2) [OF x(2) r(2)] show "x = r"
      using rt.row_by_key [OF tables_okD(1) [OF assms(1)] x(1) r(1)]
        rt.row_by_clash [OF tables_okD(1) [OF assms(1)] x(1) r(1)] by blast
  qed
  with Some show ?thesis by (simp add: runtime_findOne_def)
qed

lemma deleteRuntime_run:
  "deleteRuntime io r s = (Inr (), s
     \<lparr>runtimes := filter (\<lambda>x. rt_id x \<noteq> rt_id r) (runtimes s),
      leases := filter (\<lambda>l. pl_runtimeId l \<noteq> rt_id r) (leases s),
      previews := filter (\<lambda>t. sp_sandboxId t \<noteq> rt_sandboxId r) (previews s)\<rparr>)"
  by (simp add: deleteRuntime_def bnd_run runtime_delete_def lease_delete_def preview_delete_def
      rt.delete_rows pl.delete_rows sp.delete_rows)

lemma others_by_id:
  assumes "tables_ok s" and "r \<in> set (runtimes s)"
  shows "set (filter (\<lambda>x. rt_id x \<noteq> rt_id r) (runtimes s)) = set (runtimes s) - {r}"
  using rt.row_by_key [OF tables_okD(1) [OF assms(1)] _ assms(2)] by auto

lemma released_free:
  assumes "tables_ok s" and "p \<in> held_ports s rid"
  shows "\<not> leased (filter (\<lambda>l. pl_runtimeId l \<noteq> rid) (leases s)) p"
proof
  assume "leased (filter (\<lambda>l. pl_runtimeId l \<noteq> rid) (leases s)) p"
  then obtain a where a: "a \<in> set (leases s)" "pl_runtimeId a \<noteq> rid" "pl_runtimeHostId a = localHostId" "pl_port a = p"
    by (auto simp: leased_def)
  from assms(2) obtain b where b: "b \<in> set (leases s)" "pl_runtimeId b = rid" "pl_runtimeHostId b = localHostId" "pl_port b = p"
    by (auto simp: held_ports_def)
  from a b have "lease_clash a b" by (simp add: lease_clash_def)
  from pl.row_by_clash [OF tables_okD(2) [OF assms(1)] a(1) b(1) this] a(2) b(2) show False by simp
qed

lemma preview_find_unique:
  assumes "tables_ok s"
  shows "preview_findOne io (\<lambda>t. sp_token t = k \<and> sp_port t = p) s =
    (Inr (find (\<lambda>t. sp_token t = k \<and> sp_port t = p) (previews s)), s)"
proof (cases "find (\<lambda>t. sp_token t = k \<and> sp_port t = p) (previews s)")
  case None
  then have "findOne (signedPreviewRepo io) (\<lambda>t. sp_token t = k \<and> sp_port t = p) (previews s) = None"
    by (simp add: sp.findOne_None find_None_set)
  with None show ?thesis by (simp add: preview_findOne_def)
next
  case (Some r)
  note r = find_Some_set [OF Some]
  have "findOne (signedPreviewRepo io) (\<lambda>t. sp_token t = k \<and> sp_port t = p) (previews s) = Some r"
  proof (rule sp.findOne_unique)
    fix x assume x: "x \<in> set (previews s)" "sp_token x = k \<and> sp_port x = p"
    with r have "preview_clash x r" by (simp add: preview_clash_def)
    with r x show "x = r"
      using sp.row_by_clash [OF tables_okD(4) [OF assms], of x r] by blast
  qed (use r in simp_all)
  with Some show ?thesis by (simp add: preview_findOne_def)
qed

lemma createSignedPreviewToken_run:
  assumes run: "createSignedPreviewToken io sid p ttl s = (Inr rec, t)"
  obtains v v' now where "io_randomBase64url io 24 (ext s) = (sp_token rec, v)"
    and "io_now io v = (now, v')" and "sp_sandboxId rec = sid" and "sp_port rec = p"
    and "sp_expiresAt rec = now + ttl * 1000"
    and "t = s\<lparr>previews := filter (\<lambda>x. \<not> (sp_sandboxId x = sid \<and> sp_port x = p)) (previews s) @ [rec],
               ext := v'\<rparr>"
proof -
  let ?old = "filter (\<lambda>x. \<not> (sp_sandboxId x = sid \<and> sp_port x = p)) (previews s)"
  obtain k v where k: "io_randomBase64url io 24 (ext s) = (k, v)" by fastforce
  obtain now v' where now: "io_now io v = (now, v')" by fastforce
  let ?row = "\<lparr>sp_id = [], sp_token = k, sp_sandboxId = sid, sp_port = p,
     sp_expiresAt = now + ttl * 1000, sp_createdAt = 0\<rparr>"
  have del: "deleteRows (signedPreviewRepo io) q (previews s) = filter (\<lambda>x. \<not> q x) (previews s)" for q
    by (simp add: sp.delete_rows)
  have "preview_insert io ?row (s\<lparr>previews := ?old, ext := v'\<rparr>) = (Inr rec, t)"
    using run k now
    by (simp add: createSignedPreviewToken_def bnd_run preview_delete_def del outside_pure_def dateNow_def)
  then obtain u where u: "insertRow (signedPreviewRepo io) ?row ?old = (Inr rec, u)"
    and t: "t = s\<lparr>previews := u, ext := v'\<rparr>"
    by (auto simp: preview_insert_def split: prod.splits)
  then obtain i c where "rec = preview_stamp i c ?row" "u = ?old @ [rec]"
    by (cases rule: sp.insert_cases [of ?old ?row]) auto
  with k now t show thesis by (intro that [of v now v']) (simp_all add: preview_stamp_def)
qed

lemma allocator: "port_allocator (leasePorts io) (releasePorts io) held_ports tables_ok"
  by (rule ports.port_allocator_axioms)

lemma keeps_tables_registry [keeps_intros]:
  "keeps tables_ok (deleteRuntime io r)" "keeps tables_ok (updateRuntime io r f)"
  "keeps tables_ok (saveRuntime io r)" "keeps tables_ok (findRuntimeBySandboxId io x)"
  "keeps tables_ok (findRuntimeBySandboxIdOrName io x)" "keeps tables_ok (setRuntimeStatus io r st rs)"
  "keeps tables_ok (createSandboxId io sd)" "keeps tables_ok (listRuntimes io)"
  "keeps tables_ok (findVolumeByIdOrName io x)" "keeps tables_ok (saveVolume io w)"
  "keeps tables_ok (reg_deleteVolume io w)" "keeps tables_ok (reg_listVolumes io)"
  "keeps tables_ok (createSignedPreviewToken io x n ttl)" "keeps tables_ok (getSignedPreviewToken io x n)"
  "keeps tables_ok (expireSignedPreviewToken io x n)" "keeps tables_ok (hasSignedPreviewTokenExpired io rec)"
  "keeps tables_ok (ensureLocalHost io)"
  unfolding deleteRuntime_def updateRuntime_def saveRuntime_def findRuntimeBySandboxId_def
    findRuntimeBySandboxIdOrName_def setRuntimeStatus_def createSandboxId_def listRuntimes_def
    findVolumeByIdOrName_def saveVolume_def reg_deleteVolume_def reg_listVolumes_def
    createSignedPreviewToken_def getSignedPreviewToken_def expireSignedPreviewToken_def
    hasSignedPreviewTokenExpired_def ensureLocalHost_def
  by (intro keeps_intros)+

end

section \<open>Properties\<close>

text \<open>C5: leasing ports is all or nothing. With enough free ports in the configured range the
  call returns the lowest \<open>count\<close> of them and adds exactly one lease of the runtime for each;
  otherwise it throws, and then every lease of the runtime is gone, older ones included.\<close>

theorem leasePorts_spec:
  assumes "database io" and "0 \<le> count"
  shows "\<exists>new. leasePorts io rid count s =
     (let free = free_ports (io_config io) (leases s) in
      if nat count \<le> length free
      then (Inr (take (nat count) free), s\<lparr>leases := leases s @ new\<rparr>)
      else (Inl (JsError ''No free runtime ports available''),
            s\<lparr>leases := filter (\<lambda>l. pl_runtimeId l \<noteq> rid) (leases s)\<rparr>)) \<and>
     grants rid (if nat count \<le> length (free_ports (io_config io) (leases s))
                 then take (nat count) (free_ports (io_config io) (leases s)) else []) new"
  using assms(2)
  by (cases rule: database.leasePorts_run [OF assms(1), of count s rid])
    (auto simp: Let_def grants_def intro: exI [of _ "[]"])

theorem leasePorts_spec_witness:
  "\<exists>new. leasePorts (demo_io (range_config 5 7)) ''r'' 2 sys0 =
     (Inr [5, 6], sys0\<lparr>leases := new\<rparr>) \<and> grants ''r'' [5, 6] new"
proof -
  have free: "free_ports (range_config 5 7) (leases sys0) = [5, 6, 7]"
    by (simp add: free_ports_def free_from_def sys0_def leased_def upto_rec1)
  from leasePorts_spec [of "demo_io (range_config 5 7)" 2 "''r''" sys0]
  show ?thesis by (simp add: free) (simp add: sys0_def)
qed

text \<open>Whatever sequence of leasing and releasing calls runs, two different runtimes never
  hold the same port of the local host.\<close>

theorem leases_disjoint:
  assumes "database io" and "tables_ok s" and "rid \<noteq> rid'"
    and "for_each (\<lambda>(r, n). if 0 < n then bnd (leasePorts io r n) (\<lambda>_. ret ())
           else releasePorts io r) calls s = (q, t)"
  shows "held_ports t rid \<inter> held_ports t rid' = {}"
  by (rule port_allocator.for_each_disjoint [OF database.allocator [OF assms(1)] assms(2,4,3)])

text \<open>Two calls for \<open>a\<close> around one for \<open>b\<close>, then \<open>a\<close> releases.\<close>

theorem leases_disjoint_witness:
  "let t = snd (for_each (\<lambda>(r, n). if 0 < n then bnd (leasePorts (demo_io (range_config 5 9)) r n) (\<lambda>_. ret ())
           else releasePorts (demo_io (range_config 5 9)) r)
         [(''a'', 1), (''b'', 2), (''a'', 1), (''a'', 0)] sys0)
   in held_ports t ''a'' \<inter> held_ports t ''b'' = {}"
  unfolding Let_def
  by (rule leases_disjoint [OF demo_database tables_ok_sys0 _ prod.collapse [symmetric]]) simp

text \<open>Looking a sandbox up by its id normalises the argument and then finds exactly the row
  with that id, in whatever order the database keeps its rows.\<close>

theorem findRuntimeBySandboxId_spec:
  assumes "database io" and "tables_ok s"
  shows "findRuntimeBySandboxId io x s =
    (case normalizeSandboxId x of
       Inl e \<Rightarrow> (Inl e, s)
     | Inr n \<Rightarrow> (Inr (find (\<lambda>r. rt_sandboxId r = n) (runtimes s)), s))"
proof (cases "normalizeSandboxId x")
  case (Inr n)
  have "runtime_findOne io (\<lambda>r. rt_sandboxId r = n) s =
      (Inr (find (\<lambda>r. rt_sandboxId r = n) (runtimes s)), s)"
    by (rule database.runtime_find_unique [OF assms]) (simp add: runtime_clash_def)
  with Inr show ?thesis by (simp add: findRuntimeBySandboxId_def bnd_run)
qed (simp add: findRuntimeBySandboxId_def bnd_run)

theorem findRuntimeBySandboxId_spec_witness:
  "findRuntimeBySandboxId (demo_io empty_config) ''My Box!'' sys0 = (Inr None, sys0)"
proof -
  have "normalizeSandboxId ''My Box!'' = Inr ''my-box''" by code_simp
  then show ?thesis
    using findRuntimeBySandboxId_spec [OF demo_database tables_ok_sys0, of empty_config "''My Box!''"]
    by (simp add: sys0_def)
qed

text \<open>C36: deleting a runtime removes its row, its leases and the preview tokens of its sandbox, and
  nothing else: the rows, leases and tokens of every other runtime, the hosts, the volumes, the
  revoked tokens, the SSH sessions and the outside world are as before. Every port it held that
  is in the range can be leased again.\<close>

theorem deleteRuntime_clean:
  assumes "database io" and "tables_ok s" and "r \<in> set (runtimes s)"
  shows "\<exists>t. deleteRuntime io r s = (Inr (), t) \<and>
    set (runtimes t) = set (runtimes s) - {r} \<and>
    set (leases t) = {l \<in> set (leases s). pl_runtimeId l \<noteq> rt_id r} \<and>
    held_ports t = (held_ports s)(rt_id r := {}) \<and>
    (\<forall>p \<in> held_ports s (rt_id r). p \<in> {portRangeStart (io_config io)..portRangeEnd (io_config io)}
       \<longrightarrow> p \<in> set (free_ports (io_config io) (leases t))) \<and>
    set (previews t) = {k \<in> set (previews s). sp_sandboxId k \<noteq> rt_sandboxId r} \<and>
    hosts t = hosts s \<and> volumes t = volumes s \<and> revoked t = revoked s \<and> sessions t = sessions s \<and>
    ext t = ext s"
proof -
  note run = database.deleteRuntime_run [OF assms(1), of r s]
  have "held_ports (snd (deleteRuntime io r s)) = (held_ports s)(rt_id r := {})"
    using held_ports_drop [of "rt_id r" s] by (simp add: run fun_eq_iff held_ports_def)
  with run show ?thesis
    using database.others_by_id [OF assms] database.released_free [OF assms(1,2), of _ "rt_id r"]
    by (auto simp: free_ports_def set_free_from)
qed

text \<open>A runtime with one lease, among others.\<close>

definition demo_runtime :: runtimeEntity where
  "demo_runtime =
     \<lparr>rt_id = ''r1'', rt_sandboxId = ''box'', rt_name = None, rt_sandboxName = ''runtime-box'',
      rt_runtimeHostId = localHostId,
      rt_portBindings = [\<lparr>pb_name = None, pb_containerPort = 8080, pb_hostPort = 5,
        pb_protocol = Tcp, pb_nameLast = False\<rparr>],
      rt_primaryPort = 8080, rt_hostPort = 5, rt_primaryPortProtocol = Tcp, rt_public = False,
      rt_authToken = ''secret'', rt_status = Running, rt_image = ''nginx'', rt_command = None,
      rt_environment = None, rt_secrets = None, rt_workingDir = None, rt_mounts = None,
      rt_cpu = 1, rt_memoryMiB = 128, rt_diskGiB = 1, rt_autoStopMinutes = None,
      rt_ephemeral = False, rt_lastActiveAt = None, rt_statusReason = None, rt_createdAt = 0,
      rt_updatedAt = 0\<rparr>"

definition demo_sys :: "world sys" where
  "demo_sys = sys0\<lparr>runtimes := [demo_runtime],
     leases := [\<lparr>pl_id = ''l1'', pl_runtimeHostId = localHostId, pl_port = 5,
                 pl_runtimeId = ''r1'', pl_leasedAt = 0\<rparr>]\<rparr>"

lemma tables_ok_demo [simp]: "tables_ok demo_sys"
  by (simp add: demo_sys_def sys0_def tables_ok_def table_ok_def)

lemma demo_runtime_in [simp]: "demo_runtime \<in> set (runtimes demo_sys)"
  by (simp add: demo_sys_def)

theorem deleteRuntime_clean_witness:
  "\<exists>t. deleteRuntime (demo_io (range_config 5 9)) demo_runtime demo_sys = (Inr (), t) \<and>
     runtimes t = [] \<and> 5 \<in> set (free_ports (range_config 5 9) (leases t))"
  using deleteRuntime_clean [OF demo_database tables_ok_demo demo_runtime_in, of "range_config 5 9"]
  by (auto simp: demo_sys_def demo_runtime_def held_ports_def)

text \<open>C37: a new signed preview token is the only one of its sandbox and port, the look-up by
  token and port returns it, and it expires \<open>ttl\<close> seconds after the clock reading that was
  taken when it was made.\<close>

theorem createSignedPreviewToken_spec:
  assumes "database io" and "tables_ok s"
    and "createSignedPreviewToken io sid p ttl s = (Inr rec, t)"
  shows "filter (\<lambda>k. sp_sandboxId k = sid \<and> sp_port k = p) (previews t) = [rec] \<and>
    getSignedPreviewToken io (sp_token rec) p t = (Inr (Some rec), t) \<and>
    (\<exists>v v' now. io_now io v = (now, v') \<and> sp_expiresAt rec = now + 1000 * ttl) \<and>
    (\<forall>k \<in> set (previews s). sp_sandboxId k = sid \<and> sp_port k = p \<or> k \<in> set (previews t))"
proof -
  obtain v v' now where now: "io_now io v = (now, v')" and rec: "sp_sandboxId rec = sid" "sp_port rec = p"
    and exp: "sp_expiresAt rec = now + ttl * 1000"
    and t: "t = s\<lparr>previews := filter (\<lambda>x. \<not> (sp_sandboxId x = sid \<and> sp_port x = p)) (previews s) @ [rec],
               ext := v'\<rparr>"
    by (rule database.createSignedPreviewToken_run [OF assms(1,3)])
  have ok: "tables_ok t"
    by (rule keepsD [OF database.keeps_tables_registry(13) [OF assms(1)] assms(2,3)])
  have "\<not> (sp_token x = sp_token rec \<and> sp_port x = p)"
    if "x \<in> set (previews s)" "\<not> (sp_sandboxId x = sid \<and> sp_port x = p)" for x
    using tables_okD(4) [OF ok] that rec
    by (auto simp: t table_ok_def sorted_wrt_append preview_clash_def)
  then have "find (\<lambda>k. sp_token k = sp_token rec \<and> sp_port k = p)
      (filter (\<lambda>x. \<not> (sp_sandboxId x = sid \<and> sp_port x = p)) (previews s)) = None"
    by (auto simp: find_None_set)
  then have "find (\<lambda>k. sp_token k = sp_token rec \<and> sp_port k = p) (previews t) = Some rec"
    using rec by (simp add: t find_append)
  then have "getSignedPreviewToken io (sp_token rec) p t = (Inr (Some rec), t)"
    by (simp add: getSignedPreviewToken_def database.preview_find_unique [OF assms(1) ok])
  moreover have "filter (\<lambda>k. sp_sandboxId k = sid \<and> sp_port k = p) (previews t) = [rec]"
    using rec by (simp add: t)
  ultimately show ?thesis using now exp by (auto simp: t)
qed

theorem createSignedPreviewToken_spec_witness:
  "\<exists>rec t. createSignedPreviewToken (demo_io empty_config) ''box'' 8080 600 demo_sys = (Inr rec, t) \<and>
     filter (\<lambda>k. sp_sandboxId k = ''box'' \<and> sp_port k = 8080) (previews t) = [rec]"
proof -
  have "\<exists>rec t. createSignedPreviewToken (demo_io empty_config) ''box'' 8080 600 demo_sys = (Inr rec, t)"
    by (simp add: createSignedPreviewToken_def bnd_run preview_delete_def preview_insert_def
        outside_pure_def dateNow_def demo_io_def mem_io_def preview_table_def mem_repo_def
        mem_insert_def demo_sys_def sys0_def Let_def split_beta)
  then show ?thesis
    using createSignedPreviewToken_spec [OF demo_database tables_ok_demo] by blast
qed

text \<open>A status summary tells nothing about a sandbox's secrets but whether there are any, and
  nothing about its preview token.\<close>

theorem summary_hides_secrets:
  "runtimeStatusSummary (r\<lparr>rt_authToken := k, rt_secrets := x\<rparr>) =
   runtimeStatusSummary (r\<lparr>rt_authToken := k', rt_secrets := y\<rparr>) \<longleftrightarrow>
   (or_nil x = [] \<longleftrightarrow> or_nil y = [])"
  by (auto simp: runtimeStatusSummary_def Let_def)

text \<open>Comparing the JSON texts of two mount lists decides whether they are equal; for port
  bindings it also compares the position of the name among the properties, so two bindings with
  the same four values can count as different.\<close>

theorem comparisons_decide:
  "(mountRecordsEqual ms ms' \<longleftrightarrow> or_nil ms = ms') \<and>
   (portBindingsEqual bs bs' \<longleftrightarrow> list_all2 same_binding (or_nil bs) bs')"
proof -
  have "map portBinding_json as = map portBinding_json bs' \<longleftrightarrow> list_all2 same_binding as bs'" for as
    by (simp add: list_all2_map1 list_all2_map2 flip: list.rel_eq)
      (simp add: list.rel_map portBinding_json_eq)
  then show ?thesis
    by (simp add: mountRecordsEqual_def portBindingsEqual_def json_equal_map inj_map_eq)
qed

text \<open>Registering the local host leaves exactly one row with the key \<open>local\<close>, which carries
  the configured name and URLs and is enabled, and no other host row changes.\<close>

theorem ensureLocalHost_spec:
  assumes "database io" and "tables_ok s"
  shows "\<exists>h t. ensureLocalHost io s = (Inr h, t) \<and>
    filter (\<lambda>x. rh_id x = localHostId) (hosts t) = [h] \<and>
    rh_name h = runtimeHostName (io_config io) \<and> rh_baseUrl h = runtimeHostBaseUrl (io_config io) \<and>
    rh_publicBaseUrl h = runtimeHostPublicBaseUrl (io_config io) \<and> rh_enabled h \<and>
    filter (\<lambda>x. rh_id x \<noteq> localHostId) (hosts t) = filter (\<lambda>x. rh_id x \<noteq> localHostId) (hosts s)"
proof -
  obtain now v where now: "io_now io (ext s) = (now, v)" by fastforce
  define base where "base = \<lparr>rh_id = localHostId, rh_name = runtimeHostName (io_config io),
                 rh_baseUrl = runtimeHostBaseUrl (io_config io),
                 rh_publicBaseUrl = runtimeHostPublicBaseUrl (io_config io),
                 rh_enabled = True, rh_lastSeenAt = Some now\<rparr>"
  have sel: "rh_id base = localHostId" "rh_name base = runtimeHostName (io_config io)"
    "rh_baseUrl base = runtimeHostBaseUrl (io_config io)" "rh_enabled base"
    "rh_publicBaseUrl base = runtimeHostPublicBaseUrl (io_config io)"
    by (simp_all add: base_def)
  have upd: "h\<lparr>rh_id := i, rh_name := n, rh_baseUrl := u, rh_publicBaseUrl := p, rh_enabled := e,
      rh_lastSeenAt := l\<rparr> = \<lparr>rh_id = i, rh_name = n, rh_baseUrl = u, rh_publicBaseUrl = p,
      rh_enabled = e, rh_lastSeenAt = l\<rparr>" for h :: runtimeHost and i n u p e l
    by (cases h) simp
  have run: "ensureLocalHost io s = host_save io base (s\<lparr>ext := v\<rparr>)"
    using now unfolding ensureLocalHost_def base_def
    by (simp add: bnd_run host_findOne_def dateNow_def outside_pure_def Let_def upd split: option.splits)
  have dist: "distinct (map rh_id (hosts s))"
    using tables_okD(6) [OF assms(2)] by (simp add: table_ok_def)
  have repo: "repository (hostRepo io) rh_id host_clash host_stamp no_touch"
    by (rule database.host_repo [OF assms(1)])
  show ?thesis
  proof (cases rule: repository.save_cases [OF repo, of "hosts s" base, case_names ok absent clash])
    case (ok c)
    then have "host_save io base (s\<lparr>ext := v\<rparr>) =
        (Inr base, s\<lparr>ext := v, hosts := replace_row rh_id base (hosts s)\<rparr>)"
      by (simp add: host_save_def no_touch_def)
    moreover have "filter (\<lambda>x. rh_id x = localHostId) (replace_row rh_id base (hosts s)) = [base]"
      using filter_replace_row [OF dist ok(2)] sel by simp
    moreover have "filter (\<lambda>x. rh_id x \<noteq> localHostId) (replace_row rh_id base (hosts s)) =
        filter (\<lambda>x. rh_id x \<noteq> localHostId) (hosts s)"
      using filter_replace_others [of rh_id base "hosts s"] sel by simp
    ultimately show ?thesis using run sel by auto
  next
    case (absent c)
    then have "host_save io base (s\<lparr>ext := v\<rparr>) = (Inr base, s\<lparr>ext := v, hosts := hosts s @ [base]\<rparr>)"
      by (simp add: host_save_def no_touch_def)
    moreover have "filter (\<lambda>x. rh_id x = localHostId) (hosts s) = []"
      using absent(2) sel by (force simp: filter_empty_conv)
    ultimately show ?thesis using run sel by simp
  next
    case (clash e)
    then show ?thesis by (auto simp: host_clash_def)
  qed
qed

theorem ensureLocalHost_spec_witness:
  "\<exists>h t. ensureLocalHost (demo_io empty_config) demo_sys = (Inr h, t) \<and>
    filter (\<lambda>x. rh_id x = localHostId) (hosts t) = [h] \<and> rh_name h = ''local''"
  using ensureLocalHost_spec [OF demo_database tables_ok_demo, of empty_config]
  by (auto simp: runtimeHostName_def)

end
