(* ===== verification/Control_Spec.thy ===== *)
theory Control_Spec
  imports Registry
begin

text \<open>
  The request bodies (runtime-control/dto/*.ts, ssh/dto/ssh-config.dto.ts) and the part of
  \<open>RuntimeControlService\<close> (runtime-control/runtime-control.service.ts) that turns a request into
  a runtime specification and decides whether an existing runtime has to be replaced:
  \<open>buildSpec\<close>, \<open>buildUpdateInput\<close>, \<open>resolvePorts\<close>, \<open>resolveVolumes\<close>, \<open>requiresRecreate\<close> and their
  helpers. An absent property and a property that is null are both \<open>None\<close>.
\<close>

section \<open>Request bodies\<close>

record secretDto =
  sd_env :: string
  sd_value :: string
  sd_placeholder :: "string option"
  sd_allowedHosts :: "string list option"
  sd_allowedHostPatterns :: "string list option"
  sd_allowAnyHostDangerous :: "bool option"
  sd_requireTlsIdentity :: "bool option"
  sd_injectHeaders :: "bool option"
  sd_injectBasicAuth :: "bool option"
  sd_injectQuery :: "bool option"
  sd_injectBody :: "bool option"

record portDto =
  pd_name :: "string option"
  pd_containerPort :: int
  pd_protocol :: "protocol option"

record resourcesDto =
  rd_cpu :: "int option"
  rd_memoryMiB :: "int option"
  rd_diskGiB :: "int option"

record volumeMountDto =
  vd_volumeId :: string
  vd_mountPath :: string
  vd_subpath :: "string option"
  vd_readOnly :: "bool option"

text \<open>\<open>SshConfigDto\<close>\<close>

record sshConfigDto =
  ss_enabled :: "bool option"

record sandboxSpecDto =
  in_name :: "string option"
  in_image :: "string option"
  in_command :: "string list option"
  in_env :: "(string \<times> string) list option"
  in_files :: "runtimeFile list option"
  in_secrets :: "secretDto list option"
  in_workingDir :: "string option"
  in_primaryPort :: "portDto option"
  in_ports :: "portDto list option"
  in_resources :: "resourcesDto option"
  in_volumes :: "volumeMountDto list option"
  in_registryAuth :: "registryAuth option"
  in_public :: "bool option"
  in_autoStopMinutes :: "int option"
  in_ephemeral :: "bool option"
  in_ssh :: "sshConfigDto option"

record updateSandboxDto = sandboxSpecDto +
  up_forceRecreate :: "bool option"
  up_refreshActivity :: "bool option"

record ensureRuntimeDto = sandboxSpecDto +
  en_sandboxId :: "string option"
  en_forceRecreate :: "bool option"
  en_refreshActivity :: "bool option"

text \<open>
  What the decorators of the fields demand beyond their types: the \<open>Min\<close> of each number. The
  framework checks it before a method runs.
\<close>

definition at_least :: "int \<Rightarrow> int option \<Rightarrow> bool" where
  "at_least n v = (case v of None \<Rightarrow> True | Some k \<Rightarrow> n \<le> k)"

definition valid_port :: "portDto \<Rightarrow> bool" where
  "valid_port d \<longleftrightarrow> 1 \<le> pd_containerPort d"

definition valid_resources :: "resourcesDto \<Rightarrow> bool" where
  "valid_resources d \<longleftrightarrow> at_least 1 (rd_cpu d) \<and> at_least 128 (rd_memoryMiB d) \<and> at_least 1 (rd_diskGiB d)"

definition valid_spec :: "'x sandboxSpecDto_scheme \<Rightarrow> bool" where
  "valid_spec d \<longleftrightarrow>
     (case in_primaryPort d of None \<Rightarrow> True | Some q \<Rightarrow> valid_port q) \<and>
     list_all valid_port (or_nil (in_ports d)) \<and>
     (case in_resources d of None \<Rightarrow> True | Some q \<Rightarrow> valid_resources q) \<and>
     at_least 0 (in_autoStopMinutes d)"

section \<open>The specification of a runtime\<close>

record resourceSpec =
  re_cpu :: int
  re_memoryMiB :: int
  re_diskGiB :: int

record runtimeSpec =
  rs_image :: string
  rs_registryAuth :: "registryAuth option"
  rs_command :: "string list option"
  rs_env :: "(string \<times> string) list"
  rs_files :: "runtimeFile list"
  rs_secrets :: "secretRecord list"
  rs_workingDir :: "string option"
  rs_ports :: "portBinding list"
  rs_mounts :: "mountRecord list"
  rs_mountInputs :: "mountInput list"
  rs_resources :: resourceSpec
  rs_public :: bool
  rs_autoStopMinutes :: "int option"
  rs_ephemeral :: bool
  rs_ssh :: "bool option"

text \<open>\<open>x ?? d\<close>, and \<open>x ?? y\<close> where \<open>y\<close> may itself be absent.\<close>

definition or_else :: "'a option \<Rightarrow> 'a \<Rightarrow> 'a" where
  "or_else x d = (case x of None \<Rightarrow> d | Some v \<Rightarrow> v)"

definition or_opt :: "'a option \<Rightarrow> 'a option \<Rightarrow> 'a option" where
  "or_opt x y = (case x of None \<Rightarrow> y | Some v \<Rightarrow> Some v)"

lemma or_simps [simp]:
  "or_else None d = d" "or_else (Some v) d = v" "or_opt None y = y" "or_opt (Some v) y = Some v"
  "or_nil None = []" "or_nil (Some xs) = xs"
  by (simp_all add: or_else_def or_opt_def or_nil_def)

definition buildRuntimeFiles :: "runtimeFile list \<Rightarrow> runtimeFile list" where
  "buildRuntimeFiles files = map (\<lambda>f. \<lparr>rf_path = rf_path f, rf_content = rf_content f\<rparr>) files"

definition buildRuntimeSecrets :: "secretDto list \<Rightarrow> secretRecord list" where
  "buildRuntimeSecrets secrets = map (\<lambda>d.
     \<lparr>sr_env = sd_env d, sr_value = sd_value d, sr_placeholder = sd_placeholder d,
      sr_allowedHosts = or_nil (sd_allowedHosts d),
      sr_allowedHostPatterns = or_nil (sd_allowedHostPatterns d),
      sr_allowAnyHostDangerous = sd_allowAnyHostDangerous d,
      sr_requireTlsIdentity = sd_requireTlsIdentity d, sr_injectHeaders = sd_injectHeaders d,
      sr_injectBasicAuth = sd_injectBasicAuth d, sr_injectQuery = sd_injectQuery d,
      sr_injectBody = sd_injectBody d\<rparr>) secrets"

definition resolvePorts :: "config \<Rightarrow> portDto list option \<Rightarrow> portDto option \<Rightarrow> portBinding list" where
  "resolvePorts cfg ports primaryPort =
     map (\<lambda>e. \<lparr>pb_name = opt_trim (pd_name e), pb_containerPort = pd_containerPort e,
               pb_hostPort = 0, pb_protocol = or_else (pd_protocol e) Tcp, pb_nameLast = False\<rparr>)
       (if or_nil ports \<noteq> [] then or_nil ports
        else [\<lparr>pd_name = (case primaryPort of None \<Rightarrow> None | Some q \<Rightarrow> pd_name q),
               pd_containerPort = or_else (map_option pd_containerPort primaryPort) (defaultExposedPort cfg),
               pd_protocol = Some (or_else (case primaryPort of None \<Rightarrow> None | Some q \<Rightarrow> pd_protocol q) Tcp)\<rparr>])"

definition normalizeRegistryAuth :: "registryAuth option \<Rightarrow> registryAuth option" where
  "normalizeRegistryAuth input =
     (case input of
        None \<Rightarrow> None
      | Some a \<Rightarrow>
          (let server = trim (ra_server a); username = trim (ra_username a); password = ra_password a
           in if server = [] \<or> username = [] \<or> password = [] then None
              else Some \<lparr>ra_server = server, ra_username = username, ra_password = password\<rparr>))"

definition requireVolume :: "'v io \<Rightarrow> string \<Rightarrow> ('v sys, volumeEntity) eff" where
  "requireVolume io volumeIdOrName =
     bnd (findVolumeByIdOrName io volumeIdOrName) (\<lambda>volume.
     case volume of
       None \<Rightarrow> throw (NotFoundException (''Volume not found: '' @ volumeIdOrName))
     | Some v \<Rightarrow> ret v)"

definition subpath_message :: string where
  "subpath_message =
     ''Volume subpath mounts are not supported with native Microsandbox named volumes. Mount the whole volume and manage subdirectories inside the guest path.''"

text \<open>The loop of \<open>resolveVolumes\<close>.\<close>

fun resolveVolumes :: "'v io \<Rightarrow> volumeMountDto list \<Rightarrow> ('v sys, mountRecord list \<times> mountInput list) eff" where
  "resolveVolumes io [] = ret ([], [])"
| "resolveVolumes io (m # ms) =
     bnd (requireVolume io (vd_volumeId m)) (\<lambda>volume.
     if opt_trim (vd_subpath m) \<noteq> None then throw (BadRequestException subpath_message)
     else bnd (resolveVolumes io ms) (\<lambda>(records, inputs).
       ret (\<lparr>mr_volumeId = vo_id volume, mr_volumeName = vo_name volume,
             mr_mountPath = vd_mountPath m, mr_subpath = None,
             mr_readOnly = Some (vd_readOnly m = Some True)\<rparr> # records,
            \<lparr>mi_volumeName = vo_backendName volume, mi_mountPath = vd_mountPath m,
             mi_readOnly = Some (vd_readOnly m = Some True)\<rparr> # inputs)))"

text \<open>The binding that \<open>buildSpec\<close> pushes: its object literal has \<open>name\<close> as the last property.\<close>

definition ssh_binding :: portBinding where
  "ssh_binding = \<lparr>pb_name = Some ''ssh'', pb_containerPort = 22, pb_hostPort = 0,
     pb_protocol = Tcp, pb_nameLast = True\<rparr>"

definition buildSpec :: "'v io \<Rightarrow> 'x sandboxSpecDto_scheme \<Rightarrow> ('v sys, runtimeSpec) eff" where
  "buildSpec io input =
     (let cfg = io_config io;
          files = buildRuntimeFiles (or_nil (in_files input));
          secrets = buildRuntimeSecrets (or_nil (in_secrets input));
          ports = resolvePorts cfg (in_ports input) (in_primaryPort input);
          res = in_resources input;
          resources =
            \<lparr>re_cpu = or_else (case res of None \<Rightarrow> None | Some x \<Rightarrow> rd_cpu x) (defaultCpu cfg),
             re_memoryMiB = or_else (case res of None \<Rightarrow> None | Some x \<Rightarrow> rd_memoryMiB x) (defaultMemoryMiB cfg),
             re_diskGiB = or_else (case res of None \<Rightarrow> None | Some x \<Rightarrow> rd_diskGiB x) (defaultDiskGiB cfg)\<rparr>
      in bnd (resolveVolumes io (or_nil (in_volumes input))) (\<lambda>(mountRecords, mountInputs).
      let sshOn = ((case in_ssh input of None \<Rightarrow> None | Some c \<Rightarrow> ss_enabled c) \<noteq> Some False);
          ports' = (if sshOn \<and> \<not> list_ex (\<lambda>b. pb_containerPort b = 22) ports
                    then ports @ [ssh_binding] else ports)
      in ret
        \<lparr>rs_image = (case opt_trim (in_image input) of None \<Rightarrow> defaultImage cfg | Some i \<Rightarrow> i),
         rs_registryAuth = normalizeRegistryAuth (in_registryAuth input),
         rs_command = (if or_nil (in_command input) \<noteq> [] then in_command input else None),
         rs_env = or_nil (in_env input),
         rs_files = files, rs_secrets = secrets,
         rs_workingDir = opt_trim (in_workingDir input),
         rs_ports = map (\<lambda>b. b\<lparr>pb_hostPort := 0\<rparr>) ports',
         rs_mounts = mountRecords, rs_mountInputs = mountInputs, rs_resources = resources,
         rs_public = (in_public input = Some True),
         rs_autoStopMinutes = (case in_autoStopMinutes input of None \<Rightarrow> None
            | Some n \<Rightarrow> if n \<noteq> 0 \<and> n > 0 then Some n else None),
         rs_ephemeral = (in_ephemeral input = Some True),
         rs_ssh = (if sshOn then Some True else None)\<rparr>))"

text \<open>
  The request that an update stands for: what it names, and the stored value of the rest. The
  result has no \<open>ssh\<close> and no \<open>primaryPort\<close> property, whatever the update says.
\<close>

definition buildUpdateInput :: "runtimeEntity \<Rightarrow> updateSandboxDto \<Rightarrow> ensureRuntimeDto" where
  "buildUpdateInput r input =
     \<lparr>in_name = or_opt (in_name input) (rt_name r),
      in_image = Some (or_else (in_image input) (rt_image r)),
      in_command = or_opt (in_command input) (rt_command r),
      in_env = Some (or_else (in_env input) (or_nil (rt_environment r))),
      in_files = Some (or_nil (in_files input)),
      in_secrets = Some (or_else (in_secrets input)
        (map (\<lambda>x. \<lparr>sd_env = sr_env x, sd_value = sr_value x, sd_placeholder = sr_placeholder x,
            sd_allowedHosts = Some (sr_allowedHosts x),
            sd_allowedHostPatterns = Some (sr_allowedHostPatterns x),
            sd_allowAnyHostDangerous = sr_allowAnyHostDangerous x,
            sd_requireTlsIdentity = sr_requireTlsIdentity x, sd_injectHeaders = sr_injectHeaders x,
            sd_injectBasicAuth = sr_injectBasicAuth x, sd_injectQuery = sr_injectQuery x,
            sd_injectBody = sr_injectBody x\<rparr>) (or_nil (rt_secrets r)))),
      in_workingDir = or_opt (in_workingDir input) (rt_workingDir r),
      in_primaryPort = None,
      in_ports = Some (or_else (in_ports input)
        (map (\<lambda>b. \<lparr>pd_name = pb_name b, pd_containerPort = pb_containerPort b,
            pd_protocol = Some (pb_protocol b)\<rparr>) (rt_portBindings r))),
      in_resources = (let res = in_resources input in Some
        \<lparr>rd_cpu = Some (or_else (case res of None \<Rightarrow> None | Some x \<Rightarrow> rd_cpu x) (rt_cpu r)),
         rd_memoryMiB = Some (or_else (case res of None \<Rightarrow> None | Some x \<Rightarrow> rd_memoryMiB x) (rt_memoryMiB r)),
         rd_diskGiB = Some (or_else (case res of None \<Rightarrow> None | Some x \<Rightarrow> rd_diskGiB x) (rt_diskGiB r))\<rparr>),
      in_volumes = Some (or_else (in_volumes input)
        (map (\<lambda>m. \<lparr>vd_volumeId = mr_volumeId m, vd_mountPath = mr_mountPath m, vd_subpath = None,
            vd_readOnly = mr_readOnly m\<rparr>) (or_nil (rt_mounts r)))),
      in_registryAuth = in_registryAuth input,
      in_public = Some (or_else (in_public input) (rt_public r)),
      in_autoStopMinutes = or_opt (in_autoStopMinutes input) (rt_autoStopMinutes r),
      in_ephemeral = Some (or_else (in_ephemeral input) (rt_ephemeral r)),
      in_ssh = None,
      en_sandboxId = Some (rt_sandboxId r),
      en_forceRecreate = up_forceRecreate input,
      en_refreshActivity = up_refreshActivity input\<rparr>"

text \<open>\<open>xs[i]?.hostPort\<close>\<close>

definition binding_port :: "portBinding list \<Rightarrow> nat \<Rightarrow> int option" where
  "binding_port bs i = (if i < length bs then Some (pb_hostPort (bs ! i)) else None)"

definition with_index :: "(nat \<Rightarrow> 'a \<Rightarrow> 'b) \<Rightarrow> 'a list \<Rightarrow> 'b list" where
  "with_index f xs = map (\<lambda>(i, x). f i x) (List.enumerate 0 xs)"

definition requiresRecreate :: "runtimeEntity \<Rightarrow> runtimeSpec \<Rightarrow> string option \<Rightarrow> bool" where
  "requiresRecreate r next nextName =
     (if rt_name r \<noteq> nextName then True
      else if rt_image r \<noteq> rs_image next then True
      else if stringify (strings_json (or_nil (rt_command r))) \<noteq> stringify (strings_json (or_nil (rs_command next)))
      then True
      else if stringify (env_json (or_nil (rt_environment r))) \<noteq> stringify (env_json (rs_env next)) then True
      else if \<not> json_equal secretRecord_json (or_nil (rt_secrets r)) (rs_secrets next) then True
      else if rt_workingDir r \<noteq> rs_workingDir next then True
      else if \<not> portBindingsEqual (Some (rt_portBindings r))
        (with_index (\<lambda>i b. b\<lparr>pb_hostPort := or_else (binding_port (rt_portBindings r) i) (rt_hostPort r)\<rparr>)
          (rs_ports next)) then True
      else if \<not> mountRecordsEqual (rt_mounts r) (rs_mounts next) then True
      else if rt_public r \<noteq> rs_public next then True
      else if rt_cpu r \<noteq> re_cpu (rs_resources next) then True
      else if rt_memoryMiB r \<noteq> re_memoryMiB (rs_resources next) then True
      else if rt_diskGiB r \<noteq> re_diskGiB (rs_resources next) then True
      else if rt_autoStopMinutes r \<noteq> rs_autoStopMinutes next then True
      else if rt_ephemeral r \<noteq> rs_ephemeral next then True
      else False)"

section \<open>Lemmas\<close>

lemma length_with_index [simp]: "length (with_index f xs) = length xs"
  by (simp add: with_index_def)

lemma nth_with_index [simp]: "i < length xs \<Longrightarrow> with_index f xs ! i = f i (xs ! i)"
  by (simp add: with_index_def nth_enumerate_eq)

text \<open>The bindings that \<open>requiresRecreate\<close> compares: those of the spec with the stored host ports.\<close>

definition with_stored_ports :: "runtimeEntity \<Rightarrow> portBinding list \<Rightarrow> portBinding list" where
  "with_stored_ports r = with_index (\<lambda>i b.
     b\<lparr>pb_hostPort := or_else (binding_port (rt_portBindings r) i) (rt_hostPort r)\<rparr>)"

lemma requiresRecreate_iff:
  "requiresRecreate r spec nm \<longleftrightarrow> \<not>
     (rt_name r = nm \<and> rt_image r = rs_image spec \<and>
      or_nil (rt_command r) = or_nil (rs_command spec) \<and> or_nil (rt_environment r) = rs_env spec \<and>
      or_nil (rt_secrets r) = rs_secrets spec \<and> rt_workingDir r = rs_workingDir spec \<and>
      list_all2 same_binding (rt_portBindings r) (with_stored_ports r (rs_ports spec)) \<and>
      or_nil (rt_mounts r) = rs_mounts spec \<and> rt_public r = rs_public spec \<and>
      rt_cpu r = re_cpu (rs_resources spec) \<and> rt_memoryMiB r = re_memoryMiB (rs_resources spec) \<and>
      rt_diskGiB r = re_diskGiB (rs_resources spec) \<and>
      rt_autoStopMinutes r = rs_autoStopMinutes spec \<and> rt_ephemeral r = rs_ephemeral spec)"
proof -
  have secrets: "json_equal secretRecord_json xs ys \<longleftrightarrow> xs = ys" for xs ys
    by (simp add: json_equal_map inj_map_eq)
  have mounts: "mountRecordsEqual ms ms' \<longleftrightarrow> or_nil ms = ms'" for ms ms'
    by (simp add: mountRecordsEqual_def json_equal_map inj_map_eq)
  have ports: "portBindingsEqual (Some bs) bs' \<longleftrightarrow> list_all2 same_binding bs bs'" for bs bs'
    by (simp add: portBindingsEqual_def json_equal_map list_all2_map1 list_all2_map2 flip: list.rel_eq)
      (simp add: list.rel_map portBinding_json_eq)
  have either: "(if P then True else Q) \<longleftrightarrow> P \<or> Q" for P Q by simp
  show ?thesis
    unfolding requiresRecreate_def with_stored_ports_def [symmetric] secrets mounts ports stringify_inj
      strings_json_inj env_json_inj
    by (simp only: either) blast
qed

text \<open>The bindings of a request with ports, before \<open>buildSpec\<close> adds the SSH port.\<close>

lemma resolvePorts_given:
  "ports \<noteq> [] \<Longrightarrow> resolvePorts cfg (Some ports) q =
     map (\<lambda>e. \<lparr>pb_name = opt_trim (pd_name e), pb_containerPort = pd_containerPort e,
               pb_hostPort = 0, pb_protocol = or_else (pd_protocol e) Tcp, pb_nameLast = False\<rparr>) ports"
  by (simp add: resolvePorts_def)

lemma resolvePorts_not_empty: "resolvePorts cfg ports q \<noteq> []"
  by (simp add: resolvePorts_def)

text \<open>The update request that names nothing.\<close>

definition no_change :: updateSandboxDto where
  "no_change =
     \<lparr>in_name = None, in_image = None, in_command = None, in_env = None, in_files = None,
      in_secrets = None, in_workingDir = None, in_primaryPort = None, in_ports = None,
      in_resources = None, in_volumes = None, in_registryAuth = None, in_public = None,
      in_autoStopMinutes = None, in_ephemeral = None, in_ssh = None,
      up_forceRecreate = None, up_refreshActivity = None\<rparr>"

text \<open>A runtime as \<open>buildSpec\<close> leaves its fields, without volume mounts.\<close>

definition canonical :: "runtimeEntity \<Rightarrow> bool" where
  "canonical r \<longleftrightarrow>
     opt_trim (Some (rt_image r)) = Some (rt_image r) \<and> rt_command r \<noteq> Some [] \<and>
     opt_trim (rt_workingDir r) = rt_workingDir r \<and> rt_portBindings r \<noteq> [] \<and>
     list_all (\<lambda>b. opt_trim (pb_name b) = pb_name b) (rt_portBindings r) \<and>
     or_nil (rt_mounts r) = [] \<and>
     (case rt_autoStopMinutes r of None \<Rightarrow> True | Some n \<Rightarrow> 0 < n)"

text \<open>The ports of the spec that an update without ports leads to.\<close>

definition update_ports :: "portBinding list \<Rightarrow> portBinding list" where
  "update_ports bs =
     map (\<lambda>b. b\<lparr>pb_hostPort := 0, pb_nameLast := False\<rparr>) bs
     @ (if list_ex (\<lambda>b. pb_containerPort b = 22) bs then [] else [ssh_binding])"

lemma buildSpec_no_change:
  assumes "canonical r"
  shows "\<exists>spec. buildSpec io (buildUpdateInput r no_change) s = (Inr spec, s) \<and>
    rs_ports spec = update_ports (rt_portBindings r) \<and>
    (requiresRecreate r spec (rt_name r) \<longleftrightarrow>
       \<not> list_all2 same_binding (rt_portBindings r) (with_stored_ports r (rs_ports spec)))"
proof -
  let ?bs = "rt_portBindings r"
  let ?dtos = "map (\<lambda>b. \<lparr>pd_name = pb_name b, pd_containerPort = pb_containerPort b,
            pd_protocol = Some (pb_protocol b)\<rparr>) ?bs"
  have ports: "resolvePorts (io_config io) (Some ?dtos) None = map (\<lambda>b. b\<lparr>pb_hostPort := 0, pb_nameLast := False\<rparr>) ?bs"
    using assms by (auto simp: resolvePorts_given canonical_def list_all_iff)
  have ex: "list_ex (\<lambda>b. pb_containerPort b = 22) (map (\<lambda>b. b\<lparr>pb_hostPort := 0, pb_nameLast := False\<rparr>) ?bs)
      = list_ex (\<lambda>b. pb_containerPort b = 22) ?bs"
    by (simp add: list_ex_iff)
  have secrets: "buildRuntimeSecrets (map (\<lambda>x. \<lparr>sd_env = sr_env x, sd_value = sr_value x, sd_placeholder = sr_placeholder x,
            sd_allowedHosts = Some (sr_allowedHosts x),
            sd_allowedHostPatterns = Some (sr_allowedHostPatterns x),
            sd_allowAnyHostDangerous = sr_allowAnyHostDangerous x,
            sd_requireTlsIdentity = sr_requireTlsIdentity x, sd_injectHeaders = sr_injectHeaders x,
            sd_injectBasicAuth = sr_injectBasicAuth x, sd_injectQuery = sr_injectQuery x,
            sd_injectBody = sr_injectBody x\<rparr>) ss) = ss" for ss
    by (auto simp: buildRuntimeSecrets_def comp_def intro!: map_idI)
  obtain spec where run: "buildSpec io (buildUpdateInput r no_change) s = (Inr spec, s)"
    and spec: "rs_image spec = rt_image r" "or_nil (rs_command spec) = or_nil (rt_command r)"
      "rs_env spec = or_nil (rt_environment r)" "rs_secrets spec = or_nil (rt_secrets r)"
      "rs_workingDir spec = rt_workingDir r" "rs_ports spec = update_ports ?bs"
      "rs_mounts spec = []" "rs_public spec = rt_public r"
      "rs_resources spec = \<lparr>re_cpu = rt_cpu r, re_memoryMiB = rt_memoryMiB r, re_diskGiB = rt_diskGiB r\<rparr>"
      "rs_autoStopMinutes spec = rt_autoStopMinutes r" "rs_ephemeral spec = rt_ephemeral r"
    using assms
    by (auto simp: buildSpec_def buildUpdateInput_def no_change_def bnd_run Let_def ports ex secrets
        update_ports_def canonical_def comp_def ssh_binding_def split: option.splits)
  then have "requiresRecreate r spec (rt_name r) \<longleftrightarrow>
       \<not> list_all2 same_binding ?bs (with_stored_ports r (rs_ports spec))"
    using assms by (simp add: requiresRecreate_iff canonical_def)
  with run spec show ?thesis by blast
qed

lemma stored_ports_update:
  "list_all2 same_binding bs (with_index (\<lambda>i b. b\<lparr>pb_hostPort := or_else (binding_port bs i) h\<rparr>) (update_ports bs)) \<longleftrightarrow>
   list_ex (\<lambda>b. pb_containerPort b = 22) bs \<and> (\<forall>b \<in> set bs. pb_name b = None \<or> \<not> pb_nameLast b)"
proof (cases "list_ex (\<lambda>b. pb_containerPort b = 22) bs")
  case True
  have "list_all2 same_binding bs (with_index (\<lambda>i b. b\<lparr>pb_hostPort := or_else (binding_port bs i) h\<rparr>)
      (map (\<lambda>b. b\<lparr>pb_hostPort := 0, pb_nameLast := False\<rparr>) bs)) \<longleftrightarrow>
    (\<forall>i < length bs. pb_name (bs ! i) = None \<or> \<not> pb_nameLast (bs ! i))"
    by (auto simp: list_all2_conv_all_nth binding_port_def same_binding_def)
  with True show ?thesis by (simp add: update_ports_def all_set_conv_all_nth)
next
  case False
  then show ?thesis by (auto simp: update_ports_def dest!: list_all2_lengthD)
qed

lemma opt_trim_idem [simp]: "opt_trim (opt_trim x) = opt_trim x"
  by (auto simp: opt_trim_def non_empty_def split: option.splits)

lemma opt_trim_Some: "opt_trim x = Some y \<Longrightarrow> opt_trim (Some y) = Some y"
  using opt_trim_idem [of x] by simp

lemma envOr_trimmed: "opt_trim (Some d) = Some d \<Longrightarrow> opt_trim (Some (envOr cfg n d)) = Some (envOr cfg n d)"
  by (auto simp: envOr_def dest: opt_trim_Some split: option.splits)

text \<open>The runtime's columns hold what the specification says, host ports apart.\<close>

definition stores :: "runtimeEntity \<Rightarrow> runtimeSpec \<Rightarrow> bool" where
  "stores r spec \<longleftrightarrow>
     rt_image r = rs_image spec \<and> rt_command r = rs_command spec \<and>
     rt_environment r = Some (rs_env spec) \<and> rt_secrets r = Some (rs_secrets spec) \<and>
     rt_workingDir r = rs_workingDir spec \<and>
     map (\<lambda>b. b\<lparr>pb_hostPort := 0\<rparr>) (rt_portBindings r) = rs_ports spec \<and>
     rt_mounts r = Some (rs_mounts spec) \<and> rt_public r = rs_public spec \<and>
     rt_cpu r = re_cpu (rs_resources spec) \<and> rt_memoryMiB r = re_memoryMiB (rs_resources spec) \<and>
     rt_diskGiB r = re_diskGiB (rs_resources spec) \<and>
     rt_autoStopMinutes r = rs_autoStopMinutes spec \<and> rt_ephemeral r = rs_ephemeral spec"

lemma buildSpec_run:
  assumes "buildSpec io input s = (Inr spec, t)"
  obtains ms where "resolveVolumes io (or_nil (in_volumes input)) s = (Inr (rs_mounts spec, ms), t)"
    and "rs_mountInputs spec = ms"
    and "rs_image spec = (case opt_trim (in_image input) of None \<Rightarrow> defaultImage (io_config io) | Some i \<Rightarrow> i)"
    and "rs_command spec \<noteq> Some []"
    and "rs_workingDir spec = opt_trim (in_workingDir input)"
    and "rs_registryAuth spec = normalizeRegistryAuth (in_registryAuth input)"
    and "rs_ssh spec = (if (case in_ssh input of None \<Rightarrow> None | Some c \<Rightarrow> ss_enabled c) \<noteq> Some False then Some True else None)"
    and "rs_autoStopMinutes spec = None \<or> (\<exists>n > 0. rs_autoStopMinutes spec = Some n)"
    and "rs_ports spec =
      (let ports = resolvePorts (io_config io) (in_ports input) (in_primaryPort input)
       in map (\<lambda>b. b\<lparr>pb_hostPort := 0\<rparr>)
            (if rs_ssh spec = Some True \<and> \<not> list_ex (\<lambda>b. pb_containerPort b = 22) ports
             then ports @ [ssh_binding] else ports))"
    and "rs_command spec = (if in_command input = Some [] then None else in_command input)"
    and "\<forall>n. rs_autoStopMinutes spec = Some n \<longleftrightarrow> in_autoStopMinutes input = Some n \<and> 0 < n"
proof -
  obtain recs ins where res: "resolveVolumes io (or_nil (in_volumes input)) s = (Inr (recs, ins), t)"
    and mounts: "recs = rs_mounts spec" "ins = rs_mountInputs spec"
    using assms unfolding buildSpec_def Let_def
    by (elim bnd_InrE) (clarsimp split: prod.splits; blast)
  note spec = assms [unfolded buildSpec_def Let_def bnd_run res prod.case sum.case ret_run prod.inject sum.inject,
      THEN conjunct1, symmetric]
  show thesis
    by (rule that [of ins]) (simp_all add: res mounts, auto simp: spec Let_def or_nil_def split: option.splits)
qed

lemma buildSpec_canonical:
  assumes "buildSpec io input s = (Inr spec, t)" and "stores r spec" and "rs_mounts spec = []"
  shows "canonical r"
proof -
  from assms(1) obtain ms where
    image: "rs_image spec = (case opt_trim (in_image input) of None \<Rightarrow> defaultImage (io_config io) | Some i \<Rightarrow> i)"
    and rest: "rs_command spec \<noteq> Some []" "rs_workingDir spec = opt_trim (in_workingDir input)"
      "rs_autoStopMinutes spec = None \<or> (\<exists>n > 0. rs_autoStopMinutes spec = Some n)"
    and ports: "rs_ports spec =
      (let ports = resolvePorts (io_config io) (in_ports input) (in_primaryPort input)
       in map (\<lambda>b. b\<lparr>pb_hostPort := 0\<rparr>)
            (if rs_ssh spec = Some True \<and> \<not> list_ex (\<lambda>b. pb_containerPort b = 22) ports
             then ports @ [ssh_binding] else ports))"
    by (rule buildSpec_run)
  have "opt_trim (Some (defaultImage (io_config io))) = Some (defaultImage (io_config io))"
    unfolding defaultImage_def by (rule envOr_trimmed) code_simp
  then have "opt_trim (Some (rs_image spec)) = Some (rs_image spec)"
    using image by (auto split: option.splits dest: opt_trim_Some)
  moreover have "list_all (\<lambda>b. opt_trim (pb_name b) = pb_name b) (rs_ports spec)"
  proof -
    have "opt_trim (pb_name ssh_binding) = pb_name ssh_binding" by code_simp
    moreover have "list_all (\<lambda>b. opt_trim (pb_name b) = pb_name b)
        (resolvePorts (io_config io) (in_ports input) (in_primaryPort input))"
      by (auto simp: resolvePorts_def list_all_iff)
    ultimately show ?thesis by (auto simp: ports Let_def list_all_iff)
  qed
  moreover have eq: "rs_ports spec = map (\<lambda>b. b\<lparr>pb_hostPort := 0\<rparr>) (rt_portBindings r)"
    using assms(2) by (simp add: stores_def)
  ultimately have "list_all (\<lambda>b. opt_trim (pb_name b) = pb_name b) (rt_portBindings r)"
    by (simp add: eq list_all_iff)
  moreover have "rt_portBindings r \<noteq> []"
    using assms(2) ports resolvePorts_not_empty [of "io_config io" "in_ports input" "in_primaryPort input"]
    by (auto simp: stores_def Let_def split: if_splits)
  ultimately show ?thesis
    using assms(2,3) rest \<open>opt_trim (Some (rs_image spec)) = Some (rs_image spec)\<close>
    by (auto simp: canonical_def stores_def)
qed

text \<open>The container ports a request asks for, by itself: its list, or its primary port, or the default.\<close>

definition requested_ports :: "config \<Rightarrow> 'x sandboxSpecDto_scheme \<Rightarrow> int list" where
  "requested_ports cfg input =
     (case in_ports input of
        Some (d # ds) \<Rightarrow> map pd_containerPort (d # ds)
      | _ \<Rightarrow> (case in_primaryPort input of Some q \<Rightarrow> [pd_containerPort q] | None \<Rightarrow> [defaultExposedPort cfg]))"

definition refuses_ssh :: "'x sandboxSpecDto_scheme \<Rightarrow> bool" where
  "refuses_ssh input \<longleftrightarrow> (\<exists>c. in_ssh input = Some c \<and> ss_enabled c = Some False)"

lemma resolvePorts_requested:
  "map pb_containerPort (resolvePorts (io_config io) (in_ports input) (in_primaryPort input)) =
   requested_ports (io_config io) input"
  by (auto simp: resolvePorts_def requested_ports_def or_nil_def or_else_def comp_def split: option.split list.split)

lemma buildSpec_ports:
  assumes "buildSpec io input s = (Inr spec, t)"
  shows "rs_ssh spec = Some True \<longleftrightarrow> \<not> refuses_ssh input"
    and "map pb_containerPort (rs_ports spec) = requested_ports (io_config io) input @
      (if refuses_ssh input \<or> 22 \<in> set (requested_ports (io_config io) input) then [] else [22])"
proof -
  let ?ports = "resolvePorts (io_config io) (in_ports input) (in_primaryPort input)"
  from assms obtain ms where
    ssh: "rs_ssh spec = (if (case in_ssh input of None \<Rightarrow> None | Some c \<Rightarrow> ss_enabled c) \<noteq> Some False then Some True else None)"
    and ports: "rs_ports spec =
      (let ports = ?ports
       in map (\<lambda>b. b\<lparr>pb_hostPort := 0\<rparr>)
            (if rs_ssh spec = Some True \<and> \<not> list_ex (\<lambda>b. pb_containerPort b = 22) ports
             then ports @ [ssh_binding] else ports))"
    by (rule buildSpec_run)
  show on: "rs_ssh spec = Some True \<longleftrightarrow> \<not> refuses_ssh input"
    by (auto simp: ssh refuses_ssh_def split: option.splits)
  have has22: "list_ex (\<lambda>b. pb_containerPort b = 22) ?ports \<longleftrightarrow> 22 \<in> set (requested_ports (io_config io) input)"
    unfolding resolvePorts_requested [of io input, symmetric] by (auto simp: list_ex_iff)
  show "map pb_containerPort (rs_ports spec) = requested_ports (io_config io) input @
      (if refuses_ssh input \<or> 22 \<in> set (requested_ports (io_config io) input) then [] else [22])"
    unfolding resolvePorts_requested [of io input, symmetric]
    using has22 [unfolded resolvePorts_requested [of io input, symmetric]]
    by (simp add: ports on Let_def comp_def ssh_binding_def)
qed

text \<open>
  What a mount of a request becomes, against a table of volumes, and why it may fail: its id or name
  is no valid name, no stored volume has it, or it asks for a subpath.
\<close>

definition names_volume :: "string \<Rightarrow> volumeEntity \<Rightarrow> bool" where
  "names_volume x v \<longleftrightarrow>
     (case normalizeName (Some x) of Inr (Some n) \<Rightarrow> vo_id v = x \<or> vo_name v = n | _ \<Rightarrow> False)"

definition mount_fails :: "volumeEntity list \<Rightarrow> volumeMountDto \<Rightarrow> exn \<Rightarrow> bool" where
  "mount_fails vs m e \<longleftrightarrow>
     (case normalizeName (Some (vd_volumeId m)) of
        Inl e' \<Rightarrow> e = e'
      | Inr _ \<Rightarrow>
          if list_ex (names_volume (vd_volumeId m)) vs
          then opt_trim (vd_subpath m) \<noteq> None \<and> e = BadRequestException subpath_message
          else e = NotFoundException (''Volume not found: '' @ vd_volumeId m))"

definition mount_of :: "volumeEntity list \<Rightarrow> volumeMountDto \<Rightarrow> mountRecord \<Rightarrow> mountInput \<Rightarrow> bool" where
  "mount_of vs m r i \<longleftrightarrow>
     (\<exists>v \<in> set vs. names_volume (vd_volumeId m) v \<and>
        mr_volumeId r = vo_id v \<and> mr_volumeName r = vo_name v \<and> mi_volumeName i = vo_backendName v) \<and>
     mr_mountPath r = vd_mountPath m \<and> mi_mountPath i = vd_mountPath m \<and> mr_subpath r = None \<and>
     opt_trim (vd_subpath m) = None \<and>
     mr_readOnly r = Some (vd_readOnly m = Some True) \<and> mi_readOnly i = Some (vd_readOnly m = Some True)"

fun mounts_of :: "volumeEntity list \<Rightarrow> volumeMountDto list \<Rightarrow> mountRecord list \<Rightarrow> mountInput list \<Rightarrow> bool" where
  "mounts_of vs [] [] [] = True"
| "mounts_of vs (m # ms) (r # rs) (i # is) = (mount_of vs m r i \<and> mounts_of vs ms rs is)"
| "mounts_of vs _ _ _ = False"

context database begin

lemma requireVolume_cases:
  obtains (found) v where "requireVolume io x s = (Inr v, s)" and "v \<in> set (volumes s)" and "names_volume x v"
    | (missing) n where "requireVolume io x s = (Inl (NotFoundException (''Volume not found: '' @ x)), s)"
      and "normalizeName (Some x) = Inr n" and "\<not> list_ex (names_volume x) (volumes s)"
    | (invalid) e where "requireVolume io x s = (Inl e, s)" and "normalizeName (Some x) = Inl e"
proof (cases "normalizeName (Some x)")
  case (Inl e)
  then show thesis by (intro invalid) (simp_all add: requireVolume_def findVolumeByIdOrName_def bnd_run)
next
  case (Inr n)
  show thesis
  proof (cases n)
    case None
    with Inr show thesis
      by (intro missing) (simp_all add: requireVolume_def findVolumeByIdOrName_def bnd_run names_volume_def list_ex_iff)
  next
    case (Some k)
    let ?p = "\<lambda>r. vo_id r = x \<or> vo_name r = k"
    have names: "names_volume x = ?p" using Inr Some by (simp add: names_volume_def fun_eq_iff)
    have run: "requireVolume io x s =
        (case findOne (volumeRepo io) ?p (volumes s) of
           None \<Rightarrow> (Inl (NotFoundException (''Volume not found: '' @ x)), s) | Some v \<Rightarrow> (Inr v, s))"
      using Inr Some
      by (simp add: requireVolume_def findVolumeByIdOrName_def bnd_run volume_findOne_def split: option.split)
    show thesis
    proof (cases "findOne (volumeRepo io) ?p (volumes s)")
      case None
      with run Inr vo.findOne_None [of ?p "volumes s"] show thesis
        by (intro missing) (auto simp: names list_ex_iff)
    next
      case (Some v)
      with run vo.findOne_Some [OF Some] show thesis by (intro found [of v]) (auto simp: names)
    qed
  qed
qed

lemma resolveVolumes_run:
  "case resolveVolumes io ms s of
     (Inr (rs, is), t) \<Rightarrow> t = s \<and> mounts_of (volumes s) ms rs is
   | (Inl e, t) \<Rightarrow> t = s \<and> (\<exists>pre m post. ms = pre @ m # post \<and>
       (\<exists>rs is. mounts_of (volumes s) pre rs is) \<and> mount_fails (volumes s) m e)"
proof (induction ms)
  case (Cons m ms)
  have first: "\<exists>pre m' post. m # ms = pre @ m' # post \<and> (\<exists>rs is. mounts_of (volumes s) pre rs is) \<and>
      mount_fails (volumes s) m' e" if "mount_fails (volumes s) m e" for e
  proof (intro exI conjI)
    show "m # ms = [] @ m # ms" "mounts_of (volumes s) [] [] []" by simp_all
  qed (rule that)
  show ?case
  proof (cases rule: requireVolume_cases [of "vd_volumeId m" s])
    case (found v)
    obtain n where n: "normalizeName (Some (vd_volumeId m)) = Inr n"
      using found(3) by (auto simp: names_volume_def split: sum.splits)
    show ?thesis
    proof (cases "opt_trim (vd_subpath m) = None")
      case False
      then have "mount_fails (volumes s) m (BadRequestException subpath_message)"
        using found n by (auto simp: mount_fails_def list_ex_iff)
      from first [OF this] found(1) False show ?thesis by (simp add: bnd_run)
    next
      case True
      define r where "r = \<lparr>mr_volumeId = vo_id v, mr_volumeName = vo_name v,
             mr_mountPath = vd_mountPath m, mr_subpath = None, mr_readOnly = Some (vd_readOnly m = Some True)\<rparr>"
      define i where "i = \<lparr>mi_volumeName = vo_backendName v, mi_mountPath = vd_mountPath m,
             mi_readOnly = Some (vd_readOnly m = Some True)\<rparr>"
      have mount: "mount_of (volumes s) m r i"
        using found True by (auto simp: mount_of_def r_def i_def)
      obtain q t where q: "resolveVolumes io ms s = (q, t)" by fastforce
      show ?thesis
      proof (cases q)
        case (Inr p)
        with Cons.IH q mount found(1) True show ?thesis
          by (cases p) (simp add: bnd_run r_def i_def)
      next
        case (Inl e)
        with Cons.IH q obtain pre m' post rs "is" where fail: "t = s" "ms = pre @ m' # post"
          "mounts_of (volumes s) pre rs is" "mount_fails (volumes s) m' e" by auto
        have "\<exists>pre m' post. m # ms = pre @ m' # post \<and> (\<exists>rs is. mounts_of (volumes s) pre rs is) \<and>
            mount_fails (volumes s) m' e"
        proof (intro exI conjI)
          show "m # ms = (m # pre) @ m' # post" using fail(2) by simp
          show "mounts_of (volumes s) (m # pre) (r # rs) (i # is)" using mount fail(3) by simp
        qed (rule fail(4))
        with q Inl fail(1) found(1) True show ?thesis by (simp add: bnd_run)
      qed
    qed
  next
    case (missing n)
    then have "mount_fails (volumes s) m (NotFoundException (''Volume not found: '' @ vd_volumeId m))"
      by (simp add: mount_fails_def)
    from first [OF this] missing(1) show ?thesis by (simp add: bnd_run)
  next
    case (invalid e)
    then have "mount_fails (volumes s) m e" by (simp add: mount_fails_def)
    from first [OF this] invalid(1) show ?thesis by (simp add: bnd_run)
  qed
qed simp

end

section \<open>Properties\<close>

text \<open>C19: an update that names nothing, of a sandbox as it was provisioned from a request (without
  volumes), is taken for a change of the specification, and so recreates the sandbox, unless the
  request itself listed container port 22.\<close>

theorem update_after_create:
  assumes "buildSpec io input s = (Inr spec, t)" and "stores r spec" and "rs_mounts spec = []"
  shows "\<exists>spec'. buildSpec io (buildUpdateInput r no_change) t = (Inr spec', t) \<and>
    (requiresRecreate r spec' (rt_name r) \<longleftrightarrow>
     \<not> list_ex (\<lambda>b. pb_containerPort b = 22)
         (resolvePorts (io_config io) (in_ports input) (in_primaryPort input)))"
proof -
  let ?ports = "resolvePorts (io_config io) (in_ports input) (in_primaryPort input)"
  let ?bs = "rt_portBindings r"
  obtain spec' where spec': "buildSpec io (buildUpdateInput r no_change) t = (Inr spec', t)"
    and req: "requiresRecreate r spec' (rt_name r) \<longleftrightarrow>
       \<not> (list_ex (\<lambda>b. pb_containerPort b = 22) ?bs \<and> (\<forall>b \<in> set ?bs. pb_name b = None \<or> \<not> pb_nameLast b))"
    using buildSpec_no_change [OF buildSpec_canonical [OF assms], of io t] stored_ports_update
    by (auto simp: with_stored_ports_def)
  have ports: "rs_ports spec = map (\<lambda>b. b\<lparr>pb_hostPort := 0\<rparr>)
            (if rs_ssh spec = Some True \<and> \<not> list_ex (\<lambda>b. pb_containerPort b = 22) ?ports
             then ?ports @ [ssh_binding] else ?ports)"
    by (rule buildSpec_run [OF assms(1)]) (simp add: Let_def)
  have eq: "map (\<lambda>b. b\<lparr>pb_hostPort := 0\<rparr>) ?bs = rs_ports spec"
    using assms(2) by (simp add: stores_def)
  have has22: "list_ex (\<lambda>b. pb_containerPort b = 22) ?bs = list_ex (\<lambda>b. pb_containerPort b = 22) (rs_ports spec)"
    by (simp add: list_ex_iff flip: eq)
  have last: "(\<forall>b \<in> set ?bs. pb_name b = None \<or> \<not> pb_nameLast b) =
      (\<forall>b \<in> set (rs_ports spec). pb_name b = None \<or> \<not> pb_nameLast b)"
    by (simp flip: eq)
  have first: "\<not> pb_nameLast b" if "b \<in> set ?ports" for b
    using that by (auto simp: resolvePorts_def)
  have "(list_ex (\<lambda>b. pb_containerPort b = 22) (rs_ports spec) \<and>
      (\<forall>b \<in> set (rs_ports spec). pb_name b = None \<or> \<not> pb_nameLast b)) = list_ex (\<lambda>b. pb_containerPort b = 22) ?ports"
    using first by (auto simp: ports ssh_binding_def list_ex_iff)
  with spec' req has22 last show ?thesis by blast
qed

text \<open>A request that names nothing, and a runtime that stores its specification.\<close>

definition plain_request :: sandboxSpecDto where
  "plain_request =
     \<lparr>in_name = None, in_image = None, in_command = None, in_env = None, in_files = None,
      in_secrets = None, in_workingDir = None, in_primaryPort = None, in_ports = None,
      in_resources = None, in_volumes = None, in_registryAuth = None, in_public = None,
      in_autoStopMinutes = None, in_ephemeral = None, in_ssh = None\<rparr>"

definition stored_runtime :: "runtimeSpec \<Rightarrow> runtimeEntity" where
  "stored_runtime spec = demo_runtime
     \<lparr>rt_image := rs_image spec, rt_command := rs_command spec, rt_environment := Some (rs_env spec),
      rt_secrets := Some (rs_secrets spec), rt_workingDir := rs_workingDir spec,
      rt_portBindings := rs_ports spec, rt_mounts := Some (rs_mounts spec),
      rt_public := rs_public spec, rt_cpu := re_cpu (rs_resources spec),
      rt_memoryMiB := re_memoryMiB (rs_resources spec), rt_diskGiB := re_diskGiB (rs_resources spec),
      rt_autoStopMinutes := rs_autoStopMinutes spec, rt_ephemeral := rs_ephemeral spec\<rparr>"

lemma plain_buildSpec:
  "\<exists>spec. buildSpec (demo_io empty_config) plain_request sys0 = (Inr spec, sys0) \<and>
     stores (stored_runtime spec) spec \<and> rs_mounts spec = []"
  by (simp add: buildSpec_def plain_request_def resolvePorts_def bnd_run Let_def stores_def stored_runtime_def)

theorem update_after_create_witness:
  "\<exists>spec spec'. buildSpec (demo_io empty_config) plain_request sys0 = (Inr spec, sys0) \<and>
    buildSpec (demo_io empty_config) (buildUpdateInput (stored_runtime spec) no_change) sys0 = (Inr spec', sys0) \<and>
    requiresRecreate (stored_runtime spec) spec' (rt_name (stored_runtime spec))"
proof -
  obtain spec where spec: "buildSpec (demo_io empty_config) plain_request sys0 = (Inr spec, sys0)"
    "stores (stored_runtime spec) spec" "rs_mounts spec = []"
    using plain_buildSpec by blast
  have "\<not> list_ex (\<lambda>b. pb_containerPort b = 22)
      (resolvePorts (io_config (demo_io empty_config)) (in_ports plain_request) (in_primaryPort plain_request))"
    by (simp add: plain_request_def resolvePorts_def defaultExposedPort_def)
  with spec(1) update_after_create [OF spec] show ?thesis by blast
qed

text \<open>C20: what a specification has, in terms of the request alone. SSH is on unless the request
  refuses it. The container ports are those asked for, in their order, and after them 22 exactly when
  SSH is on and 22 was not asked for; at least one, with all host ports still open. The image is not
  empty, the command is the one asked for and never an empty list, the auto-stop time is the one asked
  for when that is positive and absent otherwise, and the registry credentials are there exactly when all
  three were given and not blank.\<close>

theorem buildSpec_spec:
  assumes "buildSpec io input s = (Inr spec, t)"
  shows "(rs_ssh spec = Some True \<longleftrightarrow> \<not> refuses_ssh input) \<and>
    map pb_containerPort (rs_ports spec) = requested_ports (io_config io) input @
      (if refuses_ssh input \<or> 22 \<in> set (requested_ports (io_config io) input) then [] else [22]) \<and>
    rs_ports spec \<noteq> [] \<and> list_all (\<lambda>b. pb_hostPort b = 0) (rs_ports spec) \<and>
    rs_image spec \<noteq> [] \<and>
    rs_command spec = (if in_command input = Some [] then None else in_command input) \<and>
    (\<forall>n. rs_autoStopMinutes spec = Some n \<longleftrightarrow> in_autoStopMinutes input = Some n \<and> 0 < n) \<and>
    (rs_registryAuth spec \<noteq> None \<longleftrightarrow> (\<exists>a. in_registryAuth input = Some a \<and>
       trim (ra_server a) \<noteq> [] \<and> trim (ra_username a) \<noteq> [] \<and> ra_password a \<noteq> []))"
proof -
  let ?ports = "resolvePorts (io_config io) (in_ports input) (in_primaryPort input)"
  from assms obtain ms where
    image: "rs_image spec = (case opt_trim (in_image input) of None \<Rightarrow> defaultImage (io_config io) | Some i \<Rightarrow> i)"
    and auth: "rs_registryAuth spec = normalizeRegistryAuth (in_registryAuth input)"
    and ports: "rs_ports spec =
      (let ports = ?ports
       in map (\<lambda>b. b\<lparr>pb_hostPort := 0\<rparr>)
            (if rs_ssh spec = Some True \<and> \<not> list_ex (\<lambda>b. pb_containerPort b = 22) ports
             then ports @ [ssh_binding] else ports))"
    and options: "rs_command spec = (if in_command input = Some [] then None else in_command input)"
      "\<forall>n. rs_autoStopMinutes spec = Some n \<longleftrightarrow> in_autoStopMinutes input = Some n \<and> 0 < n"
    by (rule buildSpec_run)
  have "rs_image spec \<noteq> []"
    using image envOr_not_empty [of "''nginx:stable-alpine''"]
    by (auto simp: defaultImage_def opt_trim_def non_empty_def split: option.splits if_splits)
  moreover have "rs_registryAuth spec \<noteq> None \<longleftrightarrow> (\<exists>a. in_registryAuth input = Some a \<and>
       trim (ra_server a) \<noteq> [] \<and> trim (ra_username a) \<noteq> [] \<and> ra_password a \<noteq> [])"
    by (auto simp: auth normalizeRegistryAuth_def Let_def split: option.splits if_splits)
  moreover have "rs_ports spec \<noteq> []" using resolvePorts_not_empty by (auto simp: ports Let_def)
  moreover have "list_all (\<lambda>b. pb_hostPort b = 0) (rs_ports spec)" by (auto simp: ports Let_def list_all_iff)
  ultimately show ?thesis using buildSpec_ports [OF assms] options by blast
qed

theorem buildSpec_spec_witness:
  "\<exists>spec. buildSpec (demo_io empty_config) (plain_request\<lparr>in_ssh := Some \<lparr>ss_enabled = Some False\<rparr>\<rparr>) sys0 = (Inr spec, sys0) \<and>
     rs_ssh spec \<noteq> Some True \<and> map pb_containerPort (rs_ports spec) = [defaultExposedPort empty_config]"
proof -
  let ?q = "plain_request\<lparr>in_ssh := Some \<lparr>ss_enabled = Some False\<rparr>\<rparr>"
  obtain spec where run: "buildSpec (demo_io empty_config) ?q sys0 = (Inr spec, sys0)"
    by (simp add: buildSpec_def plain_request_def resolvePorts_def bnd_run Let_def)
  have "refuses_ssh ?q" "requested_ports empty_config ?q = [defaultExposedPort empty_config]"
    by (simp_all add: refuses_ssh_def requested_ports_def plain_request_def)
  with buildSpec_spec [OF run] run show ?thesis by simp
qed

text \<open>C39: resolving the volume mounts of a request reads the tables only, and its outcome is decided
  entry by entry. It succeeds with one record and one VM mount per entry, each of a stored volume
  that the entry's id or name names, never with a subpath, read-only exactly when the entry says
  so. It throws because of the first entry that fails: with the error of an invalid name, with
  \<open>Volume not found\<close> only when no stored volume has the id or the name, and for a volume that is there only
  because a subpath is asked for.\<close>

theorem resolveVolumes_spec:
  assumes "database io"
  shows "case resolveVolumes io ms s of
     (Inr (rs, is), t) \<Rightarrow> t = s \<and> mounts_of (volumes s) ms rs is
   | (Inl e, t) \<Rightarrow> t = s \<and> (\<exists>pre m post. ms = pre @ m # post \<and>
       (\<exists>rs is. mounts_of (volumes s) pre rs is) \<and> mount_fails (volumes s) m e)"
  by (rule database.resolveVolumes_run [OF assms])

definition data_volume :: volumeEntity where
  "data_volume = \<lparr>vo_id = ''v1'', vo_name = ''data'', vo_backendName = ''runtime-data-data'',
     vo_quotaMiB = None, vo_createdAt = 0, vo_updatedAt = 0\<rparr>"

theorem resolveVolumes_spec_witness:
  "let s = sys0\<lparr>volumes := [data_volume]\<rparr>;
       ms = [\<lparr>vd_volumeId = ''Data'', vd_mountPath = ''/data'', vd_subpath = None, vd_readOnly = None\<rparr>]
   in \<exists>rs is. resolveVolumes (demo_io empty_config) ms s = (Inr (rs, is), s) \<and> mounts_of [data_volume] ms rs is"
proof -
  define s where "s = sys0\<lparr>volumes := [data_volume]\<rparr>"
  define ms where "ms = [\<lparr>vd_volumeId = ''Data'', vd_mountPath = ''/data'', vd_subpath = None, vd_readOnly = None\<rparr>]"
  have "normalizeName (Some ''Data'') = Inr (Some ''data'')" by code_simp
  then obtain rs "is" t where run: "resolveVolumes (demo_io empty_config) ms s = (Inr (rs, is), t)"
    by (simp add: ms_def s_def bnd_run requireVolume_def findVolumeByIdOrName_def volume_findOne_def
        demo_io_def mem_io_def volume_table_def mem_repo_def data_volume_def opt_trim_def)
  then have "t = s \<and> mounts_of [data_volume] ms rs is"
    using resolveVolumes_spec [where io = "demo_io empty_config" and ms = ms and s = s]
    by (simp add: s_def)
  with run show ?thesis unfolding Let_def s_def ms_def by blast
qed

end
