(* ===== verification/JsUri.thy ===== *)
theory JsUri
  imports Json
begin

text \<open>
  UTF-8 and percent encoding of strings (\<open>Buffer.from\<close>, \<open>encodeURIComponent\<close>,
  \<open>decodeURIComponent\<close>), for the code units of the model: one byte below 128, two bytes from
  there to 255. A byte is a natural number below 256. A percent sequence that decodes to a
  larger code point is outside the model, and \<open>decodeURIComponent\<close> gives \<open>None\<close> for it as for
  a malformed one. The lemmas show that both encodings can be undone.
\<close>

section \<open>Encodings\<close>

definition utf8_char :: "char \<Rightarrow> nat list" where
  "utf8_char c =
     (let n = of_char c in if n < 128 then [n] else [192 + n div 64, 128 + n mod 64])"

definition utf8 :: "string \<Rightarrow> nat list" where
  "utf8 s = concat (map utf8_char s)"

text \<open>Upper-case hexadecimal digits.\<close>

definition hex_digit :: "nat \<Rightarrow> char" where
  "hex_digit b = (if b < 10 then char_of (b + 48) else char_of (b + 55))"

definition percent :: "nat \<Rightarrow> string" where
  "percent b = [CHR ''%'', hex_digit (b div 16), hex_digit (b mod 16)]"

text \<open>The characters that \<open>encodeURIComponent\<close> leaves alone.\<close>

definition uri_unreserved :: "char \<Rightarrow> bool" where
  "uri_unreserved c \<longleftrightarrow>
     is_lower_az c \<or> is_upper_az c \<or> is_digit c \<or> c \<in> set ''-_.!~*()'' \<or> c = CHR 0x27"

definition encodeURIComponent :: "string \<Rightarrow> string" where
  "encodeURIComponent s =
     concat (map (\<lambda>c. if uri_unreserved c then [c] else concat (map percent (utf8_char c))) s)"

definition unhex :: "char \<Rightarrow> nat option" where
  "unhex c =
     (let n = of_char c in
      if 48 \<le> n \<and> n \<le> 57 then Some (n - 48)
      else if 65 \<le> n \<and> n \<le> 70 then Some (n - 55)
      else if 97 \<le> n \<and> n \<le> 102 then Some (n - 87) else None)"

definition unhex2 :: "char \<Rightarrow> char \<Rightarrow> nat option" where
  "unhex2 a b =
     (case unhex a of None \<Rightarrow> None
      | Some x \<Rightarrow> (case unhex b of None \<Rightarrow> None | Some y \<Rightarrow> Some (16 * x + y)))"

text \<open>The bytes of a percent-encoded string; other characters stand for themselves.\<close>

datatype uri_part = Plain char | Byte nat

fun uri_parts :: "string \<Rightarrow> uri_part list option" where
  "uri_parts [] = Some []"
| "uri_parts (c # s) =
     (if c \<noteq> CHR ''%'' then map_option (Cons (Plain c)) (uri_parts s)
      else (case s of
        a # b # r \<Rightarrow>
          (case unhex2 a b of None \<Rightarrow> None | Some x \<Rightarrow> map_option (Cons (Byte x)) (uri_parts r))
      | _ \<Rightarrow> None))"

fun decode_parts :: "uri_part list \<Rightarrow> string option" where
  "decode_parts [] = Some []"
| "decode_parts (Plain c # ps) = map_option (Cons c) (decode_parts ps)"
| "decode_parts (Byte x # ps) =
     (if x < 128 then map_option (Cons (char_of x)) (decode_parts ps)
      else if x = 194 \<or> x = 195 then
        (case ps of
           Byte y # qs \<Rightarrow>
             if 128 \<le> y \<and> y < 192
             then map_option (Cons (char_of (64 * (x - 192) + (y - 128)))) (decode_parts qs) else None
         | _ \<Rightarrow> None)
      else None)"

definition decodeURIComponent :: "string \<Rightarrow> string option" where
  "decodeURIComponent s = (case uri_parts s of None \<Rightarrow> None | Some ps \<Rightarrow> decode_parts ps)"

section \<open>Lemmas\<close>

lemma of_char_less_256: "of_char c < (256::nat)"
proof -
  have "of_char c < (2 ^ 8 :: nat)" unfolding of_char_def
    by (cases c) (simp add: horner_sum_of_bool_2_less)
  then show ?thesis by simp
qed

lemma unhex_hex_digit: "b < 16 \<Longrightarrow> unhex (hex_digit b) = Some b"
  by (auto simp: unhex_def hex_digit_def Let_def)

lemma unhex2_byte: "b < 256 \<Longrightarrow> unhex2 (hex_digit (b div 16)) (hex_digit (b mod 16)) = Some b"
  by (simp add: unhex2_def unhex_hex_digit)

lemma utf8_char_bytes: "x \<in> set (utf8_char c) \<Longrightarrow> x < 256"
proof -
  assume x: "x \<in> set (utf8_char c)"
  have "of_char c < (64 * 64 :: nat)" using of_char_less_256 [of c] by linarith
  then have "of_char c div 64 < (64::nat)" by (rule less_mult_imp_div_less)
  with x show ?thesis by (auto simp: utf8_char_def Let_def split: if_splits)
qed

lemma uri_parts_bytes:
  "(\<forall>x \<in> set bs. x < 256) \<Longrightarrow>
   uri_parts (concat (map percent bs) @ s) = map_option (append (map Byte bs)) (uri_parts s)"
proof (induction bs)
  case (Cons b bs)
  then show ?case
    by (simp add: percent_def unhex2_byte option.map_comp comp_def)
next
  case Nil
  have "append [] = (\<lambda>x. x)" by (simp add: fun_eq_iff)
  then show ?case by (simp only: list.map concat.simps append_Nil option.map_ident)
qed

lemma unreserved_plain: "uri_unreserved c \<Longrightarrow> c \<noteq> CHR ''%''"
  by (auto simp: uri_unreserved_def is_lower_az_def is_upper_az_def is_digit_def)

definition parts_of :: "char \<Rightarrow> uri_part list" where
  "parts_of c = (if uri_unreserved c then [Plain c] else map Byte (utf8_char c))"

lemma uri_parts_encode: "uri_parts (encodeURIComponent s) = Some (concat (map parts_of s))"
proof (induction s)
  case (Cons c s)
  then show ?case
    using uri_parts_bytes [of "utf8_char c" "encodeURIComponent s"] utf8_char_bytes [of _ c]
    by (auto simp: encodeURIComponent_def parts_of_def unreserved_plain)
qed (simp add: encodeURIComponent_def)

lemma char_of_of_char_nat: "char_of (of_char c :: nat) = c"
  by simp

lemma decode_parts_of: "decode_parts (parts_of c @ ps) = map_option (Cons c) (decode_parts ps)"
proof -
  let ?n = "of_char c :: nat"
  have n: "?n < 256" by (rule of_char_less_256)
  consider "uri_unreserved c" | "\<not> uri_unreserved c" "?n < 128" | "\<not> uri_unreserved c" "128 \<le> ?n" by linarith
  then show ?thesis
  proof cases
    case 3
    with n have d: "?n div 64 = 2 \<or> ?n div 64 = 3" by linarith
    have "64 * (?n div 64) + ?n mod 64 = ?n" by simp
    with d show ?thesis using 3
      by (auto simp: parts_of_def utf8_char_def Let_def simp del: mult_div_mod_eq)
  qed (simp_all add: parts_of_def utf8_char_def Let_def)
qed

lemma decode_encode [simp]: "decodeURIComponent (encodeURIComponent s) = Some s"
proof -
  have "decode_parts (concat (map parts_of s)) = Some s"
    by (induction s) (simp_all add: decode_parts_of)
  then show ?thesis by (simp add: decodeURIComponent_def uri_parts_encode)
qed

text \<open>An identifier needs no escape.\<close>

lemma encode_unreserved: "list_all uri_unreserved s \<Longrightarrow> encodeURIComponent s = s"
  by (induction s) (simp_all add: encodeURIComponent_def)

lemma utf8_inj [simp]: "utf8 s = utf8 t \<longleftrightarrow> s = t"
proof -
  have parts: "decode_parts (map Byte (utf8_char c) @ ps) = map_option (Cons c) (decode_parts ps)" for c ps
  proof (cases "uri_unreserved c")
    case False
    then show ?thesis using decode_parts_of [of c ps] by (simp add: parts_of_def)
  next
    case True
    then have "(of_char c :: nat) < 128"
      by (auto simp: uri_unreserved_def is_lower_az_def is_upper_az_def is_digit_def)
    then show ?thesis by (simp add: utf8_char_def Let_def)
  qed
  have "decode_parts (map Byte (utf8 u)) = Some u" for u
    by (induction u) (simp_all add: utf8_def parts)
  then show ?thesis by (metis option.inject)
qed

end
