(* ===== verification/Control.thy ===== *)
theory Control
  imports Control_Spec JsUri
begin

text \<open>
  \<open>RuntimeControlService\<close> (runtime-control/runtime-control.service.ts): every public method and
  the private ones they use. The log lines are left out; the clock readings that only feed a
  log line are kept, because they move the outside world. \<open>provision\<close> is cut at its early
  return into the path of a healthy existing runtime and the path that (re)creates the VM.
\<close>

section \<open>Small helpers\<close>

text \<open>The text of a thrown value.\<close>

definition errorMessage :: "exn \<Rightarrow> string" where
  "errorMessage e =
     (case e of
        HttpException _ m \<Rightarrow> m
      | JsError m \<Rightarrow> m
      | ThrownString m \<Rightarrow> m
      | ThrownNil \<Rightarrow> []
      | ThrownObject (Some m) \<Rightarrow> m
      | ThrownObject None \<Rightarrow> ''unknown error''
      | OutOfFuel \<Rightarrow> [])"

definition isTransientDetachedSetupError :: "exn \<Rightarrow> bool" where
  "isTransientDetachedSetupError e =
     (let message = errorMessage e in
      str_includes ''exec session ended without exit event'' message \<or>
      str_includes ''sandbox exec timed out'' message)"

definition firstPortBinding :: "portBinding list \<Rightarrow> exn + portBinding" where
  "firstPortBinding ports =
     (case ports of [] \<Rightarrow> Inl (ConflictException ''At least one port binding is required'')
      | b # _ \<Rightarrow> Inr b)"

definition normalizeStatus :: "string option \<Rightarrow> runtimeStatus" where
  "normalizeStatus status =
     (if status = Some ''running'' then Running
      else if status = Some ''stopped'' then Stopped
      else if status = Some ''draining'' then Draining
      else StatusError)"

definition findBinding :: "runtimeEntity \<Rightarrow> int \<Rightarrow> exn + portBinding" where
  "findBinding r p =
     (case find (\<lambda>b. pb_containerPort b = p) (rt_portBindings r) of
        None \<Rightarrow> Inl (NotFoundException
          (''Port '' @ int_digits p @ '' is not exposed for sandbox '' @ rt_sandboxId r))
      | Some b \<Rightarrow> Inr b)"

definition tokensEqual :: "string \<Rightarrow> string \<Rightarrow> bool" where
  "tokensEqual actual candidate =
     (let a = utf8 actual; c = utf8 candidate in length a = length c \<and> a = c)"

definition logProvisionStage :: "'v io \<Rightarrow> ('v sys, int) eff" where
  "logProvisionStage io = dateNow io"

section \<open>Look-ups\<close>

definition requireRuntime :: "'v io \<Rightarrow> string \<Rightarrow> ('v sys, runtimeEntity) eff" where
  "requireRuntime io sandboxIdOrName =
     bnd (findRuntimeBySandboxIdOrName io sandboxIdOrName) (\<lambda>runtime.
     case runtime of
       None \<Rightarrow> throw (NotFoundException (''Sandbox not found: '' @ sandboxIdOrName))
     | Some r \<Rightarrow> ret r)"

definition syncStatus :: "'v io \<Rightarrow> runtimeEntity \<Rightarrow> ('v sys, runtimeEntity) eff" where
  "syncStatus io r =
     bnd (outside (ad_getStatus (io_adapter io) (rt_sandboxName r))) (\<lambda>status.
     let normalized = normalizeStatus status in
     if normalized \<noteq> rt_status r then updateRuntime io r (\<lambda>x. x\<lparr>rt_status := normalized\<rparr>)
     else ret r)"

definition requireRunningRuntime :: "'v io \<Rightarrow> string \<Rightarrow> ('v sys, runtimeEntity) eff" where
  "requireRunningRuntime io sandboxIdOrName =
     bnd (bnd (requireRuntime io sandboxIdOrName) (syncStatus io)) (\<lambda>r.
     if rt_status r \<noteq> Running
     then throw (ConflictException (''Sandbox is not running: '' @ rt_sandboxId r))
     else ret r)"

definition ensurePreviewable :: "'v io \<Rightarrow> string \<Rightarrow> int \<Rightarrow> ('v sys, runtimeEntity) eff" where
  "ensurePreviewable io sandboxIdOrName p =
     bnd (requireRunningRuntime io sandboxIdOrName) (\<lambda>r.
     bnd (lift_sum (findBinding r p)) (\<lambda>_. ret r))"

definition resolveProxyTarget :: "runtimeEntity \<Rightarrow> int \<Rightarrow> exn + runtimeEntity \<times> int" where
  "resolveProxyTarget r p =
     (case findBinding r p of Inl e \<Rightarrow> Inl e | Inr b \<Rightarrow> Inr (r, pb_hostPort b))"

section \<open>Waiting for a port\<close>

text \<open>
  The polling loop, with a bound on its turns. \<open>waitForHealthy\<close> grants one turn more than the
  timeout has milliseconds, which is enough when every turn takes at least one.
\<close>

fun wait_loop :: "'v io \<Rightarrow> int \<Rightarrow> int \<Rightarrow> nat \<Rightarrow> ('v sys, bool) eff" where
  "wait_loop io p deadline 0 = throw OutOfFuel"
| "wait_loop io p deadline (Suc n) =
     bnd (outside (ad_isHealthy (io_adapter io) p)) (\<lambda>healthy.
     if healthy then ret True
     else bnd (setTimeoutMs io (runtimeReadyPollIntervalMs (io_config io))) (\<lambda>_.
       bnd (dateNow io) (\<lambda>now.
       if now < deadline then wait_loop io p deadline n else ret False)))"

definition waitForHealthy :: "'v io \<Rightarrow> int \<Rightarrow> ('v sys, bool) eff" where
  "waitForHealthy io p =
     bnd (dateNow io) (\<lambda>now.
     let timeout = runtimeReadyTimeoutMs (io_config io) in
     wait_loop io p (now + timeout) (Suc (nat timeout)))"

section \<open>Provisioning\<close>

text \<open>
  Early return of \<open>provision\<close>: an existing runtime that needs no replacement is asked for its
  health and, when healthy, only synchronised.
\<close>

definition provision_existing ::
  "'v io \<Rightarrow> ensureRuntimeDto \<Rightarrow> string option \<Rightarrow> runtimeSpec \<Rightarrow> runtimeEntity \<Rightarrow>
   ('v sys, runtimeSummary option) eff" where
  "provision_existing io input name spec current =
     bnd (outside (ad_getStatus (io_adapter io) (rt_sandboxName current))) (\<lambda>currentStatus.
     let primaryHostPort =
       (case find (\<lambda>b. pb_containerPort b = rt_primaryPort current) (rt_portBindings current) of
          None \<Rightarrow> rt_hostPort current | Some b \<Rightarrow> pb_hostPort b)
     in bnd (if currentStatus = Some ''running''
             then outside (ad_isHealthy (io_adapter io) primaryHostPort) else ret False) (\<lambda>currentHealthy.
     bnd (logProvisionStage io) (\<lambda>_.
     if currentHealthy then
       bnd (when_eff (rs_files spec \<noteq> [])
             (bnd (outside (ad_writeFiles (io_adapter io) (rt_sandboxName current) (rs_files spec))) (\<lambda>_.
              bnd (logProvisionStage io) (\<lambda>_. ret ())))) (\<lambda>_.
       bnd (if en_refreshActivity input = Some False then ret (rt_lastActiveAt current)
            else bnd (dateNow io) (\<lambda>now. ret (Some now))) (\<lambda>active.
       bnd (updateRuntime io current (\<lambda>r. r\<lparr>rt_name := name, rt_status := Running,
              rt_statusReason := (if rs_files spec \<noteq> [] then Some ''config_synced_existing''
                                  else rt_statusReason current),
              rt_lastActiveAt := active\<rparr>)) (\<lambda>runtime.
       bnd (logProvisionStage io) (\<lambda>_.
       bnd (dateNow io) (\<lambda>_. ret (Some (runtimeStatusSummary runtime)))))))
     else ret None)))"

text \<open>The columns that a replacement and a successful start copy from the specification.\<close>

definition copy_spec :: "runtimeSpec \<Rightarrow> runtimeEntity \<Rightarrow> runtimeEntity" where
  "copy_spec spec r = r
     \<lparr>rt_image := rs_image spec, rt_command := rs_command spec,
      rt_environment := Some (rs_env spec), rt_secrets := Some (rs_secrets spec),
      rt_workingDir := rs_workingDir spec, rt_mounts := Some (rs_mounts spec),
      rt_cpu := re_cpu (rs_resources spec), rt_memoryMiB := re_memoryMiB (rs_resources spec),
      rt_diskGiB := re_diskGiB (rs_resources spec),
      rt_autoStopMinutes := rs_autoStopMinutes spec, rt_ephemeral := rs_ephemeral spec\<rparr>"

definition provision_replace ::
  "'v io \<Rightarrow> ensureRuntimeDto \<Rightarrow> string option \<Rightarrow> runtimeSpec \<Rightarrow> runtimeEntity \<Rightarrow>
   ('v sys, runtimeEntity) eff" where
  "provision_replace io input name spec runtime =
     updateRuntime io runtime (\<lambda>r. copy_spec spec (r\<lparr>rt_name := name, rt_status := Provisioning,
       rt_statusReason := Some (if en_forceRecreate input = Some True then ''replacing_forced''
                                else ''replacing_spec_changed'')\<rparr>))"

text \<open>
  Host ports for the ports of a specification: the ports of the existing bindings by position,
  then the newly leased ones. \<open>leasePorts\<close> returns as many as are missing.
\<close>

fun merge_ports :: "portBinding list \<Rightarrow> int list \<Rightarrow> portBinding list \<Rightarrow> portBinding list" where
  "merge_ports es ls [] = []"
| "merge_ports (e # es) ls (b # bs) = b\<lparr>pb_hostPort := pb_hostPort e\<rparr> # merge_ports es ls bs"
| "merge_ports [] (h # hs) (b # bs) = b\<lparr>pb_hostPort := h\<rparr> # merge_ports [] hs bs"
| "merge_ports [] [] (b # bs) = b # merge_ports [] [] bs"

text \<open>The row of a new sandbox, before its ports are leased.\<close>

definition new_row ::
  "string \<Rightarrow> string option \<Rightarrow> string \<Rightarrow> runtimeSpec \<Rightarrow> portBinding \<Rightarrow> string \<Rightarrow> int \<Rightarrow> runtimeEntity" where
  "new_row sandboxId name vmName spec initialPrimaryPort authToken now =
     \<lparr>rt_id = [], rt_sandboxId = sandboxId, rt_name = name, rt_sandboxName = vmName,
      rt_runtimeHostId = localHostId, rt_portBindings = [],
      rt_primaryPort = pb_containerPort initialPrimaryPort, rt_hostPort = 0,
      rt_primaryPortProtocol = pb_protocol initialPrimaryPort, rt_public = rs_public spec,
      rt_authToken = authToken, rt_status = Provisioning, rt_image = rs_image spec,
      rt_command = rs_command spec, rt_environment = Some (rs_env spec),
      rt_secrets = Some (rs_secrets spec), rt_workingDir = rs_workingDir spec,
      rt_mounts = Some (rs_mounts spec), rt_cpu = re_cpu (rs_resources spec),
      rt_memoryMiB = re_memoryMiB (rs_resources spec), rt_diskGiB = re_diskGiB (rs_resources spec),
      rt_autoStopMinutes = rs_autoStopMinutes spec, rt_ephemeral = rs_ephemeral spec,
      rt_lastActiveAt = Some now, rt_statusReason = Some ''allocating_ports'',
      rt_createdAt = 0, rt_updatedAt = 0\<rparr>"

definition provision_new ::
  "'v io \<Rightarrow> string \<Rightarrow> string option \<Rightarrow> runtimeSpec \<Rightarrow> portBinding \<Rightarrow>
   ('v sys, runtimeEntity \<times> portBinding list) eff" where
  "provision_new io sandboxId name spec initialPrimaryPort =
     bnd (outside_pure (io_randomBase64url io 24)) (\<lambda>authToken.
     bnd (lift_sum (reg_sandboxName io sandboxId)) (\<lambda>vmName.
     bnd (dateNow io) (\<lambda>now.
     bnd (saveRuntime io (new_row sandboxId name vmName spec initialPrimaryPort authToken now)) (\<lambda>runtime.
     catching
       (bnd (leasePorts io (rt_id runtime) (int (length (rs_ports spec)))) (\<lambda>hps.
        ret (runtime, merge_ports [] hps (rs_ports spec))))
       (\<lambda>error. bnd (deleteRuntime io runtime) (\<lambda>_. throw error))))))"

definition assign_ports ::
  "'v io \<Rightarrow> runtimeEntity \<Rightarrow> portBinding list \<Rightarrow> ('v sys, portBinding list) eff" where
  "assign_ports io runtime ports =
     (if length (rt_portBindings runtime) = 0 then
        bnd (leasePorts io (rt_id runtime) (int (length ports))) (\<lambda>hps.
        ret (merge_ports [] hps ports))
      else
        (let newPortsCount = int (length ports) - int (length (rt_portBindings runtime)) in
         bnd (if newPortsCount > 0 then leasePorts io (rt_id runtime) newPortsCount else ret []) (\<lambda>hps.
         ret (merge_ports (rt_portBindings runtime) hps ports))))"

definition detached_input :: "runtimeEntity \<Rightarrow> runtimeSpec \<Rightarrow> portBinding list \<Rightarrow> createRuntimeInput" where
  "detached_input runtime spec ports =
     \<lparr>ci_sandboxName = rt_sandboxName runtime, ci_image = rs_image spec,
      ci_registryAuth = rs_registryAuth spec, ci_command = rs_command spec,
      ci_workingDir = rs_workingDir spec, ci_ports = ports, ci_mounts = rs_mountInputs spec,
      ci_cpu = re_cpu (rs_resources spec), ci_memoryMiB = re_memoryMiB (rs_resources spec),
      ci_diskGiB = re_diskGiB (rs_resources spec), ci_env = rs_env spec,
      ci_secrets = rs_secrets spec, ci_files = rs_files spec,
      ci_autoStopMinutes = rs_autoStopMinutes spec, ci_ssh = rs_ssh spec\<rparr>"

definition provision_start ::
  "'v io \<Rightarrow> ensureRuntimeDto \<Rightarrow> string option \<Rightarrow> runtimeSpec \<Rightarrow> runtimeEntity \<Rightarrow> portBinding list \<Rightarrow>
   ('v sys, runtimeSummary) eff" where
  "provision_start io input name spec runtime ports =
     bnd (catching
           (bnd (outside (ad_createDetachedRuntime (io_adapter io) (detached_input runtime spec ports))) (\<lambda>_.
            bnd (logProvisionStage io) (\<lambda>_. ret ())))
           (\<lambda>error. if \<not> isTransientDetachedSetupError error then throw error else ret ())) (\<lambda>_.
     bnd (lift_sum (firstPortBinding ports)) (\<lambda>primary.
     let primaryHostPort = pb_hostPort primary in
     bnd (waitForHealthy io primaryHostPort) (\<lambda>appHealthy.
     bnd (logProvisionStage io) (\<lambda>_.
     let sshBinding = (if rs_ssh spec = Some True
        then find (\<lambda>b. pb_name b = Some ''ssh'' \<or> pb_containerPort b = 22) ports else None) in
     bnd (case sshBinding of None \<Rightarrow> ret True | Some b \<Rightarrow> waitForHealthy io (pb_hostPort b)) (\<lambda>sshHealthy.
     bnd (logProvisionStage io) (\<lambda>_.
     let healthy = (appHealthy \<and> sshHealthy) in
     bnd (if en_refreshActivity input = Some False then ret (rt_lastActiveAt runtime)
          else bnd (dateNow io) (\<lambda>now. ret (Some now))) (\<lambda>active.
     bnd (updateRuntime io runtime (\<lambda>r. copy_spec spec (r
            \<lparr>rt_name := name, rt_portBindings := ports, rt_primaryPort := pb_containerPort primary,
             rt_hostPort := primaryHostPort, rt_primaryPortProtocol := pb_protocol primary,
             rt_public := rs_public spec, rt_status := (if healthy then Running else StatusError),
             rt_statusReason := Some (if healthy then ''provisioned''
                else if \<not> appHealthy then ''runtime_unhealthy'' else ''ssh_unhealthy''),
             rt_lastActiveAt := active\<rparr>))) (\<lambda>runtime'.
     bnd (logProvisionStage io) (\<lambda>_.
     bnd (dateNow io) (\<lambda>_. ret (runtimeStatusSummary runtime')))))))))))"

definition provision :: "'v io \<Rightarrow> ensureRuntimeDto \<Rightarrow> ('v sys, runtimeSummary) eff" where
  "provision io input =
     (let sandboxId = the (en_sandboxId input) in
      bnd (dateNow io) (\<lambda>_.
      bnd (lift_sum (normalizeName (in_name input))) (\<lambda>name.
      bnd (case name of
             None \<Rightarrow> ret ()
           | Some n \<Rightarrow>
               bnd (findRuntimeBySandboxIdOrName io n) (\<lambda>existingByName.
               case existingByName of
                 None \<Rightarrow> ret ()
               | Some x \<Rightarrow> when_eff (rt_sandboxId x \<noteq> sandboxId)
                   (throw (ConflictException (''Sandbox name already exists: '' @ n))))) (\<lambda>_.
      bnd (findRuntimeBySandboxId io sandboxId) (\<lambda>found.
      bnd (logProvisionStage io) (\<lambda>_.
      bnd (buildSpec io input) (\<lambda>spec.
      bnd (logProvisionStage io) (\<lambda>_.
      bnd (lift_sum (firstPortBinding (rs_ports spec))) (\<lambda>initialPrimaryPort.
      case found of
        None \<Rightarrow>
          bnd (provision_new io sandboxId name spec initialPrimaryPort) (\<lambda>(runtime, ports).
          bnd (assign_ports io runtime ports) (\<lambda>ports'.
          provision_start io input name spec runtime ports'))
      | Some current \<Rightarrow>
          if en_forceRecreate input = Some True \<or> requiresRecreate current spec name then
            bnd (provision_replace io input name spec current) (\<lambda>runtime.
            bnd (assign_ports io runtime (rs_ports spec)) (\<lambda>ports.
            provision_start io input name spec runtime ports))
          else
            bnd (provision_existing io input name spec current) (\<lambda>early.
            case early of
              Some summary \<Rightarrow> ret summary
            | None \<Rightarrow>
                bnd (assign_ports io current (rs_ports spec)) (\<lambda>ports.
                provision_start io input name spec current ports)))))))))))"

section \<open>Sandboxes\<close>

definition control_create :: "'v io \<Rightarrow> sandboxSpecDto \<Rightarrow> ('v sys, runtimeSummary) eff" where
  "control_create io input =
     bnd (lift_sum (normalizeName (in_name input))) (\<lambda>name.
     bnd (case name of
            None \<Rightarrow> ret ()
          | Some n \<Rightarrow>
              bnd (findRuntimeBySandboxIdOrName io n) (\<lambda>existing.
              case existing of
                None \<Rightarrow> ret ()
              | Some _ \<Rightarrow> throw (ConflictException (''Sandbox name already exists: '' @ n)))) (\<lambda>_.
     bnd (createSandboxId io name) (\<lambda>sandboxId.
     provision io (sandboxSpecDto.extend input
       (ensureRuntimeDto.fields (Some sandboxId) (Some False) (Some True))))))"

definition control_ensure :: "'v io \<Rightarrow> ensureRuntimeDto \<Rightarrow> ('v sys, runtimeSummary) eff" where
  "control_ensure io input =
     bnd (createSandboxId io (or_opt (en_sandboxId input) (in_name input))) (\<lambda>sandboxId.
     provision io (input\<lparr>en_sandboxId := Some sandboxId\<rparr>))"

definition control_update :: "'v io \<Rightarrow> string \<Rightarrow> updateSandboxDto \<Rightarrow> ('v sys, runtimeSummary) eff" where
  "control_update io sandboxId input =
     bnd (findRuntimeBySandboxId io sandboxId) (\<lambda>runtime.
     case runtime of
       None \<Rightarrow> throw (NotFoundException (''Sandbox not found: '' @ sandboxId))
     | Some r \<Rightarrow> provision io (buildUpdateInput r input))"

definition control_list :: "'v io \<Rightarrow> ('v sys, runtimeSummary list) eff" where
  "control_list io = bnd (listRuntimes io) (\<lambda>rs. ret (map runtimeStatusSummary rs))"

definition control_get :: "'v io \<Rightarrow> string \<Rightarrow> ('v sys, runtimeSummary) eff" where
  "control_get io sandboxIdOrName =
     bnd (requireRuntime io sandboxIdOrName) (\<lambda>runtime.
     bnd (syncStatus io runtime) (\<lambda>r. ret (runtimeStatusSummary r)))"

definition control_start :: "'v io \<Rightarrow> string \<Rightarrow> ('v sys, runtimeSummary) eff" where
  "control_start io sandboxIdOrName =
     bnd (requireRuntime io sandboxIdOrName) (\<lambda>runtime.
     bnd (outside (ad_start (io_adapter io) (rt_sandboxName runtime) (rt_command runtime)
            (rt_workingDir runtime))) (\<lambda>_.
     bnd (setRuntimeStatus io runtime Running (Some ''manual:start'')) (\<lambda>r.
     ret (runtimeStatusSummary r))))"

definition control_stop :: "'v io \<Rightarrow> string \<Rightarrow> ('v sys, runtimeSummary) eff" where
  "control_stop io sandboxIdOrName =
     bnd (requireRuntime io sandboxIdOrName) (\<lambda>runtime.
     bnd (outside (ad_stop (io_adapter io) (rt_sandboxName runtime))) (\<lambda>_.
     bnd (setRuntimeStatus io runtime Stopped (Some ''manual:stop'')) (\<lambda>r.
     ret (runtimeStatusSummary r))))"

text \<open>The response of \<open>delete\<close> is the sandbox id with \<open>deleted: true\<close>.\<close>

definition control_delete :: "'v io \<Rightarrow> string \<Rightarrow> ('v sys, string \<times> bool) eff" where
  "control_delete io sandboxIdOrName =
     bnd (requireRuntime io sandboxIdOrName) (\<lambda>runtime.
     bnd (setRuntimeStatus io runtime Deleting (Some ''delete_requested'')) (\<lambda>_.
     bnd (outside (ad_remove (io_adapter io) (rt_sandboxName runtime))) (\<lambda>_.
     bnd (releasePorts io (rt_id runtime)) (\<lambda>_.
     bnd (deleteRuntime io runtime) (\<lambda>_.
     ret (rt_sandboxId runtime, True))))))"

section \<open>Volumes and images\<close>

record volumeSummaryRec =
  vs_volumeId :: string
  vs_name :: string
  vs_quotaMiB :: "int option"
  vs_createdAt :: "string option"
  vs_updatedAt :: "string option"

definition volumeSummary :: "volumeEntity \<Rightarrow> volumeSummaryRec" where
  "volumeSummary v =
     \<lparr>vs_volumeId = vo_id v, vs_name = vo_name v, vs_quotaMiB = vo_quotaMiB v,
      vs_createdAt = Some (toISOString (vo_createdAt v)),
      vs_updatedAt = Some (toISOString (vo_updatedAt v))\<rparr>"

definition control_createVolume ::
  "'v io \<Rightarrow> string \<Rightarrow> int option \<Rightarrow> ('v sys, volumeSummaryRec) eff" where
  "control_createVolume io inputName quotaMiB =
     bnd (lift_sum (normalizeName (Some inputName))) (\<lambda>name.
     case name of
       None \<Rightarrow> throw (ConflictException ''Volume name is required'')
     | Some n \<Rightarrow>
         bnd (findVolumeByIdOrName io n) (\<lambda>existing.
         case existing of
           Some _ \<Rightarrow> throw (ConflictException (''Volume name already exists: '' @ n))
         | None \<Rightarrow>
             bnd (createSandboxId io (Some n)) (\<lambda>volumeId.
             bnd (lift_sum (volumeBackendName io volumeId)) (\<lambda>backend.
             bnd (saveVolume io \<lparr>vo_id = [], vo_name = n, vo_backendName = backend,
                    vo_quotaMiB = quotaMiB, vo_createdAt = 0, vo_updatedAt = 0\<rparr>) (\<lambda>volume.
             bnd (catching
                   (outside (ad_ensureVolume (io_adapter io) (vo_backendName volume) (vo_quotaMiB volume)))
                   (\<lambda>error. bnd (catching (reg_deleteVolume io volume) (\<lambda>_. ret ())) (\<lambda>_. throw error))) (\<lambda>_.
             ret (volumeSummary volume)))))))"

definition control_listVolumes :: "'v io \<Rightarrow> ('v sys, volumeSummaryRec list) eff" where
  "control_listVolumes io = bnd (reg_listVolumes io) (\<lambda>vs. ret (map volumeSummary vs))"

definition control_getVolume :: "'v io \<Rightarrow> string \<Rightarrow> ('v sys, volumeSummaryRec) eff" where
  "control_getVolume io x = bnd (requireVolume io x) (\<lambda>v. ret (volumeSummary v))"

definition control_deleteVolume :: "'v io \<Rightarrow> string \<Rightarrow> ('v sys, string \<times> bool) eff" where
  "control_deleteVolume io x =
     bnd (requireVolume io x) (\<lambda>v.
     bnd (outside (ad_removeVolume (io_adapter io) (vo_backendName v))) (\<lambda>_.
     bnd (reg_deleteVolume io v) (\<lambda>_. ret (vo_id v, True))))"

definition control_listImages :: "'v io \<Rightarrow> ('v sys, imageInfo list) eff" where
  "control_listImages io = outside (ad_listCachedImages (io_adapter io))"

definition control_pullImage ::
  "'v io \<Rightarrow> string option \<Rightarrow> registryAuth option \<Rightarrow> ('v sys, imageInfo \<times> bool) eff" where
  "control_pullImage io reference auth =
     (if trim (or_else reference []) = []
      then throw (BadRequestException ''Image reference is required'')
      else outside (ad_pullImage (io_adapter io) (the reference) auth))"

section \<open>Preview access\<close>

record previewUrl =
  pu_sandboxId :: string
  pu_port :: int
  pu_url :: string
  pu_token :: string
  pu_headerName :: "string option"
  pu_expiresAt :: "string option"

definition strip_slashes :: "string \<Rightarrow> string" where
  "strip_slashes s = drop_end (\<lambda>c. c = CHR ''/'') s"

definition getPreviewUrl :: "'v io \<Rightarrow> string \<Rightarrow> int \<Rightarrow> ('v sys, previewUrl) eff" where
  "getPreviewUrl io sandboxIdOrName p =
     bnd (ensurePreviewable io sandboxIdOrName p) (\<lambda>r.
     let baseUrl = strip_slashes (proxyBaseUrl (io_config io)) in
     ret \<lparr>pu_sandboxId = rt_sandboxId r, pu_port = p,
          pu_url = baseUrl @ ''/proxy/'' @ encodeURIComponent (rt_sandboxId r) @ ''/ports/'' @ int_digits p,
          pu_token = rt_authToken r, pu_headerName = Some ''x-microsandbox-preview-token'',
          pu_expiresAt = None\<rparr>)"

definition getSignedPreviewUrl :: "'v io \<Rightarrow> string \<Rightarrow> int \<Rightarrow> ('v sys, previewUrl) eff" where
  "getSignedPreviewUrl io sandboxIdOrName p =
     bnd (ensurePreviewable io sandboxIdOrName p) (\<lambda>r.
     bnd (createSignedPreviewToken io (rt_sandboxId r) p (connectionTtlSeconds (io_config io))) (\<lambda>tk.
     let baseUrl = strip_slashes (proxyBaseUrl (io_config io)) in
     ret \<lparr>pu_sandboxId = rt_sandboxId r, pu_port = p,
          pu_url = baseUrl @ ''/proxy/signed/'' @ encodeURIComponent (sp_token tk) @ ''/ports/'' @ int_digits p,
          pu_token = sp_token tk, pu_headerName = None,
          pu_expiresAt = Some (toISOString (sp_expiresAt tk))\<rparr>))"

definition expireSignedPreviewUrl ::
  "'v io \<Rightarrow> string \<Rightarrow> int \<Rightarrow> string \<Rightarrow> ('v sys, string \<times> int \<times> string \<times> bool) eff" where
  "expireSignedPreviewUrl io sandboxIdOrName p token =
     bnd (requireRuntime io sandboxIdOrName) (\<lambda>r.
     bnd (getSignedPreviewToken io token p) (\<lambda>rec.
     if (case rec of None \<Rightarrow> True | Some k \<Rightarrow> sp_sandboxId k \<noteq> rt_sandboxId r)
     then throw (NotFoundException ''Signed preview token not found'')
     else bnd (expireSignedPreviewToken io token p) (\<lambda>_. ret (rt_sandboxId r, p, token, True))))"

definition getPreviewPublicState :: "'v io \<Rightarrow> string \<Rightarrow> ('v sys, string \<times> bool) eff" where
  "getPreviewPublicState io sandboxId =
     bnd (requireRuntime io sandboxId) (\<lambda>r. ret (rt_sandboxId r, rt_public r))"

definition validatePreviewToken :: "'v io \<Rightarrow> string \<Rightarrow> string \<Rightarrow> ('v sys, string \<times> bool) eff" where
  "validatePreviewToken io sandboxId token =
     bnd (requireRuntime io sandboxId) (\<lambda>r.
     if \<not> tokensEqual (rt_authToken r) token
     then throw (UnauthorizedException ''Invalid preview token'')
     else ret (rt_sandboxId r, True))"

definition resolveSignedPreviewToken :: "'v io \<Rightarrow> string \<Rightarrow> int \<Rightarrow> ('v sys, string \<times> int) eff" where
  "resolveSignedPreviewToken io token p =
     bnd (getSignedPreviewToken io token p) (\<lambda>rec.
     bnd (case rec of None \<Rightarrow> ret True | Some k \<Rightarrow> hasSignedPreviewTokenExpired io k) (\<lambda>gone.
     if gone then
       bnd (when_eff (rec \<noteq> None) (expireSignedPreviewToken io token p)) (\<lambda>_.
       throw (NotFoundException ''Signed preview token not found''))
     else ret (sp_sandboxId (the rec), p)))"

definition validateProxyAccessBySandbox ::
  "'v io \<Rightarrow> string \<Rightarrow> int \<Rightarrow> string option \<Rightarrow> ('v sys, runtimeEntity \<times> int) eff" where
  "validateProxyAccessBySandbox io sandboxId p token =
     bnd (requireRuntime io sandboxId) (\<lambda>r.
     if \<not> rt_public r \<and>
        (case token of None \<Rightarrow> True | Some t \<Rightarrow> t = [] \<or> \<not> tokensEqual (rt_authToken r) t)
     then throw (UnauthorizedException ''Missing or invalid preview token'')
     else lift_sum (resolveProxyTarget r p))"

definition validateProxyAccessBySignedToken ::
  "'v io \<Rightarrow> string \<Rightarrow> int \<Rightarrow> ('v sys, runtimeEntity \<times> int) eff" where
  "validateProxyAccessBySignedToken io token p =
     bnd (resolveSignedPreviewToken io token p) (\<lambda>(sandboxId, _).
     bnd (requireRuntime io sandboxId) (\<lambda>r.
     lift_sum (resolveProxyTarget r p)))"

section \<open>Running commands and moving files\<close>

definition touchActivity :: "'v io \<Rightarrow> runtimeEntity \<Rightarrow> ('v sys, runtimeEntity) eff" where
  "touchActivity io r =
     bnd (dateNow io) (\<lambda>now. updateRuntime io r (\<lambda>x. x\<lparr>rt_lastActiveAt := Some now\<rparr>))"

definition control_exec ::
  "'v io \<Rightarrow> string \<Rightarrow> string \<Rightarrow> string list \<Rightarrow> ('v sys, string \<times> string \<times> execResult) eff" where
  "control_exec io sandboxIdOrName command args =
     bnd (requireRunningRuntime io sandboxIdOrName) (\<lambda>r.
     bnd (outside (ad_exec (io_adapter io) (rt_sandboxName r) command args)) (\<lambda>result.
     bnd (touchActivity io r) (\<lambda>_. ret (rt_sandboxId r, rt_sandboxName r, result))))"

definition control_refreshActivity :: "'v io \<Rightarrow> string \<Rightarrow> ('v sys, runtimeSummary) eff" where
  "control_refreshActivity io sandboxIdOrName =
     bnd (requireRunningRuntime io sandboxIdOrName) (\<lambda>r.
     bnd (outside (ad_refreshActivity (io_adapter io) (rt_sandboxName r))) (\<lambda>_.
     bnd (touchActivity io r) (\<lambda>updated. ret (runtimeStatusSummary updated))))"

definition control_writeFiles :: "'v io \<Rightarrow> string \<Rightarrow> runtimeFile list \<Rightarrow> ('v sys, runtimeSummary) eff" where
  "control_writeFiles io sandboxIdOrName files =
     bnd (requireRunningRuntime io sandboxIdOrName) (\<lambda>r.
     bnd (outside (ad_writeFiles (io_adapter io) (rt_sandboxName r) (buildRuntimeFiles files))) (\<lambda>_.
     bnd (touchActivity io r) (\<lambda>updated. ret (runtimeStatusSummary updated))))"

definition control_downloadFiles ::
  "'v io \<Rightarrow> string \<Rightarrow> string list \<Rightarrow> ('v sys, string \<times> runtimeFile list) eff" where
  "control_downloadFiles io sandboxIdOrName paths =
     bnd (requireRunningRuntime io sandboxIdOrName) (\<lambda>r.
     bnd (outside (ad_readFiles (io_adapter io) (rt_sandboxName r) paths)) (\<lambda>files.
     bnd (touchActivity io r) (\<lambda>_. ret (rt_sandboxId r, files))))"

end
