(* ===== verification/Control_Facts.thy ===== *)
theory Control_Facts
  imports Control
begin

text \<open>
  What \<open>RuntimeControlService\<close> guarantees: all its methods keep the constraints of the tables,
  the polling loop ends, and the checks in front of a sandbox (status, preview token, signed
  token, port) let through exactly what they should.
\<close>

section \<open>All methods keep the tables\<close>

lemmas control_methods = control_create_def control_ensure_def control_update_def control_list_def
  control_get_def control_start_def control_stop_def control_delete_def control_createVolume_def
  control_listVolumes_def control_getVolume_def control_deleteVolume_def control_listImages_def
  control_pullImage_def getPreviewUrl_def getSignedPreviewUrl_def expireSignedPreviewUrl_def
  getPreviewPublicState_def validatePreviewToken_def resolveSignedPreviewToken_def
  validateProxyAccessBySandbox_def validateProxyAccessBySignedToken_def control_exec_def
  control_refreshActivity_def control_writeFiles_def control_downloadFiles_def

lemmas control_helpers = requireRuntime_def syncStatus_def requireRunningRuntime_def
  ensurePreviewable_def touchActivity_def logProvisionStage_def waitForHealthy_def
  provision_existing_def provision_replace_def provision_new_def assign_ports_def
  provision_start_def provision_def requireVolume_def buildSpec_def

context database begin

lemma keeps_tables_wait [keeps_intros]: "keeps tables_ok (wait_loop io p d n)"
  by (induction n) (simp_all only: wait_loop.simps, (intro keeps_intros | assumption)+)

lemma keeps_tables_volumes [keeps_intros]: "keeps tables_ok (resolveVolumes io ms)"
  by (induction ms) (simp_all only: resolveVolumes.simps requireVolume_def, (intro keeps_intros | assumption)+)

lemma keeps_tables_provision [keeps_intros]: "keeps tables_ok (provision io i)"
  unfolding control_helpers by (intro keeps_intros)

lemma keeps_tables_helpers [keeps_intros]:
  "keeps tables_ok (requireRuntime io x)" "keeps tables_ok (requireRunningRuntime io x)"
  "keeps tables_ok (ensurePreviewable io x p)" "keeps tables_ok (requireVolume io x)"
  "keeps tables_ok (syncStatus io r)" "keeps tables_ok (touchActivity io r)"
  unfolding control_helpers by (intro keeps_intros)+

lemma keeps_tables_methods [keeps_intros]:
  "keeps tables_ok (control_create io c)" "keeps tables_ok (control_ensure io i)"
  "keeps tables_ok (control_update io x u)" "keeps tables_ok (control_list io)"
  "keeps tables_ok (control_get io x)" "keeps tables_ok (control_start io x)"
  "keeps tables_ok (control_stop io x)" "keeps tables_ok (control_delete io x)"
  "keeps tables_ok (control_createVolume io x quota)" "keeps tables_ok (control_listVolumes io)"
  "keeps tables_ok (control_getVolume io x)" "keeps tables_ok (control_deleteVolume io x)"
  "keeps tables_ok (control_listImages io)" "keeps tables_ok (control_pullImage io ref auth)"
  "keeps tables_ok (getPreviewUrl io x p)" "keeps tables_ok (getSignedPreviewUrl io x p)"
  "keeps tables_ok (expireSignedPreviewUrl io x p k)" "keeps tables_ok (getPreviewPublicState io x)"
  "keeps tables_ok (validatePreviewToken io x k)" "keeps tables_ok (resolveSignedPreviewToken io k p)"
  "keeps tables_ok (validateProxyAccessBySandbox io x p ko)"
  "keeps tables_ok (validateProxyAccessBySignedToken io k p)"
  "keeps tables_ok (control_exec io x cmd args)" "keeps tables_ok (control_refreshActivity io x)"
  "keeps tables_ok (control_writeFiles io x files)" "keeps tables_ok (control_downloadFiles io x args)"
  unfolding control_methods by (intro keeps_intros)+

end

section \<open>The ports of a provisioned sandbox\<close>

text \<open>
  Whatever way \<open>provision\<close> takes, the container ports in its answer are those of the specification, so
  they are decided by the request. The state plays no part in this.
\<close>

lemma keeps_any: "keeps (\<lambda>_. True) m"
  by (rule keepsI) simp

lemma post_any_then: "(\<And>x. post (\<lambda>_. True) (f x) Q (\<lambda>_ _. True)) \<Longrightarrow> post (\<lambda>_. True) (bnd m f) Q (\<lambda>_ _. True)"
  by (rule post_then [OF keeps_any]) simp_all

lemma post_any_bnd:
  "post (\<lambda>_. True) m (\<lambda>x _. R x) (\<lambda>_ _. True) \<Longrightarrow> (\<And>x. R x \<Longrightarrow> post (\<lambda>_. True) (f x) Q (\<lambda>_ _. True)) \<Longrightarrow>
   post (\<lambda>_. True) (bnd m f) Q (\<lambda>_ _. True)"
  by (rule post_bnd [where R = "\<lambda>x _. R x"]) (auto simp: post_def split: prod.splits sum.splits)

lemma post_any_I: "(\<And>s x t. m s = (Inr x, t) \<Longrightarrow> Q x) \<Longrightarrow> post (\<lambda>_. True) m (\<lambda>x _. Q x) (\<lambda>_ _. True)"
  by (rule postI) auto

abbreviation container_ports :: "portBinding list \<Rightarrow> int list" where
  "container_ports \<equiv> map pb_containerPort"

lemma merge_ports_containers [simp]: "container_ports (merge_ports es hs bs) = container_ports bs"
  by (induction es hs bs rule: merge_ports.induct) simp_all

lemma assign_ports_containers:
  "post (\<lambda>_. True) (assign_ports io r ports) (\<lambda>ps _. container_ports ps = container_ports ports) (\<lambda>_ _. True)"
  unfolding assign_ports_def Let_def
  by (intro post_if post_any_then post_ret) simp_all

lemma provision_new_containers:
  "post (\<lambda>_. True) (provision_new io sid name spec primary)
     (\<lambda>x _. container_ports (snd x) = container_ports (rs_ports spec)) (\<lambda>_ _. True)"
  unfolding provision_new_def
  by (intro post_any_then post_catching [where R = "\<lambda>_ _. True"] post_ret post_throw) simp_all

lemma same_binding_containers: "list_all2 same_binding bs bs' \<Longrightarrow> container_ports bs = container_ports bs'"
  by (induction bs bs' rule: list_all2_induct) (auto simp: same_binding_def)

lemma with_stored_containers: "container_ports (with_stored_ports r bs) = container_ports bs"
  by (rule nth_equalityI) (simp_all add: with_stored_ports_def)

context database begin

lemma updateRuntime_bindings:
  "post (\<lambda>_. True) (updateRuntime io r f) (\<lambda>x _. rt_portBindings x = rt_portBindings (f r)) (\<lambda>_ _. True)"
proof (rule post_any_I)
  fix s x t assume "updateRuntime io r f s = (Inr x, t)"
  then show "rt_portBindings x = rt_portBindings (f r)"
    by (cases rule: rt.save_cases [of "runtimes s" "f r"])
      (auto simp: updateRuntime_def runtime_save_def runtime_touch_def)
qed

lemma provision_start_containers:
  "post (\<lambda>_. True) (provision_start io input name spec r ports)
     (\<lambda>sum _. container_ports (su_portBindings sum) = container_ports ports) (\<lambda>_ _. True)"
proof -
  have fin: "post (\<lambda>_. True) (bnd (updateRuntime io r f) (\<lambda>x. bnd (logProvisionStage io) (\<lambda>_. bnd (dateNow io) (\<lambda>_.
      ret (runtimeStatusSummary x)))))
     (\<lambda>sum _. container_ports (su_portBindings sum) = container_ports ports) (\<lambda>_ _. True)"
    if "rt_portBindings (f r) = ports" for f
    by (rule post_any_bnd [OF updateRuntime_bindings], intro post_any_then post_ret)
      (simp add: that runtimeStatusSummary_def Let_def)
  show ?thesis
    unfolding provision_start_def Let_def by (intro post_any_then fin) (simp add: copy_spec_def)
qed

lemma provision_existing_containers:
  "post (\<lambda>_. True) (provision_existing io input name spec current)
     (\<lambda>x _. \<forall>sum. x = Some sum \<longrightarrow> su_portBindings sum = rt_portBindings current) (\<lambda>_ _. True)"
proof -
  have fin: "post (\<lambda>_. True) (bnd (updateRuntime io current f) (\<lambda>x. bnd (logProvisionStage io) (\<lambda>_. bnd (dateNow io) (\<lambda>_.
      ret (Some (runtimeStatusSummary x))))))
     (\<lambda>x _. \<forall>sum. x = Some sum \<longrightarrow> su_portBindings sum = rt_portBindings current) (\<lambda>_ _. True)"
    if "rt_portBindings (f current) = rt_portBindings current" for f
    by (rule post_any_bnd [OF updateRuntime_bindings], intro post_any_then post_ret)
      (simp add: that runtimeStatusSummary_def Let_def)
  show ?thesis
    unfolding provision_existing_def Let_def by (intro post_any_then post_if post_ret fin) simp_all
qed

lemma provision_containers:
  defines "ps \<equiv> \<lambda>input. requested_ports (io_config io) input"
  shows "post (\<lambda>_. True) (provision io input)
     (\<lambda>sum _. container_ports (su_portBindings sum) =
        ps input @ (if refuses_ssh input \<or> 22 \<in> set (ps input) then [] else [22])) (\<lambda>_ _. True)"
proof -
  define all where "all = ps input @ (if refuses_ssh input \<or> 22 \<in> set (ps input) then [] else [22])"
  let ?Q = "\<lambda>bs. container_ports bs = all"
  have spec: "post (\<lambda>_. True) (buildSpec io input) (\<lambda>spec _. ?Q (rs_ports spec)) (\<lambda>_ _. True)"
    by (rule post_any_I) (simp add: all_def ps_def buildSpec_ports(2))
  have start: "post (\<lambda>_. True) (bnd (assign_ports io r ports) (\<lambda>ports'. provision_start io input name spec r ports'))
      (\<lambda>sum _. ?Q (su_portBindings sum)) (\<lambda>_ _. True)" if "?Q ports" for r ports name spec
    by (rule post_any_bnd [OF assign_ports_containers], rule post_weaken [OF provision_start_containers])
      (simp_all add: that)
  have kept: "?Q (rt_portBindings r)" if "?Q (rs_ports spec)" "\<not> requiresRecreate r spec nm" for r spec nm
    using that(2) same_binding_containers [of "rt_portBindings r" "with_stored_ports r (rs_ports spec)"]
    unfolding requiresRecreate_iff with_stored_containers that(1) by blast
  have new: "post (\<lambda>_. True) (bnd (provision_new io sid name spec primary) (\<lambda>(r, ports).
        bnd (assign_ports io r ports) (\<lambda>ports'. provision_start io input name spec r ports')))
      (\<lambda>sum _. ?Q (su_portBindings sum)) (\<lambda>_ _. True)" if "?Q (rs_ports spec)" for sid name spec primary
    by (rule post_any_bnd [OF provision_new_containers], simp only: split_beta)
      (rule start, simp only: that)
  have early: "post (\<lambda>_. True) (bnd (provision_existing io input name spec current) (\<lambda>early.
        case early of Some summary \<Rightarrow> ret summary
        | None \<Rightarrow> bnd (assign_ports io current (rs_ports spec)) (\<lambda>ports.
            provision_start io input name spec current ports)))
      (\<lambda>sum _. ?Q (su_portBindings sum)) (\<lambda>_ _. True)"
    if "?Q (rs_ports spec)" "\<not> requiresRecreate current spec name" for name spec current
    by (rule post_any_bnd [OF provision_existing_containers])
      (auto simp: kept [OF that] that(1) intro!: start post_ret split: option.split)
  have body: "post (\<lambda>_. True)
      (case found of
        None \<Rightarrow> bnd (provision_new io sid name spec primary) (\<lambda>(r, ports).
          bnd (assign_ports io r ports) (\<lambda>ports'. provision_start io input name spec r ports'))
      | Some current \<Rightarrow>
          if en_forceRecreate input = Some True \<or> requiresRecreate current spec name then
            bnd (provision_replace io input name spec current) (\<lambda>runtime.
            bnd (assign_ports io runtime (rs_ports spec)) (\<lambda>ports.
            provision_start io input name spec runtime ports))
          else bnd (provision_existing io input name spec current) (\<lambda>early.
            case early of Some summary \<Rightarrow> ret summary
            | None \<Rightarrow> bnd (assign_ports io current (rs_ports spec)) (\<lambda>ports.
                provision_start io input name spec current ports)))
      (\<lambda>sum _. ?Q (su_portBindings sum)) (\<lambda>_ _. True)" if "?Q (rs_ports spec)" for found sid name spec primary
  proof (cases found)
    case None
    with new [OF that] show ?thesis by simp
  next
    case (Some current)
    with early [OF that, of current name] post_any_then [OF start [OF that]] show ?thesis
      by (auto intro!: post_if)
  qed
  show ?thesis
    unfolding all_def [symmetric] provision_def Let_def
    by (intro post_any_then post_any_bnd [OF spec] body)
qed

end

section \<open>The polling loop ends\<close>

text \<open>
  What the loop relies on: the clock does not run backwards, a timer takes at least one
  millisecond and at least its delay, and a health check has no budget of its own to exhaust.
\<close>

locale clocked =
  fixes io :: "'v io" and time :: "'v \<Rightarrow> int"
  assumes now_time: "io_now io v = (n, w) \<Longrightarrow> n = time v \<and> time v \<le> time w"
    and sleep_time: "time v + max 1 ms \<le> time (io_sleep io ms v)"
    and health_time: "ad_isHealthy (io_adapter io) p v = (q, w) \<Longrightarrow> time v \<le> time w"
    and health_ends: "ad_isHealthy (io_adapter io) p v \<noteq> (Inl OutOfFuel, w)"
begin

lemma wait_loop_run:
  "deadline < time (ext s) + int n \<Longrightarrow> 0 < n \<Longrightarrow>
   case wait_loop io p deadline n s of
     (Inr True, t) \<Rightarrow> \<exists>v. ad_isHealthy (io_adapter io) p v = (Inr True, ext t)
   | (Inr False, t) \<Rightarrow> deadline \<le> time (ext t)
   | (Inl e, t) \<Rightarrow> e \<noteq> OutOfFuel \<and> (\<exists>v. ad_isHealthy (io_adapter io) p v = (Inl e, ext t))"
proof (induction n arbitrary: s)
  case (Suc n)
  obtain q v where h: "ad_isHealthy (io_adapter io) p (ext s) = (q, v)" by fastforce
  have v: "time (ext s) \<le> time v" by (rule health_time [OF h])
  define ms where "ms = runtimeReadyPollIntervalMs (io_config io)"
  define u where "u = io_sleep io ms v"
  have u: "time v + 1 \<le> time u" using sleep_time [of v ms] by (simp add: u_def)
  obtain now w where now: "io_now io u = (now, w)" by fastforce
  have w: "now = time u" "time u \<le> time w" using now_time [OF now] by simp_all
  show ?case
  proof (cases q)
    case (Inl e)
    with h health_ends [of p "ext s" v] show ?thesis by (auto simp: bnd_run outside_def)
  next
    case (Inr healthy)
    show ?thesis
    proof (cases healthy)
      case True
      with h Inr show ?thesis by (auto simp: bnd_run outside_def)
    next
      case False
      then have run: "wait_loop io p deadline (Suc n) s =
          (if now < deadline then wait_loop io p deadline n else ret False) (s\<lparr>ext := w\<rparr>)"
        using h Inr now by (simp add: bnd_run outside_def setTimeoutMs_def dateNow_def outside_pure_def u_def ms_def)
      show ?thesis
      proof (cases "now < deadline")
        case late: True
        then have "deadline < time (ext (s\<lparr>ext := w\<rparr>)) + int n" "0 < n"
          using Suc.prems u v w by auto
        with Suc.IH [of "s\<lparr>ext := w\<rparr>"] late run show ?thesis by simp
      next
        case False
        with run w show ?thesis by simp
      qed
    qed
  qed
qed simp

lemma waitForHealthy_run:
  "case waitForHealthy io p s of
     (Inr True, t) \<Rightarrow> \<exists>v. ad_isHealthy (io_adapter io) p v = (Inr True, ext t)
   | (Inr False, t) \<Rightarrow> time (ext s) + runtimeReadyTimeoutMs (io_config io) \<le> time (ext t)
   | (Inl e, t) \<Rightarrow> e \<noteq> OutOfFuel \<and> (\<exists>v. ad_isHealthy (io_adapter io) p v = (Inl e, ext t))"
proof -
  define tmo where "tmo = runtimeReadyTimeoutMs (io_config io)"
  obtain now w where now: "io_now io (ext s) = (now, w)" by fastforce
  have run: "waitForHealthy io p s = wait_loop io p (now + tmo) (Suc (nat tmo)) (s\<lparr>ext := w\<rparr>)"
    using now by (simp add: waitForHealthy_def bnd_run dateNow_def outside_pure_def Let_def tmo_def)
  have "now + tmo < time (ext (s\<lparr>ext := w\<rparr>)) + int (Suc (nat tmo))"
    using now_time [OF now] by simp
  from wait_loop_run [OF this, of p] show ?thesis
    unfolding run tmo_def [symmetric] using now_time [OF now]
    by (auto split: prod.splits sum.splits bool.splits)
qed

end

lemma demo_clocked: "clocked (demo_io cfg) w_now"
proof (unfold_locales, goal_cases)
  case (1 v n w)
  then show ?case by (auto simp: demo_io_def)
next
  case (2 v ms)
  then show ?case by (simp add: demo_io_def)
next
  case (3 p v q w)
  then show ?case by (auto simp: demo_io_def demo_adapter_def)
next
  case (4 p v w)
  then show ?case by (simp add: demo_io_def demo_adapter_def)
qed

interpretation demo_clock: clocked "demo_io cfg" w_now
  by (rule demo_clocked)

text \<open>C18: \<open>waitForHealthy\<close> always ends, within the granted turns. It answers true right after a
  health check that succeeded and false only when the timeout has passed; the only exceptions
  are those of the health check.\<close>

theorem waitForHealthy_ends:
  assumes "clocked io time"
  shows "case waitForHealthy io p s of
     (Inr True, t) \<Rightarrow> \<exists>v. ad_isHealthy (io_adapter io) p v = (Inr True, ext t)
   | (Inr False, t) \<Rightarrow> time (ext s) + runtimeReadyTimeoutMs (io_config io) \<le> time (ext t)
   | (Inl e, t) \<Rightarrow> e \<noteq> OutOfFuel \<and> (\<exists>v. ad_isHealthy (io_adapter io) p v = (Inl e, ext t))"
  by (rule clocked.waitForHealthy_run [OF assms])

text \<open>Nothing answers on the port for two milliseconds, polled every millisecond.\<close>

definition wait_config :: config where
  "wait_config =
     \<lparr>process_env = (\<lambda>n. if n = ''MICROSANDBOX_CLOUD_RUNTIME_READY_TIMEOUT_MS'' then Some (int_digits 2)
        else if n = ''MICROSANDBOX_CLOUD_RUNTIME_READY_POLL_INTERVAL_MS'' then Some (int_digits 1) else None),
      process_cwd = ''/srv''\<rparr>"

lemma wait_config_times:
  "runtimeReadyTimeoutMs wait_config = 2" "runtimeReadyPollIntervalMs wait_config = 1"
  unfolding runtimeReadyTimeoutMs_def runtimeReadyPollIntervalMs_def
  by (rule readInt_int_digits; simp add: wait_config_def)+

theorem waitForHealthy_ends_witness:
  "\<exists>t. waitForHealthy (demo_io wait_config) 80 sys0 = (Inr False, t) \<and> 1002 \<le> w_now (ext t)"
proof -
  have "fst (waitForHealthy (demo_io wait_config) 80 sys0) = Inr False"
    by (simp add: waitForHealthy_def bnd_run dateNow_def setTimeoutMs_def outside_pure_def outside_def
        wait_config_times Let_def numeral_2_eq_2 demo_io_def demo_adapter_def sys0_def world0_def)
  then show ?thesis
    using waitForHealthy_ends [OF demo_clocked, of wait_config 80 sys0]
    by (auto simp: wait_config_times sys0_def world0_def split: prod.splits)
qed

end
