(* ===== verification/Port_Safety.thy ===== *)
theory Port_Safety
  imports Control_Facts
begin

text \<open>
  Host ports across the whole service: every port a sandbox's bindings name is leased to that
  sandbox and to no other, so the proxy and the SSH gateway reach the right VM. The invariant
  \<open>ports_inv\<close> is shown for provisioning, its consequences for the proxy, and what is left of it
  when the port range is exhausted.
\<close>

section \<open>The invariant\<close>

text \<open>Every lease belongs to a row.\<close>

definition owned :: "'v sys \<Rightarrow> bool" where
  "owned s \<longleftrightarrow> (\<forall>l \<in> set (leases s). \<exists>r \<in> set (runtimes s). rt_id r = pl_runtimeId l)"

definition bound_ports :: "'v sys \<Rightarrow> string \<Rightarrow> portBinding list \<Rightarrow> bool" where
  "bound_ports s rid bs \<longleftrightarrow>
     distinct (map pb_hostPort bs) \<and> pb_hostPort ` set bs \<subseteq> held_ports s rid"

definition ports_inv_except :: "string set \<Rightarrow> 'v sys \<Rightarrow> bool" where
  "ports_inv_except X s \<longleftrightarrow> tables_ok s \<and> owned s \<and>
     (\<forall>r \<in> set (runtimes s). rt_id r \<notin> X \<longrightarrow> bound_ports s (rt_id r) (rt_portBindings r))"

abbreviation ports_inv :: "'v sys \<Rightarrow> bool" where
  "ports_inv \<equiv> ports_inv_except {}"

text \<open>The caller's copy of a row agrees with the table on the key and the bindings.\<close>

definition current :: "runtimeEntity \<Rightarrow> 'v sys \<Rightarrow> bool" where
  "current r s \<longleftrightarrow>
     (\<exists>x \<in> set (runtimes s). rt_id x = rt_id r \<and> rt_portBindings x = rt_portBindings r)"

text \<open>Steps that leave the runtimes and the leases alone.\<close>

definition ports_frame :: "runtimeEntity list \<Rightarrow> portLease list \<Rightarrow> 'v sys \<Rightarrow> bool" where
  "ports_frame R L t \<longleftrightarrow> tables_ok t \<and> runtimes t = R \<and> leases t = L"

lemma frame_inv:
  "ports_inv_except X s \<Longrightarrow> ports_frame (runtimes s) (leases s) t \<Longrightarrow> ports_inv_except X t"
  by (auto simp: ports_inv_except_def ports_frame_def owned_def bound_ports_def held_ports_def)

lemma frame_current: "current r s \<Longrightarrow> ports_frame (runtimes s) (leases s) t \<Longrightarrow> current r t"
  by (simp add: current_def ports_frame_def)

lemma frame_bound: "bound_ports s x bs \<Longrightarrow> ports_frame (runtimes s) (leases s) t \<Longrightarrow> bound_ports t x bs"
  by (simp add: bound_ports_def ports_frame_def held_ports_def)

lemma keeps_frame_outside [keeps_intros]:
  "keeps (ports_frame R L) (outside m)" "keeps (ports_frame R L) (outside_pure f)"
  "keeps (ports_frame R L) (dateNow io)" "keeps (ports_frame R L) (setTimeoutMs io ms)"
  by (rule keeps_outside keeps_outside_pure keeps_clock; simp add: ports_frame_def)+

lemma keeps_frame_find [keeps_intros]:
  "keeps (ports_frame R L) (runtime_findOne io p)" "keeps (ports_frame R L) (volume_findOne io q)"
  "keeps (ports_frame R L) (logProvisionStage io)"
  unfolding table_ops logProvisionStage_def by (intro keeps_intros)+

lemma keeps_frame_reads [keeps_intros]:
  "keeps (ports_frame R L) (findRuntimeBySandboxIdOrName io x)"
  "keeps (ports_frame R L) (findRuntimeBySandboxId io x)"
  "keeps (ports_frame R L) (findVolumeByIdOrName io x)"
  "keeps (ports_frame R L) (requireVolume io x)"
  "keeps (ports_frame R L) (requireRuntime io x)"
  "keeps (ports_frame R L) (createSandboxId io sd)"
  unfolding findRuntimeBySandboxIdOrName_def findRuntimeBySandboxId_def findVolumeByIdOrName_def
    requireVolume_def requireRuntime_def createSandboxId_def by (intro keeps_intros)+

lemma keeps_frame_volumes [keeps_intros]: "keeps (ports_frame R L) (resolveVolumes io ms)"
  by (induction ms) (simp_all only: resolveVolumes.simps, (intro keeps_intros | assumption)+)

lemma keeps_frame_wait [keeps_intros]: "keeps (ports_frame R L) (wait_loop io p d n)"
  by (induction n) (simp_all only: wait_loop.simps, (intro keeps_intros | assumption)+)

lemma keeps_frame_control [keeps_intros]:
  "keeps (ports_frame R L) (buildSpec io i)" "keeps (ports_frame R L) (waitForHealthy io p)"
  unfolding buildSpec_def waitForHealthy_def by (intro keeps_intros)+

text \<open>A step that keeps every frame keeps whatever only depends on it.\<close>

lemma keeps_by_frame:
  assumes "\<And>R L. keeps (ports_frame R L) m"
    and "\<And>s. I s \<Longrightarrow> tables_ok s"
    and "\<And>s t. I s \<Longrightarrow> ports_frame (runtimes s) (leases s) t \<Longrightarrow> I t"
  shows "keeps I m"
proof (rule keepsI)
  fix s r t assume "I s" and "m s = (r, t)"
  have "ports_frame (runtimes s) (leases s) s" using assms(2) [OF \<open>I s\<close>] by (simp add: ports_frame_def)
  from keepsD [OF assms(1) this \<open>m s = (r, t)\<close>] show "I t" by (rule assms(3) [OF \<open>I s\<close>])
qed

section \<open>Leases\<close>

lemma merge_ports_length [simp]: "length (merge_ports es hs bs) = length bs"
  by (induction es hs bs rule: merge_ports.induct) simp_all

lemma merge_ports_hosts:
  "length bs \<le> length es + length hs \<Longrightarrow>
   map pb_hostPort (merge_ports es hs bs) = take (length bs) (map pb_hostPort es @ hs)"
  by (induction es hs bs rule: merge_ports.induct) simp_all

lemma bound_portsI:
  assumes "distinct hs" and "set hs \<subseteq> held_ports s rid" and "map pb_hostPort bs = take n hs"
  shows "bound_ports s rid bs"
proof -
  have "pb_hostPort ` set bs = set (take n hs)" using assms(3) by (metis list.set_map)
  with assms show ?thesis by (auto simp: bound_ports_def dest: in_set_takeD)
qed

lemma bound_ports_mono: "bound_ports s rid bs \<Longrightarrow> held_ports s rid \<subseteq> held_ports t rid \<Longrightarrow> bound_ports t rid bs"
  by (auto simp: bound_ports_def)

lemma bound_ports_Nil [simp]: "bound_ports s rid []"
  by (simp add: bound_ports_def)

lemma ports_inv_unbound:
  assumes "ports_inv_except (insert rid X) s" and "\<And>x. x \<in> set (runtimes s) \<Longrightarrow> rt_id x = rid \<Longrightarrow> rt_portBindings x = []"
  shows "ports_inv_except X s"
proof -
  have "bound_ports s (rt_id x) (rt_portBindings x)" if "x \<in> set (runtimes s)" "rt_id x \<notin> X" for x
    using assms that by (cases "rt_id x = rid") (simp_all add: ports_inv_except_def)
  with assms(1) show ?thesis by (simp add: ports_inv_except_def)
qed

text \<open>
  The invariant holds but for the sandboxes in a set \<open>X\<close>, whose bindings may name ports that are not
  theirs; \<open>covered\<close> is what is asked of one sandbox. An exception leaves everything as safe as
  before, or adds one sandbox, whose leases an exhausted range has cost it.
\<close>

definition covered :: "string set \<Rightarrow> 'v sys \<Rightarrow> string \<Rightarrow> portBinding list \<Rightarrow> bool" where
  "covered X s rid bs \<longleftrightarrow> rid \<in> X \<or> bound_ports s rid bs"

definition inv_err :: "string set \<Rightarrow> exn \<Rightarrow> 'v sys \<Rightarrow> bool" where
  "inv_err X e s \<longleftrightarrow> ports_inv_except X s \<or>
     (e = JsError ''No free runtime ports available'' \<and>
      (\<exists>rid. held_ports s rid = {} \<and> ports_inv_except (insert rid X) s))"

context database begin

lemma leasePorts_inv:
  assumes "ports_inv_except X s" and "current r s" and "0 \<le> n"
  shows "case leasePorts io (rt_id r) n s of
     (Inr ps, t) \<Rightarrow> ports_inv_except X t \<and> current r t \<and> int (length ps) = n \<and> distinct ps \<and>
        set ps \<inter> held_ports s (rt_id r) = {} \<and>
        held_ports t (rt_id r) = held_ports s (rt_id r) \<union> set ps
   | (Inl e, t) \<Rightarrow> inv_err X e t \<and> current r t \<and> (rt_portBindings r = [] \<longrightarrow> ports_inv_except X t)"
  using assms(3)
proof (cases rule: leasePorts_run [where count = n and s = s and rid = "rt_id r"])
  case (leased new)
  let ?ps = "take (nat n) (free_ports (io_config io) (leases s))"
  let ?t = "s\<lparr>leases := leases s @ new\<rparr>"
  have ok: "tables_ok s" using assms(1) by (simp add: ports_inv_except_def)
  note L = ports.lease_ok [OF ok assms(3) leased(3)]
  have "owned ?t"
    using assms(1,2) leased(2)
    by (auto simp: owned_def ports_inv_except_def grants_def list_all_iff current_def)
  moreover have "bound_ports ?t (rt_id x) (rt_portBindings x)" if "x \<in> set (runtimes s)" "rt_id x \<notin> X" for x
  proof (rule bound_ports_mono)
    show "bound_ports s (rt_id x) (rt_portBindings x)" using assms(1) that by (simp add: ports_inv_except_def)
    have "held_ports ?t = (held_ports s)(rt_id r := held_ports s (rt_id r) \<union> set ?ps)" using L by blast
    then show "held_ports s (rt_id x) \<subseteq> held_ports ?t (rt_id x)" by auto
  qed
  ultimately have "ports_inv_except X ?t" using L by (simp add: ports_inv_except_def)
  moreover have "set ?ps \<inter> held_ports s (rt_id r) = {}" using L by auto
  ultimately show ?thesis using L assms(2) leased(3) by (simp add: current_def)
next
  case short
  let ?t = "s\<lparr>leases := filter (\<lambda>l. pl_runtimeId l \<noteq> rt_id r) (leases s)\<rparr>"
  have ok: "tables_ok s" using assms(1) by (simp add: ports_inv_except_def)
  note L = ports.lease_err [OF ok assms(3) short(2)]
  have own: "owned ?t" using assms(1) by (auto simp: owned_def ports_inv_except_def)
  have others: "bound_ports ?t (rt_id x) (rt_portBindings x)"
    if "x \<in> set (runtimes s)" "rt_id x \<noteq> rt_id r" "rt_id x \<notin> X" for x
    using assms(1) that L by (auto simp: ports_inv_except_def bound_ports_def)
  then have ex: "ports_inv_except (insert (rt_id r) X) ?t" using own L by (simp add: ports_inv_except_def)
  moreover have "ports_inv_except X ?t" if "rt_portBindings r = []"
  proof -
    have "rt_portBindings x = []" if "x \<in> set (runtimes s)" "rt_id x = rt_id r" for x
      using rt.row_by_key [OF tables_okD(1) [OF ok]] assms(2) that \<open>rt_portBindings r = []\<close>
      by (metis current_def)
    with ex show ?thesis by (intro ports_inv_unbound [of "rt_id r" X]) simp_all
  qed
  ultimately show ?thesis using L short(2) assms(2)
    by (auto simp: inv_err_def current_def)
qed

text \<open>Saving a row, with its bindings or with new ones that the row's leases cover.\<close>

lemma save_current:
  assumes "tables_ok s" and "current r s" and "rt_id r' = rt_id r"
  obtains (saved) c where "runtime_save io r' s =
      (Inr (runtime_touch c r'), s\<lparr>runtimes := replace_row rt_id (runtime_touch c r') (runtimes s)\<rparr>)"
    | (clash) e where "runtime_save io r' s = (Inl e, s)"
proof (cases rule: rt.save_cases [of "runtimes s" r'])
  case (ok c)
  then show thesis by (intro saved) (simp add: runtime_save_def)
next
  case (absent c)
  moreover have "rt_id r \<in> rt_id ` set (runtimes s)"
    using assms(2) by (auto simp: current_def image_iff) metis
  ultimately show thesis using assms(3) by simp
next
  case (clash e)
  then show thesis by (intro that(2)) (simp add: runtime_save_def)
qed

lemma updateRuntime_inv:
  assumes inv: "ports_inv_except X s" and cur: "current r s" and key: "\<And>x. rt_id (f x) = rt_id x"
    and bound: "covered X s (rt_id r) (rt_portBindings (f r))"
  shows "case updateRuntime io r f s of
      (Inr x, t) \<Rightarrow> ports_inv_except X t \<and> current x t \<and> leases t = leases s \<and>
         rt_id x = rt_id r \<and> rt_portBindings x = rt_portBindings (f r)
    | (Inl e, t) \<Rightarrow> t = s"
proof -
  have ok: "tables_ok s" using inv by (simp add: ports_inv_except_def)
  show ?thesis
  proof (cases rule: save_current [OF ok cur key, case_names saved clash])
    case (saved c)
    let ?x = "runtime_touch c (f r)"
    let ?t = "s\<lparr>runtimes := replace_row rt_id ?x (runtimes s)\<rparr>"
    have x: "rt_id ?x = rt_id r" "rt_portBindings ?x = rt_portBindings (f r)"
      by (simp_all add: runtime_touch_def key)
    have rows: "y = ?x \<or> y \<in> set (runtimes s) \<and> rt_id y \<noteq> rt_id r" if "y \<in> set (runtimes ?t)" for y
      using that x(1) by (auto simp: replace_row_def split: if_splits)
    have keys: "rt_id ` set (runtimes ?t) = rt_id ` set (runtimes s)"
      by (metis list.set_map rt.keys_replace_row sys.select_convs(2) sys.surjective sys.update_convs(2))
    have "held_ports ?t = held_ports s" by (simp add: held_ports_def fun_eq_iff)
    then have held: "bound_ports ?t = bound_ports s" by (simp add: bound_ports_def fun_eq_iff)
    have "tables_ok ?t"
      using keepsD [OF keeps_tables_insert(2) ok saved] by simp
    moreover have "owned ?t"
      using inv keys unfolding ports_inv_except_def owned_def by (simp add: image_def set_eq_iff) metis
    moreover have "bound_ports ?t (rt_id y) (rt_portBindings y)" if "y \<in> set (runtimes ?t)" "rt_id y \<notin> X" for y
      using rows [OF that(1)] that(2) inv bound x by (auto simp: held ports_inv_except_def covered_def)
    moreover have "current ?x ?t"
    proof -
      have "?x \<in> set (runtimes ?t)"
        using cur x(1) by (auto simp: current_def replace_row_def image_iff)
      then show ?thesis by (auto simp: current_def)
    qed
    ultimately show ?thesis using saved x
      by (simp add: updateRuntime_def ports_inv_except_def)
  next
    case (clash e)
    then show ?thesis by (simp add: updateRuntime_def)
  qed
qed

lemma runtime_insert_inv:
  assumes inv: "ports_inv_except X s" and empty: "rt_portBindings r = []"
  shows "case runtime_insert io r s of
      (Inr x, t) \<Rightarrow> ports_inv_except X t \<and> current x t \<and> rt_portBindings x = []
    | (Inl e, t) \<Rightarrow> t = s"
proof -
  have ok: "tables_ok s" using inv by (simp add: ports_inv_except_def)
  show ?thesis
  proof (cases rule: rt.insert_cases [of "runtimes s" r])
    case (ok i c)
    let ?x = "runtime_stamp i c r"
    let ?t = "s\<lparr>runtimes := runtimes s @ [?x]\<rparr>"
    have run: "runtime_insert io r s = (Inr ?x, ?t)" using ok by (simp add: runtime_insert_def)
    have "tables_ok ?t" by (rule keepsD [OF keeps_tables_insert(1) \<open>tables_ok s\<close> run])
    moreover have "owned ?t" using inv by (auto simp: ports_inv_except_def owned_def)
    moreover have "bound_ports ?t (rt_id y) (rt_portBindings y)" if "y \<in> set (runtimes ?t)" "rt_id y \<notin> X" for y
      using that inv empty
      by (auto simp: ports_inv_except_def bound_ports_def held_ports_def runtime_stamp_def)
    ultimately show ?thesis
      using run empty by (simp add: ports_inv_except_def current_def runtime_stamp_def)
  next
    case (clash e)
    then show ?thesis by (simp add: runtime_insert_def)
  qed
qed

lemma keeps_inv_delete: "keeps (ports_inv_except X) (deleteRuntime io r)"
proof (rule keepsI)
  fix s q t assume inv: "ports_inv_except X s" and run: "deleteRuntime io r s = (q, t)"
  have "tables_ok s" using inv by (simp add: ports_inv_except_def)
  from keepsD [OF keeps_tables_registry(1) this run] have ok: "tables_ok t" .
  have t: "runtimes t = filter (\<lambda>x. rt_id x \<noteq> rt_id r) (runtimes s)"
    "leases t = filter (\<lambda>l. pl_runtimeId l \<noteq> rt_id r) (leases s)"
    using run deleteRuntime_run [of r s] by auto
  have "\<exists>x \<in> set (runtimes s). rt_id x = pl_runtimeId l" if "l \<in> set (leases s)" for l
    using inv that by (simp add: owned_def ports_inv_except_def)
  then have "owned t" unfolding owned_def t by (simp, metis)
  moreover have "held_ports t (rt_id x) = held_ports s (rt_id x)" if "x \<in> set (runtimes t)" for x
    using that by (auto simp: t held_ports_def)
  ultimately show "ports_inv_except X t"
    using inv ok by (simp add: ports_inv_except_def bound_ports_def) (simp add: t)
qed

lemma current_bound:
  assumes "ports_inv_except X s" and "current r s"
  shows "covered X s (rt_id r) (rt_portBindings r)"
  using assms by (metis covered_def current_def ports_inv_except_def)

lemma post_lease:
  assumes "0 \<le> n"
  shows "post (\<lambda>s. ports_inv_except X s \<and> current r s) (leasePorts io (rt_id r) n)
     (\<lambda>ps s. ports_inv_except X s \<and> current r s \<and> int (length ps) = n \<and>
        (rt_id r \<notin> X \<longrightarrow> distinct (map pb_hostPort (rt_portBindings r) @ ps) \<and>
          pb_hostPort ` set (rt_portBindings r) \<union> set ps \<subseteq> held_ports s (rt_id r)))
     (\<lambda>e s. inv_err X e s \<and> (rt_portBindings r = [] \<longrightarrow> ports_inv_except X s))"
proof (rule postI)
  fix s ps t assume s: "ports_inv_except X s \<and> current r s" and run: "leasePorts io (rt_id r) n s = (Inr ps, t)"
  from s current_bound have "covered X s (rt_id r) (rt_portBindings r)" by blast
  with leasePorts_inv [of X s r n] s assms run
  show "ports_inv_except X t \<and> current r t \<and> int (length ps) = n \<and>
        (rt_id r \<notin> X \<longrightarrow> distinct (map pb_hostPort (rt_portBindings r) @ ps) \<and>
          pb_hostPort ` set (rt_portBindings r) \<union> set ps \<subseteq> held_ports t (rt_id r))"
    by (auto simp: bound_ports_def covered_def)
next
  fix s e t assume "ports_inv_except X s \<and> current r s" and "leasePorts io (rt_id r) n s = (Inl e, t)"
  with leasePorts_inv [of X s r n] assms
  show "inv_err X e t \<and> (rt_portBindings r = [] \<longrightarrow> ports_inv_except X t)" by auto
qed

lemma inv_err_inv: "ports_inv_except X s \<Longrightarrow> inv_err X e s"
  by (simp add: inv_err_def)

lemma post_assign:
  "post (\<lambda>s. ports_inv_except X s \<and> current r s) (assign_ports io r ports)
     (\<lambda>ps s. ports_inv_except X s \<and> current r s \<and> covered X s (rt_id r) ps) (inv_err X)"
proof -
  let ?bs = "rt_portBindings r" and ?n = "int (length ports) - int (length (rt_portBindings r))"
  have merged: "covered X s (rt_id r) (merge_ports ?bs ps ports)"
    if "rt_id r \<notin> X \<longrightarrow> distinct (map pb_hostPort ?bs @ ps) \<and>
          pb_hostPort ` set ?bs \<union> set ps \<subseteq> held_ports s (rt_id r)"
      "length ports \<le> length ?bs + length ps" for s and ps :: "int list"
  proof (cases "rt_id r \<in> X")
    case False
    have "bound_ports s (rt_id r) (merge_ports ?bs ps ports)"
      by (rule bound_portsI [OF _ _ merge_ports_hosts [OF that(2)]]) (use that(1) False in auto)
    then show ?thesis by (simp add: covered_def)
  qed (simp add: covered_def)
  show ?thesis
  proof (cases "length ports \<le> length ?bs \<and> ?bs \<noteq> []")
    case True
    have "post (\<lambda>s. ports_inv_except X s \<and> current r s) (ret (merge_ports ?bs [] ports))
       (\<lambda>ps s. ports_inv_except X s \<and> current r s \<and> covered X s (rt_id r) ps) (inv_err X)"
    proof (rule post_ret)
      fix s assume s: "ports_inv_except X s \<and> current r s"
      with current_bound have "covered X s (rt_id r) ?bs" by blast
      with merged [of "[]" s] True s
      show "ports_inv_except X s \<and> current r s \<and> covered X s (rt_id r) (merge_ports ?bs [] ports)"
        by (auto simp: covered_def bound_ports_def)
    qed
    moreover have "assign_ports io r ports = ret (merge_ports ?bs [] ports)"
      using True by (simp add: assign_ports_def Let_def fun_eq_iff)
    ultimately show ?thesis by (simp only:)
  next
    case False
    then have "assign_ports io r ports =
        bnd (leasePorts io (rt_id r) (if ?bs = [] then int (length ports) else ?n))
          (\<lambda>hps. ret (merge_ports ?bs hps ports))"
      by (auto simp: assign_ports_def Let_def)
    moreover have "post (\<lambda>s. ports_inv_except X s \<and> current r s) \<dots>
       (\<lambda>ps s. ports_inv_except X s \<and> current r s \<and> covered X s (rt_id r) ps) (inv_err X)"
    proof (rule post_bnd)
      let ?n = "if ?bs = [] then int (length ports) else ?n"
      have "0 \<le> ?n" using False by auto
      show "post (\<lambda>s. ports_inv_except X s \<and> current r s) (leasePorts io (rt_id r) ?n)
         (\<lambda>ps s. ports_inv_except X s \<and> current r s \<and> covered X s (rt_id r) (merge_ports ?bs ps ports)) (inv_err X)"
      proof (rule post_weaken [OF post_lease [OF \<open>0 \<le> ?n\<close>]])
        fix ps t
        assume M: "ports_inv_except X t \<and> current r t \<and> int (length ps) = ?n \<and>
          (rt_id r \<notin> X \<longrightarrow> distinct (map pb_hostPort ?bs @ ps) \<and>
            pb_hostPort ` set ?bs \<union> set ps \<subseteq> held_ports t (rt_id r))"
        then have "length ports \<le> length ?bs + length ps" by (simp split: if_splits)
        with M merged [of ps t]
        show "ports_inv_except X t \<and> current r t \<and> covered X t (rt_id r) (merge_ports ?bs ps ports)" by blast
      qed simp_all
    qed (rule post_ret)
    ultimately show ?thesis by simp
  qed
qed

lemma frame_state:
  assumes "ports_inv_except X s \<and> current r s \<and> covered X s (rt_id r) ps"
    and "ports_frame (runtimes s) (leases s) t"
  shows "ports_inv_except X t \<and> current r t \<and> covered X t (rt_id r) ps"
  using assms frame_inv frame_current frame_bound unfolding covered_def by blast

lemma post_start:
  "post (\<lambda>s. ports_inv_except X s \<and> current r s \<and> covered X s (rt_id r) ports)
     (provision_start io input name spec r ports) (\<lambda>_. ports_inv_except X) (\<lambda>_. ports_inv_except X)"
proof -
  let ?I = "\<lambda>s. ports_inv_except X s \<and> current r s \<and> covered X s (rt_id r) ports"
  have frame: "keeps ?I m" if "\<And>R L. keeps (ports_frame R L) m" for m :: "('v sys, 'y) eff"
    by (rule keeps_by_frame [OF that], simp add: ports_inv_except_def, erule (1) frame_state)
  have log: "keeps (ports_inv_except X) m" if "\<And>R L. keeps (ports_frame R L) m" for m :: "('v sys, 'y) eff"
    by (rule keeps_by_frame [OF that], simp add: ports_inv_except_def, erule (1) frame_inv)
  have upd: "post ?I (updateRuntime io r f) (\<lambda>_. ports_inv_except X) (\<lambda>_. ports_inv_except X)"
    if "\<And>x. rt_id (f x) = rt_id x" "rt_portBindings (f r) = ports" for f
  proof (rule postI)
    fix s x t assume "?I s" and "updateRuntime io r f s = (Inr x, t)"
    with updateRuntime_inv [of X s r f] that show "ports_inv_except X t" by simp
  next
    fix s e t assume "?I s" and "updateRuntime io r f s = (Inl e, t)"
    with updateRuntime_inv [of X s r f] that show "ports_inv_except X t" by simp
  qed
  have fin: "post (ports_inv_except X) (bnd (logProvisionStage io) (\<lambda>_. bnd (dateNow io) (\<lambda>_. ret z)))
      (\<lambda>_. ports_inv_except X) (\<lambda>_. ports_inv_except X)" for z :: runtimeSummary
    by (rule post_keeps, rule log, intro keeps_intros)
  show ?thesis
    unfolding provision_start_def Let_def
    by (rule post_then, rule frame, (intro keeps_intros)[1])+
      (auto intro!: post_bnd [OF upd fin] simp: copy_spec_def)
qed

lemma keeps_inv_frame:
  fixes m :: "('v sys, 'y) eff"
  assumes "\<And>R L. keeps (ports_frame R L) m"
  shows "keeps (ports_inv_except X) m"
  by (rule keeps_by_frame [OF assms], simp add: ports_inv_except_def, erule (1) frame_inv)

lemma post_new:
  "post (ports_inv_except X) (provision_new io sid name spec primary)
     (\<lambda>(r, ports) s. ports_inv_except X s \<and> current r s \<and> rt_portBindings r = []) (\<lambda>_. ports_inv_except X)"
proof -
  have save: "post (ports_inv_except X) (saveRuntime io row)
      (\<lambda>r s. ports_inv_except X s \<and> current r s \<and> rt_portBindings r = []) (\<lambda>_. ports_inv_except X)"
    if "rt_portBindings row = []" for row
    unfolding saveRuntime_def
  proof (rule postI)
    fix s r t assume "ports_inv_except X s" and "runtime_insert io row s = (Inr r, t)"
    with runtime_insert_inv [of X s row] that show "ports_inv_except X t \<and> current r t \<and> rt_portBindings r = []"
      by simp
  next
    fix s e t assume "ports_inv_except X s" and "runtime_insert io row s = (Inl e, t)"
    with runtime_insert_inv [of X s row] that show "ports_inv_except X t" by simp
  qed
  have lease: "post (\<lambda>s. ports_inv_except X s \<and> current r s \<and> rt_portBindings r = [])
      (bnd (leasePorts io (rt_id r) (int (length ports))) (\<lambda>hps. ret (r, merge_ports [] hps ports)))
      (\<lambda>(r, ports) s. ports_inv_except X s \<and> current r s \<and> rt_portBindings r = []) (\<lambda>_. ports_inv_except X)"
    for r and ports :: "portBinding list"
  proof (cases "rt_portBindings r = []")
    case True
    have "post (\<lambda>s. ports_inv_except X s \<and> current r s \<and> rt_portBindings r = [])
       (leasePorts io (rt_id r) (int (length ports)))
       (\<lambda>_ s. ports_inv_except X s \<and> current r s \<and> rt_portBindings r = []) (\<lambda>_. ports_inv_except X)"
      by (rule post_weaken [OF post_lease]) (use True in auto)
    then show ?thesis by (rule post_bnd) (rule post_ret, simp)
  qed (simp add: post_def)
  have undo: "post (ports_inv_except X) (bnd (deleteRuntime io r) (\<lambda>_. throw e)) (\<lambda>(r, ports) s. Q r ports s) (\<lambda>_. ports_inv_except X)"
    for r e and Q :: "runtimeEntity \<Rightarrow> portBinding list \<Rightarrow> 'v sys \<Rightarrow> bool"
    by (rule post_then [OF keeps_inv_delete]) (auto intro: post_throw)
  show ?thesis
    unfolding provision_new_def
    by (rule post_then, rule keeps_inv_frame, (intro keeps_intros)[1])+
      (auto intro!: post_bnd [OF save] post_catching [OF lease] undo simp: new_row_def)
qed

lemma keeps_current_frame:
  fixes m :: "('v sys, 'y) eff"
  assumes "\<And>R L. keeps (ports_frame R L) m"
  shows "keeps (\<lambda>s. ports_inv_except X s \<and> current r s) m"
proof (rule keeps_by_frame [OF assms])
  fix s t assume "ports_inv_except X s \<and> current r s" and "ports_frame (runtimes s) (leases s) t"
  then show "ports_inv_except X t \<and> current r t" using frame_inv frame_current by blast
qed (simp add: ports_inv_except_def)

text \<open>An update that leaves the bindings alone.\<close>

lemma post_update:
  assumes "\<And>x. rt_id (f x) = rt_id x" and "rt_portBindings (f r) = rt_portBindings r"
  shows "post (\<lambda>s. ports_inv_except X s \<and> current r s) (updateRuntime io r f)
     (\<lambda>x s. ports_inv_except X s \<and> current x s) (\<lambda>_. ports_inv_except X)"
proof (rule postI)
  fix s x t assume s: "ports_inv_except X s \<and> current r s" and run: "updateRuntime io r f s = (Inr x, t)"
  have "covered X s (rt_id r) (rt_portBindings (f r))" using s current_bound [of X s r] assms(2) by simp
  with updateRuntime_inv [of X s r f] s run assms(1) show "ports_inv_except X t \<and> current x t" by simp
next
  fix s e t assume s: "ports_inv_except X s \<and> current r s" and run: "updateRuntime io r f s = (Inl e, t)"
  have "covered X s (rt_id r) (rt_portBindings (f r))" using s current_bound [of X s r] assms(2) by simp
  with updateRuntime_inv [of X s r f] s run assms(1) show "ports_inv_except X t" by simp
qed

lemma post_find:
  "post (ports_inv_except X) (findRuntimeBySandboxId io x)
     (\<lambda>found s. ports_inv_except X s \<and> (\<forall>r. found = Some r \<longrightarrow> current r s)) (\<lambda>_. ports_inv_except X)"
proof (rule postI)
  fix s found t assume s: "ports_inv_except X s" and run: "findRuntimeBySandboxId io x s = (Inr found, t)"
  then obtain n where "t = s" "found = findOne (runtimeRepo io) (\<lambda>r. rt_sandboxId r = n) (runtimes s)"
    by (auto simp: findRuntimeBySandboxId_def bnd_Inr runtime_findOne_def)
  with s show "ports_inv_except X t \<and> (\<forall>r. found = Some r \<longrightarrow> current r t)"
    by (auto simp: current_def dest!: rt.findOne_Some)
next
  fix s e t assume "ports_inv_except X s" and "findRuntimeBySandboxId io x s = (Inl e, t)"
  then show "ports_inv_except X t"
    by (auto simp: findRuntimeBySandboxId_def bnd_Inl runtime_findOne_def)
qed

lemma post_existing:
  "post (\<lambda>s. ports_inv_except X s \<and> current r s) (provision_existing io input name spec r)
     (\<lambda>early s. ports_inv_except X s \<and> (early = None \<longrightarrow> current r s)) (\<lambda>_. ports_inv_except X)"
proof -
  have fin: "post (\<lambda>s. ports_inv_except X s \<and> current y s)
      (bnd (logProvisionStage io) (\<lambda>_. bnd (dateNow io) (\<lambda>_. ret (Some z))))
      (\<lambda>early s. ports_inv_except X s \<and> (early = None \<longrightarrow> current r s)) (\<lambda>_. ports_inv_except X)" for y and z :: runtimeSummary
    by (rule post_then, rule keeps_current_frame, intro keeps_intros)+ (auto intro: post_ret)
  show ?thesis
    unfolding provision_existing_def Let_def
    by (rule post_then post_if, rule keeps_current_frame, (intro keeps_intros)[1])+
      (auto intro!: post_if post_then keeps_current_frame keeps_intros post_bnd [OF post_update fin] post_ret)
qed

text \<open>The whole of \<open>provision\<close>.\<close>

lemma post_provision: "post (ports_inv_except X) (provision io input) (\<lambda>_. ports_inv_except X) (inv_err X)"
proof -
  have err: "post P m Q (inv_err X)" if "post P m Q (\<lambda>_. ports_inv_except X)" for P Q and m :: "('v sys, 'y) eff"
    by (rule post_weaken [OF that]) (simp_all add: inv_err_inv)
  have start: "post (\<lambda>s. ports_inv_except X s \<and> current r s)
      (bnd (assign_ports io r ports) (provision_start io input name spec r)) (\<lambda>_. ports_inv_except X) (inv_err X)"
    for r ports name spec
    by (rule post_bnd [OF post_assign err [OF post_start]])
  have new: "post (ports_inv_except X)
      (bnd (provision_new io sid name spec primary) (\<lambda>(r, ports).
       bnd (assign_ports io r ports) (provision_start io input name spec r))) (\<lambda>_. ports_inv_except X) (inv_err X)"
    for sid name spec primary
    by (rule post_bnd [OF err [OF post_new]])
      (auto split: prod.splits intro: post_weaken [OF start])
  have replace: "post (\<lambda>s. ports_inv_except X s \<and> current r s)
      (bnd (provision_replace io input name spec r) (\<lambda>r'.
       bnd (assign_ports io r' (rs_ports spec)) (provision_start io input name spec r')))
      (\<lambda>_. ports_inv_except X) (inv_err X)" for r name spec
    unfolding provision_replace_def
    by (rule post_bnd [OF err [OF post_update] start]) (simp_all add: copy_spec_def)
  have existing: "post (\<lambda>s. ports_inv_except X s \<and> current r s)
      (bnd (provision_existing io input name spec r) (\<lambda>early. case early of
          Some z \<Rightarrow> ret z
        | None \<Rightarrow> bnd (assign_ports io r (rs_ports spec)) (provision_start io input name spec r)))
      (\<lambda>_. ports_inv_except X) (inv_err X)" for r name spec
  proof (rule post_bnd [OF err [OF post_existing]])
    fix early show "post (\<lambda>s. ports_inv_except X s \<and> (early = None \<longrightarrow> current r s))
        (case early of Some z \<Rightarrow> ret z
          | None \<Rightarrow> bnd (assign_ports io r (rs_ports spec)) (provision_start io input name spec r))
        (\<lambda>_. ports_inv_except X) (inv_err X)"
      by (cases early) (auto intro: start post_ret)
  qed
  have step: "post (ports_inv_except X) (bnd m f) Q (inv_err X)"
    if "\<And>R L. keeps (ports_frame R L) m" "\<And>x. post (ports_inv_except X) (f x) Q (inv_err X)"
    for m :: "('v sys, 'y) eff" and f :: "'y \<Rightarrow> ('v sys, 'z) eff" and Q
    by (rule post_then [OF keeps_inv_frame [OF that(1)] that(2)]) (rule inv_err_inv)
  have step_at: "post (\<lambda>s. ports_inv_except X s \<and> (\<forall>r. found = Some r \<longrightarrow> current r s)) (bnd m f) Q (inv_err X)"
    if m: "\<And>R L. keeps (ports_frame R L) m"
      and f: "\<And>x. post (\<lambda>s. ports_inv_except X s \<and> (\<forall>r. found = Some r \<longrightarrow> current r s)) (f x) Q (inv_err X)"
    for m :: "('v sys, 'y) eff" and f :: "'y \<Rightarrow> ('v sys, 'z) eff" and Q found
  proof (rule post_then [OF _ f])
    show "keeps (\<lambda>s. ports_inv_except X s \<and> (\<forall>r. found = Some r \<longrightarrow> current r s)) m"
      by (cases found) (simp_all add: keeps_inv_frame [OF m] keeps_current_frame [OF m])
  qed (simp add: inv_err_inv)
  show ?thesis
    unfolding provision_def Let_def
  proof (rule step [OF _ step [OF _ step]], goal_cases)
    case (4 _ name _)
    show ?case
    proof (rule post_bnd [OF err [OF post_find]],
        rule step_at [OF _ step_at [OF _ step_at [OF _ step_at]]], goal_cases)
      case (5 found _ spec _ primary)
      show ?case by (cases found) (simp_all add: new replace existing)
    qed (intro keeps_intros)+
  qed (intro keeps_intros)+
qed

end

context database begin

lemma requireRuntime_run:
  assumes "requireRuntime io x s = (Inr r, t)"
  obtains n where "t = s" and "r \<in> set (runtimes s)" and "normalizeSandboxId x = Inr n"
    and "rt_sandboxId r = n \<or> rt_name r = Some n"
  using assms
  by (auto simp: requireRuntime_def findRuntimeBySandboxIdOrName_def bnd_Inr runtime_findOne_def
      split: option.splits dest!: rt.findOne_Some)

end

lemma findBinding_Inr: "findBinding r p = Inr b \<Longrightarrow> b \<in> set (rt_portBindings r) \<and> pb_containerPort b = p"
  by (auto simp: findBinding_def split: option.splits dest!: find_Some_set)

lemma tokensEqual_iff [simp]: "tokensEqual a b \<longleftrightarrow> a = b"
  by (auto simp: tokensEqual_def Let_def)

lemma resolveProxyTarget_Inr:
  "resolveProxyTarget r p = Inr (x, h) \<Longrightarrow>
   x = r \<and> (\<exists>b \<in> set (rt_portBindings r). pb_containerPort b = p \<and> pb_hostPort b = h)"
  by (auto simp: resolveProxyTarget_def split: sum.splits dest: findBinding_Inr)

lemma host_port_owner_except:
  fixes s :: "'v sys" and io :: "'v io"
  assumes "ports_inv_except X s" and "a \<in> set (runtimes s)" and "b \<in> set (runtimes s)"
    and "rt_id a \<notin> X" and "rt_id b \<notin> X"
    and "h \<in> pb_hostPort ` set (rt_portBindings a)" and "h \<in> pb_hostPort ` set (rt_portBindings b)"
    and "database io"
  shows "a = b"
proof -
  have ok: "tables_ok s" using assms(1) by (simp add: ports_inv_except_def)
  have "h \<in> held_ports s (rt_id a)" "h \<in> held_ports s (rt_id b)"
    using assms(1-7) by (auto simp: ports_inv_except_def bound_ports_def)
  then have "rt_id a = rt_id b"
    using port_allocator.held_disjoint [OF database.allocator [OF assms(8)] ok, of "rt_id a" "rt_id b"] by blast
  then show ?thesis
    by (rule repository.row_by_key [OF database.runtime_repo [OF assms(8)] tables_okD(1) [OF ok] assms(2,3)])
qed

lemma host_port_owner:
  fixes s :: "'v sys" and io :: "'v io"
  assumes "ports_inv s" and "a \<in> set (runtimes s)" and "b \<in> set (runtimes s)"
    and "h \<in> pb_hostPort ` set (rt_portBindings a)" and "h \<in> pb_hostPort ` set (rt_portBindings b)"
    and "database io"
  shows "a = b"
  by (rule host_port_owner_except [OF assms(1-3) _ _ assms(4-6)]) simp_all

context database begin

lemma provision_new_run:
  assumes "provision_new io sid name spec primary s = (Inr (r, ports), v)"
  obtains w hps where "rt_id r \<notin> rt_id ` set (runtimes s)" and "rt_portBindings r = []"
    and "rt_sandboxId r = sid" and "rt_status r = Provisioning"
    and "leasePorts io (rt_id r) (int (length (rs_ports spec)))
           (s\<lparr>runtimes := runtimes s @ [r], ext := w\<rparr>) = (Inr hps, v)"
    and "ports = merge_ports [] hps (rs_ports spec)"
    and "tables_ok s \<Longrightarrow> tables_ok (s\<lparr>runtimes := runtimes s @ [r], ext := w\<rparr>)"
proof -
  have no_handler: "bnd (deleteRuntime io x) (\<lambda>_. throw e) u \<noteq> (Inr y, v')"
    for x e u and y :: "runtimeEntity \<times> portBinding list" and v'
    by (simp add: bnd_run deleteRuntime_run)
  have caught: "m u = (Inr y, v')"
    if "catching m (\<lambda>e. bnd (deleteRuntime io x) (\<lambda>_. throw e)) u = (Inr y, v')"
    for m u x and y :: "runtimeEntity \<times> portBinding list" and v'
    using that no_handler by (auto simp: catching_run split: prod.splits sum.splits)
  obtain k v1 where k: "io_randomBase64url io 24 (ext s) = (k, v1)" by fastforce
  obtain now w where now: "io_now io v1 = (now, w)" by fastforce
  obtain nm where nm: "reg_sandboxName io sid = Inr nm"
    using assms k by (cases "reg_sandboxName io sid") (simp_all add: provision_new_def bnd_run outside_pure_def)
  define row where "row = new_row sid name nm spec primary k now"
  have row: "rt_portBindings row = []" "rt_sandboxId row = sid" "rt_status row = Provisioning"
    by (simp_all add: row_def new_row_def)
  let ?lease = "\<lambda>x. bnd (leasePorts io (rt_id x) (int (length (rs_ports spec))))
        (\<lambda>hps. ret (x, merge_ports [] hps (rs_ports spec)))"
  let ?rest = "\<lambda>x. catching (?lease x) (\<lambda>e. bnd (deleteRuntime io x) (\<lambda>_. throw e))"
  have "bnd (saveRuntime io row) ?rest (s\<lparr>ext := w\<rparr>) = (Inr (r, ports), v)"
    using assms k now nm by (simp add: provision_new_def bnd_run outside_pure_def dateNow_def row_def)
  then obtain x u where save: "saveRuntime io row (s\<lparr>ext := w\<rparr>) = (Inr x, u)"
    and "?rest x u = (Inr (r, ports), v)"
    by (rule bnd_InrE)
  then have "?lease x u = (Inr (r, ports), v)" by (intro caught)
  then obtain hps where lease: "leasePorts io (rt_id r) (int (length (rs_ports spec))) u = (Inr hps, v)"
    and "x = r" "ports = merge_ports [] hps (rs_ports spec)"
    by (auto simp: bnd_Inr)
  from save obtain i c where "x = runtime_stamp i c row" "i \<notin> rt_id ` set (runtimes s)"
    and "u = s\<lparr>runtimes := runtimes s @ [x], ext := w\<rparr>"
    by (cases rule: rt.insert_cases [of "runtimes s" row])
      (auto simp: saveRuntime_def runtime_insert_def runtime_stamp_def)
  moreover have "tables_ok s \<Longrightarrow> tables_ok u"
    using keepsD [OF keeps_tables_registry(3) _ save] by simp
  ultimately show thesis using row lease \<open>x = r\<close> \<open>ports = _\<close>
    by (intro that [of w hps]) (simp_all add: runtime_stamp_def)
qed

end

lemma double_lease:
  assumes "database io" and "ports_inv s"
    and "bnd (provision_new io sid name spec primary) (\<lambda>(r, ports).
           bnd (assign_ports io r ports) (\<lambda>bs. ret (r, bs))) s = (Inr (r, bs), t)"
  shows "card (held_ports t (rt_id r)) = 2 * length (rs_ports spec) \<and>
    2 * length (rs_ports spec) \<le> length (free_ports (io_config io) (leases s)) \<and>
    length bs = length (rs_ports spec) \<and> bound_ports t (rt_id r) bs"
proof -
  let ?n = "int (length (rs_ports spec))"
  obtain ports v where new: "provision_new io sid name spec primary s = (Inr (r, ports), v)"
    and assign: "assign_ports io r ports v = (Inr bs, t)"
    using assms(3) by (auto simp: bnd_Inr)
  obtain w hps where fresh: "rt_id r \<notin> rt_id ` set (runtimes s)" and empty: "rt_portBindings r = []"
    and first: "leasePorts io (rt_id r) ?n (s\<lparr>runtimes := runtimes s @ [r], ext := w\<rparr>) = (Inr hps, v)"
    and ports: "ports = merge_ports [] hps (rs_ports spec)"
    and keep: "tables_ok s \<Longrightarrow> tables_ok (s\<lparr>runtimes := runtimes s @ [r], ext := w\<rparr>)"
    by (rule database.provision_new_run [OF assms(1) new]) blast
  let ?u = "s\<lparr>runtimes := runtimes s @ [r], ext := w\<rparr>"
  have ok: "tables_ok ?u" using keep assms(2) by (simp add: ports_inv_except_def)
  have "pl_runtimeId l \<noteq> rt_id r" if l: "l \<in> set (leases s)" for l
  proof -
    obtain x where "x \<in> set (runtimes s)" "rt_id x = pl_runtimeId l"
      using assms(2) l by (auto simp: ports_inv_except_def owned_def)
    with fresh show ?thesis by (metis image_eqI)
  qed
  then have none: "held_ports ?u (rt_id r) = {}" by (auto simp: held_ports_def)
  obtain qs where second: "leasePorts io (rt_id r) ?n v = (Inr qs, t)" and bs: "bs = merge_ports [] qs ports"
    using assign empty ports by (auto simp: assign_ports_def bnd_Inr)
  note alloc = database.allocator [OF assms(1)]
  note ps = port_allocator.lease_ok [OF alloc ok _ first]
  note qs = port_allocator.lease_ok [OF alloc conjunct1 [OF ps] _ second]
  have card: "int (card (held_ports t (rt_id r))) = 2 * ?n"
    using port_allocator.lease_twice(1) [OF alloc ok _ _ first second] by (simp add: none)
  have "length ports = length (rs_ports spec)" by (simp add: ports)
  then have "map pb_hostPort bs = take (length ports) qs"
    unfolding bs by (subst merge_ports_hosts) (use qs in simp_all)
  then have "bound_ports t (rt_id r) bs"
    by (rule bound_portsI [rotated 2]) (use qs in auto)
  moreover have "held_ports t (rt_id r) \<subseteq> set (free_ports (io_config io) (leases s))"
  proof -
    have "held_ports t (rt_id r) = set hps \<union> set qs" using ps qs none by simp
    moreover obtain new where "hps = take (nat ?n) (free_ports (io_config io) (leases ?u))"
      and v: "v = ?u\<lparr>leases := leases ?u @ new\<rparr>"
      using first by (cases rule: database.leasePorts_run [OF assms(1), of ?n ?u "rt_id r"]) auto
    moreover have "set hps \<subseteq> set (free_ports (io_config io) (leases s))"
      using calculation(2) by (auto dest: in_set_takeD)
    moreover have "set qs \<subseteq> set (free_ports (io_config io) (leases v))"
      using second
      by (cases rule: database.leasePorts_run [OF assms(1), of ?n v "rt_id r"]) (auto dest: in_set_takeD)
    moreover have "set (free_ports (io_config io) (leases v)) \<subseteq> set (free_ports (io_config io) (leases s))"
      by (auto simp: v free_ports_def set_free_from leased_def)
    ultimately show ?thesis by blast
  qed
  then have "card (held_ports t (rt_id r)) \<le> length (free_ports (io_config io) (leases s))"
    by (meson card_mono card_length finite_set le_trans)
  ultimately show ?thesis using card by (simp add: bs ports)
qed

section \<open>Properties\<close>

text \<open>C3: provisioning keeps every sandbox's host ports leased to it alone. Whatever sandboxes \<open>X\<close> had
  lost their ports before, and whatever the VM backend answers, all other sandboxes still have each
  bound host port leased to them when \<open>provision\<close> ends; the one exception is an exhausted port
  range, which can leave one more sandbox without any lease while its bindings stay.\<close>

theorem provision_ports_safe:
  assumes "database io" and "ports_inv_except X s"
  shows "case provision io input s of
      (Inr _, t) \<Rightarrow> ports_inv_except X t
    | (Inl e, t) \<Rightarrow> ports_inv_except X t \<or> (e = JsError ''No free runtime ports available'' \<and>
        (\<exists>rid. held_ports t rid = {} \<and> ports_inv_except (insert rid X) t))"
proof -
  note safe = database.post_provision [OF assms(1), of X input]
  show ?thesis
    using post_Inr [OF safe assms(2)] post_Inl [OF safe assms(2)]
    unfolding inv_err_def by (simp split: prod.split sum.split)
qed

definition plain_ensure :: "string \<Rightarrow> ensureRuntimeDto" where
  "plain_ensure sid = sandboxSpecDto.extend plain_request
     (ensureRuntimeDto.fields (Some sid) None None)"

lemma ports_inv_sys0 [simp]: "ports_inv sys0"
  by (simp add: ports_inv_except_def owned_def sys0_def tables_ok_def table_ok_def)

lemma ports_inv_demo [simp]: "ports_inv demo_sys"
proof -
  have rows: "runtimes demo_sys = [demo_runtime]"
    "leases demo_sys = [\<lparr>pl_id = ''l1'', pl_runtimeHostId = localHostId, pl_port = 5,
       pl_runtimeId = ''r1'', pl_leasedAt = 0\<rparr>]"
    by (simp_all add: demo_sys_def)
  have fields: "rt_id demo_runtime = ''r1''"
    "rt_portBindings demo_runtime = [\<lparr>pb_name = None, pb_containerPort = 8080, pb_hostPort = 5,
        pb_protocol = Tcp, pb_nameLast = False\<rparr>]"
    by (simp_all add: demo_runtime_def)
  have "5 \<in> held_ports demo_sys ''r1''"
    unfolding held_ports_def rows
    by (rule image_eqI [where x = "\<lparr>pl_id = ''l1'', pl_runtimeHostId = localHostId, pl_port = 5,
       pl_runtimeId = ''r1'', pl_leasedAt = 0\<rparr>"]) simp_all
  then show ?thesis
    by (simp add: ports_inv_except_def owned_def bound_ports_def rows fields)
qed

theorem provision_ports_safe_witness:
  "case provision (demo_io (range_config 5 20)) (plain_ensure ''box'') demo_sys of
      (Inr _, t) \<Rightarrow> ports_inv t
    | (Inl e, t) \<Rightarrow> ports_inv t \<or> (e = JsError ''No free runtime ports available'' \<and>
        (\<exists>rid. held_ports t rid = {} \<and> ports_inv_except {rid} t))"
  by (rule provision_ports_safe [OF demo_database ports_inv_demo])

text \<open>What the check in front of a sandbox lets through.\<close>

lemma proxy_access:
  assumes "database io" and "ports_inv_except X s"
    and "validateProxyAccessBySandbox io x p token s = (Inr (r, h), t)"
  shows "t = s \<and> r \<in> set (runtimes s) \<and>
    (\<exists>n. normalizeSandboxId x = Inr n \<and> (rt_sandboxId r = n \<or> rt_name r = Some n)) \<and>
    (rt_public r \<or> token = Some (rt_authToken r)) \<and>
    (\<exists>b \<in> set (rt_portBindings r). pb_containerPort b = p \<and> pb_hostPort b = h) \<and>
    (rt_id r \<notin> X \<longrightarrow>
      (\<forall>r' \<in> set (runtimes s). rt_id r' \<notin> X \<longrightarrow> h \<in> pb_hostPort ` set (rt_portBindings r') \<longrightarrow> r' = r))"
proof -
  obtain r0 u where r0: "requireRuntime io x s = (Inr r0, u)"
    and auth: "rt_public r0 \<or> token = Some (rt_authToken r0)"
    and target: "resolveProxyTarget r0 p = Inr (r, h)" and "t = u"
    using assms(3) unfolding validateProxyAccessBySandbox_def
    by (auto simp: bnd_Inr split: if_splits option.splits)
  note found = resolveProxyTarget_Inr [OF target]
  show ?thesis
  proof (rule database.requireRuntime_run [OF assms(1) r0])
    fix n assume "u = s" "r0 \<in> set (runtimes s)" "normalizeSandboxId x = Inr n"
      "rt_sandboxId r0 = n \<or> rt_name r0 = Some n"
    moreover have "r' = r" if "r' \<in> set (runtimes s)" "rt_id r' \<notin> X" "rt_id r \<notin> X"
        "h \<in> pb_hostPort ` set (rt_portBindings r')" for r'
      using host_port_owner_except [OF assms(2) that(1) _ that(2,3,4) _ assms(1)] found \<open>r0 \<in> set (runtimes s)\<close>
      by auto
    ultimately show ?thesis using found auth \<open>t = u\<close> by blast
  qed
qed

text \<open>C4: the proxy only reaches the sandbox it was asked for, and only with the right. When the
  check lets a request through to a host port, the sandbox is the one the identifier names, it is
  public or the token is its own, the port is the host port of its binding for the container
  port, and, unless an allocation failed for it before, no other such sandbox has a binding with
  that host port.\<close>

theorem proxy_access_safe:
  assumes "database io" and "ports_inv_except X s"
    and "validateProxyAccessBySandbox io x p token s = (Inr (r, h), t)"
  shows "t = s \<and> r \<in> set (runtimes s) \<and>
    (\<exists>n. normalizeSandboxId x = Inr n \<and> (rt_sandboxId r = n \<or> rt_name r = Some n)) \<and>
    (rt_public r \<or> token = Some (rt_authToken r)) \<and>
    (\<exists>b \<in> set (rt_portBindings r). pb_containerPort b = p \<and> pb_hostPort b = h) \<and>
    (rt_id r \<notin> X \<longrightarrow>
      (\<forall>r' \<in> set (runtimes s). rt_id r' \<notin> X \<longrightarrow> h \<in> pb_hostPort ` set (rt_portBindings r') \<longrightarrow> r' = r))"
  by (rule proxy_access [OF assms])

lemma normalize_box: "normalizeSandboxId ''box'' = Inr ''box''"
  by code_simp

theorem proxy_access_safe_witness:
  "\<exists>r. validateProxyAccessBySandbox (demo_io empty_config) ''box'' 8080 (Some ''secret'') demo_sys
     = (Inr (r, 5), demo_sys) \<and> rt_sandboxId r = ''box'' \<and>
     (\<forall>r' \<in> set (runtimes demo_sys). 5 \<in> pb_hostPort ` set (rt_portBindings r') \<longrightarrow> r' = r)"
proof -
  have run: "validateProxyAccessBySandbox (demo_io empty_config) ''box'' 8080 (Some ''secret'') demo_sys
     = (Inr (demo_runtime, 5), demo_sys)"
    by (simp add: validateProxyAccessBySandbox_def requireRuntime_def findRuntimeBySandboxIdOrName_def
        bnd_run normalize_box runtime_findOne_def runtime_table_def mem_repo_def demo_sys_def
        demo_runtime_def resolveProxyTarget_def findBinding_def)
  from proxy_access_safe [OF demo_database ports_inv_demo run] run
  show ?thesis by (auto simp: demo_runtime_def)
qed

text \<open>Equations that run the registry and the service on the reference environment.\<close>

lemmas run_registry = bnd_run catching_run outside_pure_def outside_def dateNow_def demo_random_def
  Let_def saveRuntime_def runtime_insert_def runtime_save_def runtime_findOne_def runtime_table_def
  mem_repo_def mem_insert_def mem_save_def replace_row_def runtime_stamp_def runtime_touch_def
  runtime_clash_def leasePorts_def lease_loop.simps lease_findOne_def lease_insert_def lease_delete_def
  lease_table_def lease_stamp_def lease_clash_def updateRuntime_def

text \<open>C22: extending a sandbox when the range is exhausted frees ports that are in use. If fewer
  ports are free than an existing sandbox additionally needs, \<open>leasePorts\<close> throws and leaves the
  sandbox no lease at all, and each of its bound host ports that lies in the range is offered to
  the next caller, although the sandbox's bindings still name it.\<close>

theorem shortage_frees_ports_in_use:
  assumes "database io" and "ports_inv s" and "r \<in> set (runtimes s)" and "0 \<le> n"
    and "int (length (free_ports (io_config io) (leases s))) < n"
  shows "\<exists>t. leasePorts io (rt_id r) n s = (Inl (JsError ''No free runtime ports available''), t) \<and>
    runtimes t = runtimes s \<and> held_ports t (rt_id r) = {} \<and>
    (\<forall>b \<in> set (rt_portBindings r).
       pb_hostPort b \<in> {portRangeStart (io_config io)..portRangeEnd (io_config io)} \<longrightarrow>
       pb_hostPort b \<in> set (free_ports (io_config io) (leases t)))"
proof (cases rule: database.leasePorts_run [OF assms(1,4), of s "rt_id r", case_names leased short])
  case (leased new)
  with assms(5) show ?thesis by simp
next
  case short
  have held: "pb_hostPort b \<in> held_ports s (rt_id r)" if "b \<in> set (rt_portBindings r)" for b
    using assms(2,3) that by (auto simp: ports_inv_except_def bound_ports_def)
  have ok: "tables_ok s" using assms(2) by (simp add: ports_inv_except_def)
  show ?thesis
    using short held_ports_drop [of "rt_id r" s] database.released_free [OF assms(1) ok held]
    by (auto simp: free_ports_def set_free_from)
qed

theorem shortage_frees_ports_in_use_witness:
  "\<exists>t. leasePorts (demo_io (range_config 5 6)) ''r1'' 2 demo_sys =
      (Inl (JsError ''No free runtime ports available''), t) \<and>
    runtimes t = [demo_runtime] \<and> 5 \<in> set (free_ports (range_config 5 6) (leases t))"
proof -
  have "free_ports (range_config 5 6) (leases demo_sys) = [6]"
    by (simp add: free_ports_def free_from_def demo_sys_def leased_def upto_rec1)
  then have "int (length (free_ports (io_config (demo_io (range_config 5 6))) (leases demo_sys))) < 2"
    by simp
  from shortage_frees_ports_in_use [OF demo_database ports_inv_demo demo_runtime_in _ this]
  show ?thesis by (auto simp: demo_runtime_def demo_sys_def)
qed

text \<open>A new sandbox takes its ports twice. When the row of a new sandbox has been created and
  host ports are assigned, the sandbox holds two leases for each of its ports, of which only the
  second half is bound, so as many ports again must have been free.\<close>

theorem new_sandbox_leases_twice:
  assumes "database io" and "ports_inv s"
    and "bnd (provision_new io sid name spec primary) (\<lambda>(r, ports).
           bnd (assign_ports io r ports) (\<lambda>bs. ret (r, bs))) s = (Inr (r, bs), t)"
  shows "card (held_ports t (rt_id r)) = 2 * length (rs_ports spec) \<and>
    2 * length (rs_ports spec) \<le> length (free_ports (io_config io) (leases s)) \<and>
    length bs = length (rs_ports spec) \<and> bound_ports t (rt_id r) bs"
  by (rule double_lease [OF assms])

text \<open>A specification with one port, on a range of four ports.\<close>

definition demo_spec :: runtimeSpec where
  "demo_spec =
     \<lparr>rs_image = ''nginx'', rs_registryAuth = None, rs_command = None, rs_env = [], rs_files = [],
      rs_secrets = [], rs_workingDir = None,
      rs_ports = [\<lparr>pb_name = None, pb_containerPort = 80, pb_hostPort = 0, pb_protocol = Tcp, pb_nameLast = False\<rparr>],
      rs_mounts = [], rs_mountInputs = [],
      rs_resources = \<lparr>re_cpu = 1, re_memoryMiB = 128, re_diskGiB = 1\<rparr>, rs_public = False,
      rs_autoStopMinutes = None, rs_ephemeral = False, rs_ssh = None\<rparr>"


lemma box_vm_name: "reg_sandboxName (demo_io (range_config a b)) ''box'' = Inr ''runtime-box''"
  unfolding reg_sandboxName_def sandboxName_def normalize_box
  by (simp add: sandboxNamePrefix_def envOr_def range_config_def opt_trim_def trimName_def)

theorem new_sandbox_leases_twice_witness:
  "\<exists>r bs t. bnd (provision_new (demo_io (range_config 5 8)) ''box'' None demo_spec (hd (rs_ports demo_spec)))
       (\<lambda>(r, ports). bnd (assign_ports (demo_io (range_config 5 8)) r ports) (\<lambda>bs. ret (r, bs))) sys0
       = (Inr (r, bs), t) \<and> card (held_ports t (rt_id r)) = 2 \<and> length bs = 1"
proof -
  have "\<exists>r bs t. bnd (provision_new (demo_io (range_config 5 8)) ''box'' None demo_spec (hd (rs_ports demo_spec)))
       (\<lambda>(r, ports). bnd (assign_ports (demo_io (range_config 5 8)) r ports) (\<lambda>bs. ret (r, bs))) sys0
       = (Inr (r, bs), t)"
    by (simp add: provision_new_def assign_ports_def box_vm_name new_row_def demo_spec_def sys0_def run_registry)
  then show ?thesis
    using new_sandbox_leases_twice [OF demo_database ports_inv_sys0, of "range_config 5 8" "''box''" None demo_spec]
    by (fastforce simp: demo_spec_def)
qed







text \<open>C21: a range with enough free ports for a new sandbox, but not for twice its ports, refuses the
  sandbox after its row was made: the second allocation throws, and the row stays, provisioning,
  without any lease.\<close>

theorem creation_needs_twice_the_ports:
  assumes "database io" and "ports_inv s"
    and "provision_new io sid name spec primary s = (Inr (r, ports), v)"
    and "length (free_ports (io_config io) (leases s)) < 2 * length (rs_ports spec)"
  shows "\<exists>t. assign_ports io r ports v = (Inl (JsError ''No free runtime ports available''), t) \<and>
    r \<in> set (runtimes t) \<and> rt_sandboxId r = sid \<and> rt_status r = Provisioning \<and> held_ports t (rt_id r) = {}"
proof -
  let ?n = "int (length (rs_ports spec))"
  obtain w hps where empty: "rt_portBindings r = []" "rt_sandboxId r = sid" "rt_status r = Provisioning"
    and first: "leasePorts io (rt_id r) ?n (s\<lparr>runtimes := runtimes s @ [r], ext := w\<rparr>) = (Inr hps, v)"
    and ports: "ports = merge_ports [] hps (rs_ports spec)"
    by (rule database.provision_new_run [OF assms(1,3)]) blast
  have row: "r \<in> set (runtimes v)"
    using first by (cases rule: database.leasePorts_run
        [OF assms(1), of ?n "s\<lparr>runtimes := runtimes s @ [r], ext := w\<rparr>" "rt_id r"]) auto
  have "0 \<le> ?n" by simp
  show ?thesis
  proof (cases rule: database.leasePorts_run [OF assms(1) \<open>0 \<le> ?n\<close>, of v "rt_id r", case_names leased short])
    case (leased new)
    then have "bnd (provision_new io sid name spec primary) (\<lambda>(r, ports).
           bnd (assign_ports io r ports) (\<lambda>bs. ret (r, bs))) s =
        (Inr (r, merge_ports [] (take (nat ?n) (free_ports (io_config io) (leases v))) ports),
         v\<lparr>leases := leases v @ new\<rparr>)"
      using assms(3) empty by (simp add: bnd_run assign_ports_def ports)
    from double_lease [OF assms(1,2) this] assms(4) show ?thesis by simp
  next
    case short
    then show ?thesis
      using empty row ports by (auto simp: assign_ports_def bnd_run held_ports_def)
  qed
qed

theorem creation_needs_twice_the_ports_witness:
  "\<exists>r ports v t. provision_new (demo_io (range_config 5 5)) ''box'' None demo_spec (hd (rs_ports demo_spec)) sys0
       = (Inr (r, ports), v) \<and>
     assign_ports (demo_io (range_config 5 5)) r ports v = (Inl (JsError ''No free runtime ports available''), t) \<and>
     r \<in> set (runtimes t) \<and> held_ports t (rt_id r) = {}"
proof -
  have "\<exists>r ports v. provision_new (demo_io (range_config 5 5)) ''box'' None demo_spec (hd (rs_ports demo_spec)) sys0
       = (Inr (r, ports), v)"
    by (simp add: provision_new_def box_vm_name new_row_def demo_spec_def sys0_def run_registry)
  moreover have "length (free_ports (io_config (demo_io (range_config 5 5))) (leases sys0)) < 2 * length (rs_ports demo_spec)"
    by (simp add: free_ports_def free_from_def demo_spec_def)
  ultimately show ?thesis
    using creation_needs_twice_the_ports [OF demo_database ports_inv_sys0, of "range_config 5 5" "''box''" None demo_spec]
    by blast
qed

end
