(* ===== verification/SshSession.thy ===== *)
theory SshSession
  imports World Registry "HOL-Library.AList"
begin

text \<open>
  \<open>SshSessionService\<close> (ssh/session.service.ts), \<open>SshController\<close> (ssh/ssh.controller.ts), the
  string work of \<open>SshService\<close> (ssh/ssh.service.ts) and the two guards
  (shared/internal-auth.guard.ts, ssh/ssh-gateway.guard.ts). Sessions live in a JavaScript
  \<open>Map\<close> in memory, keyed by the SHA-256 of the token; revocations live in the database. The
  host name of the configured URL is taken by a parameter, \<open>None\<close> for a URL that does not
  parse. Session times are exact integers: the default time is divided and multiplied by 60 in
  double precision, and what that loses is far below the precision of a clock reading.
\<close>

section \<open>Guards\<close>

text \<open>A header of a request is absent, one value or several.\<close>

datatype header = HeaderOne string | HeaderMany "string list"

definition firstHeader :: "header option \<Rightarrow> string option" where
  "firstHeader h =
     (case h of
        None \<Rightarrow> None
      | Some (HeaderOne v) \<Rightarrow> Some v
      | Some (HeaderMany []) \<Rightarrow> None
      | Some (HeaderMany (v # _)) \<Rightarrow> Some v)"

definition internalAuth_canActivate :: "config \<Rightarrow> header option \<Rightarrow> exn + bool" where
  "internalAuth_canActivate cfg authorization =
     (case internalApiToken cfg of
        None \<Rightarrow> Inr True
      | Some expected \<Rightarrow>
          if firstHeader authorization = Some (''Bearer '' @ expected) then Inr True
          else Inl (UnauthorizedException ''Invalid internal API token''))"

definition sshGateway_canActivate :: "config \<Rightarrow> header option \<Rightarrow> exn + bool" where
  "sshGateway_canActivate cfg authorization =
     (case internalApiToken cfg of
        None \<Rightarrow> Inr True
      | Some expected \<Rightarrow>
          if firstHeader authorization = Some (''Bearer '' @ expected) then Inr True
          else Inl (UnauthorizedException ''Invalid gateway API token''))"

section \<open>Sessions\<close>

record sshSessionResult =
  sr_token :: string
  sr_sandboxId :: string
  sr_hostPort :: int
  sr_expiresAt :: string
  sr_sshCommand :: string

record sshValidateResult =
  va_sandboxId :: string
  va_hostPort :: int
  va_expiresAt :: string

definition ssh_hash :: "'v io \<Rightarrow> string \<Rightarrow> string" where
  "ssh_hash io token = io_sha256hex io token"

definition set_session :: "string \<Rightarrow> sessionEntry \<Rightarrow> ('v sys, unit) eff" where
  "set_session key e = modify (\<lambda>s. s\<lparr>sessions := AList.update key e (sessions s)\<rparr>)"

definition drop_session :: "string \<Rightarrow> ('v sys, unit) eff" where
  "drop_session key = modify (\<lambda>s. s\<lparr>sessions := AList.delete key (sessions s)\<rparr>)"

definition pruneExpired :: "'v io \<Rightarrow> ('v sys, unit) eff" where
  "pruneExpired io =
     bnd (dateNow io) (\<lambda>now.
     modify (\<lambda>s. s\<lparr>sessions := filter (\<lambda>(_, e). \<not> now > se_expiresAt e) (sessions s)\<rparr>))"

definition isRevoked :: "'v io \<Rightarrow> string \<Rightarrow> ('v sys, bool) eff" where
  "isRevoked io key =
     bnd (revoked_findOne io (\<lambda>r. rv_tokenHash r = key)) (\<lambda>found. ret (found \<noteq> None))"

definition createSession ::
  "'v io \<Rightarrow> (string \<Rightarrow> string option) \<Rightarrow> string \<Rightarrow> int \<Rightarrow> int option \<Rightarrow> ('v sys, sshSessionResult) eff" where
  "createSession io url_hostname sandboxId hostPort expiryMinutes =
     bnd (pruneExpired io) (\<lambda>_.
     let expiryMs = (case expiryMinutes of
           None \<Rightarrow> connectionTtlSeconds (io_config io) * 1000 | Some m \<Rightarrow> m * 60 * 1000) in
     bnd (dateNow io) (\<lambda>now.
     let expiresAt = now + expiryMs in
     bnd (outside_pure (io_randomBase64url io 16)) (\<lambda>token.
     bnd (set_session (ssh_hash io token)
            \<lparr>se_sandboxId = sandboxId, se_hostPort = hostPort, se_expiresAt = expiresAt\<rparr>) (\<lambda>_.
     case url_hostname (proxyBaseUrl (io_config io)) of
       None \<Rightarrow> throw (JsError ''Invalid URL'')
     | Some hostname \<Rightarrow>
         if \<not> valid_date expiresAt then throw (JsError ''Invalid time value'')
         else ret \<lparr>sr_token = token, sr_sandboxId = sandboxId, sr_hostPort = hostPort,
              sr_expiresAt = toISOString expiresAt,
              sr_sshCommand = ''ssh -p 2222 '' @ token @ ''@'' @ hostname\<rparr>))))"

definition validateSession :: "'v io \<Rightarrow> string \<Rightarrow> ('v sys, sshValidateResult option) eff" where
  "validateSession io token =
     (let key = ssh_hash io token in
      bnd (isRevoked io key) (\<lambda>rev.
      if rev then ret None
      else bnd (gets (\<lambda>s. map_of (sessions s) key)) (\<lambda>entry.
        case entry of
          None \<Rightarrow> ret None
        | Some e \<Rightarrow>
            bnd (dateNow io) (\<lambda>now.
            if now > se_expiresAt e then bnd (drop_session key) (\<lambda>_. ret None)
            else if \<not> valid_date (se_expiresAt e) then throw (JsError ''Invalid time value'')
            else ret (Some \<lparr>va_sandboxId = se_sandboxId e, va_hostPort = se_hostPort e,
                            va_expiresAt = toISOString (se_expiresAt e)\<rparr>)))))"

definition revokeSession :: "'v io \<Rightarrow> string \<Rightarrow> ('v sys, bool) eff" where
  "revokeSession io token =
     (let key = ssh_hash io token in
      bnd (drop_session key) (\<lambda>_.
      catching
        (bnd (revoked_insert io \<lparr>rv_id = 0, rv_tokenHash = key, rv_revokedAt = 0\<rparr>) (\<lambda>_. ret True))
        (\<lambda>_. ret False)))"

section \<open>Routes\<close>

text \<open>The response drops the host port.\<close>

definition route_createSession ::
  "'v io \<Rightarrow> (string \<Rightarrow> string option) \<Rightarrow> string \<Rightarrow> int option \<Rightarrow>
   ('v sys, string \<times> string \<times> string \<times> string) eff" where
  "route_createSession io url_hostname sandboxId expiryMinutes =
     bnd (findRuntimeBySandboxId io sandboxId) (\<lambda>runtime.
     case runtime of
       None \<Rightarrow> throw (BadRequestException (''Sandbox not found: '' @ sandboxId))
     | Some r \<Rightarrow>
         (case find (\<lambda>b. pb_name b = Some ''ssh'' \<or> pb_containerPort b = 22) (rt_portBindings r) of
            None \<Rightarrow> throw (BadRequestException (''SSH is not enabled for sandbox '' @ sandboxId))
          | Some b \<Rightarrow>
              bnd (createSession io url_hostname sandboxId (pb_hostPort b) expiryMinutes) (\<lambda>x.
              ret (sr_token x, sr_sandboxId x, sr_expiresAt x, sr_sshCommand x))))"

definition route_revokeSession :: "'v io \<Rightarrow> string \<Rightarrow> ('v sys, string \<times> bool) eff" where
  "route_revokeSession io token =
     bnd (revokeSession io token) (\<lambda>revoked.
     if \<not> revoked then throw (BadRequestException ''Session token not found or already revoked'')
     else ret (token, True))"

definition route_validateToken :: "'v io \<Rightarrow> string \<Rightarrow> ('v sys, sshValidateResult) eff" where
  "route_validateToken io token =
     bnd (validateSession io token) (\<lambda>result.
     case result of
       None \<Rightarrow> throw (BadRequestException ''Invalid or expired SSH session token'')
     | Some v \<Rightarrow> ret v)"

section \<open>Files of the SSH service\<close>

datatype guestArch = Aarch64 | X86_64

definition guestArch_of :: "string \<Rightarrow> guestArch" where
  "guestArch_of process_arch = (if process_arch = ''arm64'' then Aarch64 else X86_64)"

definition binaryDir :: "string \<Rightarrow> string" where
  "binaryDir raw =
     (let root = (if suffix ''/apps/cloud-api'' raw then path_dirname (path_dirname raw) else raw)
      in path_join [root, ''data'', ''ssh''])"

definition getBinaryPath :: "string \<Rightarrow> guestArch \<Rightarrow> string" where
  "getBinaryPath raw arch =
     path_join [binaryDir raw,
       ''inject-sshd.linux-'' @ (if arch = Aarch64 then ''arm64'' else ''amd64'')]"

definition buildAuthorizedKeysContent :: "string list \<Rightarrow> string" where
  "buildAuthorizedKeysContent keys =
     join [CHR 0x0A] (filter (\<lambda>k. k \<noteq> []) (map trim keys)) @ [CHR 0x0A]"

section \<open>Lemmas\<close>

definition is_revoked :: "'v io \<Rightarrow> string \<Rightarrow> 'v sys \<Rightarrow> bool" where
  "is_revoked io token s \<longleftrightarrow> (\<exists>r \<in> set (revoked s). rv_tokenHash r = io_sha256hex io token)"

context database begin

lemma isRevoked_run: "isRevoked io (ssh_hash io token) s = (Inr (is_revoked io token s), s)"
proof -
  let ?p = "\<lambda>r. rv_tokenHash r = io_sha256hex io token"
  have "findOne (revokedRepo io) ?p (revoked s) = None \<longleftrightarrow> \<not> is_revoked io token s"
    by (simp add: rv.findOne_None is_revoked_def)
  then show ?thesis by (auto simp: isRevoked_def bnd_run revoked_findOne_def ssh_hash_def)
qed

text \<open>\<open>validateSession\<close> in one equation.\<close>

lemma validateSession_run:
  "validateSession io token s =
     (case (if is_revoked io token s then None else map_of (sessions s) (ssh_hash io token)) of
        None \<Rightarrow> (Inr None, s)
      | Some e \<Rightarrow>
          (let (now, w) = io_now io (ext s) in
           if now \<le> se_expiresAt e
           then (if valid_date (se_expiresAt e)
                 then Inr (Some \<lparr>va_sandboxId = se_sandboxId e, va_hostPort = se_hostPort e,
                            va_expiresAt = toISOString (se_expiresAt e)\<rparr>)
                 else Inl (JsError ''Invalid time value''), s\<lparr>ext := w\<rparr>)
           else (Inr None, s\<lparr>ext := w, sessions := AList.delete (ssh_hash io token) (sessions s)\<rparr>)))"
  by (auto simp: validateSession_def bnd_run isRevoked_run dateNow_def outside_pure_def drop_session_def
      Let_def split: option.splits prod.splits)

lemma revokeSession_run:
  obtains (fresh) row where "\<not> is_revoked io token s" and "rv_tokenHash row = ssh_hash io token"
      and "revokeSession io token s =
        (Inr True, s\<lparr>sessions := AList.delete (ssh_hash io token) (sessions s), revoked := revoked s @ [row]\<rparr>)"
    | (again) "is_revoked io token s"
      and "revokeSession io token s =
        (Inr False, s\<lparr>sessions := AList.delete (ssh_hash io token) (sessions s)\<rparr>)"
proof -
  let ?row = "\<lparr>rv_id = 0, rv_tokenHash = ssh_hash io token, rv_revokedAt = 0\<rparr>"
  have clash: "(\<exists>x \<in> set (revoked s). revoked_clash ?row x) \<longleftrightarrow> is_revoked io token s"
    by (simp add: revoked_clash_def is_revoked_def ssh_hash_def) metis
  show thesis
  proof (cases rule: rv.insert_cases [of "revoked s" ?row])
    case (ok i c)
    show thesis
      by (rule fresh [of "revoked_stamp i c ?row"])
        (use ok clash in \<open>auto simp: revokeSession_def bnd_run catching_run drop_session_def
          revoked_insert_def revoked_stamp_def Let_def\<close>)
  next
    case (clash e)
    then show thesis using \<open>_ \<longleftrightarrow> is_revoked io token s\<close>
      by (intro again) (auto simp: revokeSession_def bnd_run catching_run drop_session_def revoked_insert_def Let_def)
  qed
qed

end

text \<open>\<open>createSession\<close> reads the clock twice; the second reading is the time of creation.\<close>

definition created_at :: "'v io \<Rightarrow> 'v sys \<Rightarrow> int" where
  "created_at io s = fst (io_now io (snd (io_now io (ext s))))"

definition session_ttl :: "'v io \<Rightarrow> int option \<Rightarrow> int" where
  "session_ttl io m = (case m of None \<Rightarrow> connectionTtlSeconds (io_config io) * 1000 | Some k \<Rightarrow> k * 60000)"

lemma createSession_run:
  assumes "createSession io url_hostname sid p m s = (Inr x, t)"
  shows "map_of (sessions t) (ssh_hash io (sr_token x)) = Some \<lparr>se_sandboxId = sid, se_hostPort = p,
        se_expiresAt = created_at io s + session_ttl io m\<rparr>"
    and "revoked t = revoked s" and "sr_sandboxId x = sid" and "sr_hostPort x = p"
    and "sr_expiresAt x = toISOString (created_at io s + session_ttl io m)"
    and "valid_date (created_at io s + session_ttl io m)"
proof -
  obtain n1 v1 where 1: "io_now io (ext s) = (n1, v1)" by fastforce
  obtain n2 v2 where 2: "io_now io v1 = (n2, v2)" by fastforce
  obtain k v3 where 3: "io_randomBase64url io 16 v2 = (k, v3)" by fastforce
  define ttl where "ttl = session_ttl io m"
  have ms: "(case m of None \<Rightarrow> connectionTtlSeconds (io_config io) * 1000 | Some k \<Rightarrow> k * 60 * 1000) = ttl"
    by (simp add: ttl_def session_ttl_def split: option.split)
  have run: "createSession io url_hostname sid p m s =
      (case url_hostname (proxyBaseUrl (io_config io)) of
         None \<Rightarrow> throw (JsError ''Invalid URL'')
       | Some h \<Rightarrow> if \<not> valid_date (n2 + ttl) then throw (JsError ''Invalid time value'')
          else ret \<lparr>sr_token = k, sr_sandboxId = sid, sr_hostPort = p,
           sr_expiresAt = toISOString (n2 + ttl), sr_sshCommand = ''ssh -p 2222 '' @ k @ ''@'' @ h\<rparr>)
      (s\<lparr>ext := v3, sessions := AList.update (ssh_hash io k)
         \<lparr>se_sandboxId = sid, se_hostPort = p, se_expiresAt = n2 + ttl\<rparr>
         (filter (\<lambda>(_, e). \<not> n1 > se_expiresAt e) (sessions s))\<rparr>)"
    unfolding createSession_def pruneExpired_def Let_def ms using 1 2 3
    by (simp add: bnd_run dateNow_def outside_pure_def set_session_def)
  then obtain h where "url_hostname (proxyBaseUrl (io_config io)) = Some h"
    using assms by (cases "url_hostname (proxyBaseUrl (io_config io))") auto
  with run assms have
    "sr_token x = k" "sr_sandboxId x = sid" "sr_hostPort x = p" "revoked t = revoked s"
    "sr_expiresAt x = toISOString (n2 + ttl)" "valid_date (n2 + ttl)"
    "sessions t = AList.update (ssh_hash io k) \<lparr>se_sandboxId = sid, se_hostPort = p, se_expiresAt = n2 + ttl\<rparr>
         (filter (\<lambda>(_, e). \<not> n1 > se_expiresAt e) (sessions s))"
    by (auto split: if_splits)
  moreover have "created_at io s = n2" by (simp add: created_at_def 1 2)
  ultimately show "map_of (sessions t) (ssh_hash io (sr_token x)) = Some \<lparr>se_sandboxId = sid, se_hostPort = p,
        se_expiresAt = created_at io s + session_ttl io m\<rparr>"
    and "revoked t = revoked s" and "sr_sandboxId x = sid" and "sr_hostPort x = p"
    and "sr_expiresAt x = toISOString (created_at io s + session_ttl io m)"
    and "valid_date (created_at io s + session_ttl io m)"
    by (simp_all add: update_conv ttl_def)
qed

text \<open>
  A session of more minutes than a date can hold is refused with an error of the runtime, no
  request error, and after it was stored.
\<close>

lemma late_session_stored:
  assumes "url_hostname (proxyBaseUrl (io_config io)) = Some h"
    and "\<not> valid_date (created_at io s + session_ttl io m)"
  shows "\<exists>t key. createSession io url_hostname sid p m s = (Inl (JsError ''Invalid time value''), t) \<and>
    map_of (sessions t) key = Some \<lparr>se_sandboxId = sid, se_hostPort = p,
      se_expiresAt = created_at io s + session_ttl io m\<rparr>"
proof -
  obtain n1 v1 where 1: "io_now io (ext s) = (n1, v1)" by fastforce
  obtain n2 v2 where 2: "io_now io v1 = (n2, v2)" by fastforce
  obtain k v3 where 3: "io_randomBase64url io 16 v2 = (k, v3)" by fastforce
  have n2: "created_at io s = n2" by (simp add: created_at_def 1 2)
  have ms: "(case m of None \<Rightarrow> connectionTtlSeconds (io_config io) * 1000 | Some k \<Rightarrow> k * 60 * 1000) = session_ttl io m"
    by (simp add: session_ttl_def split: option.split)
  define stored where "stored = AList.update (ssh_hash io k)
    \<lparr>se_sandboxId = sid, se_hostPort = p, se_expiresAt = n2 + session_ttl io m\<rparr>
    (filter (\<lambda>(_, e). \<not> n1 > se_expiresAt e) (sessions s))"
  have "createSession io url_hostname sid p m s =
      (Inl (JsError ''Invalid time value''), s\<lparr>ext := v3, sessions := stored\<rparr>)"
    unfolding createSession_def pruneExpired_def Let_def ms using 1 2 3 assms n2
    by (simp add: bnd_run dateNow_def outside_pure_def set_session_def stored_def)
  moreover have "map_of stored (ssh_hash io k) = Some \<lparr>se_sandboxId = sid, se_hostPort = p,
      se_expiresAt = created_at io s + session_ttl io m\<rparr>"
    by (simp add: stored_def update_conv n2)
  ultimately show ?thesis by auto
qed

section \<open>Properties\<close>

text \<open>C30: an SSH session can be used until it expires. Right after it was created, and as long as its
  token is not revoked and the session table is not changed, validation at a clock reading up to
  the expiry (the time of creation and the asked minutes, or the configured default) returns the
  sandbox and host port it was made for, and later it returns nothing and forgets the session.\<close>

theorem session_valid_until_expiry:
  fixes io :: "'v io"
  assumes "database io" and "createSession io url_hostname sid p m s = (Inr x, t)"
    and "\<not> is_revoked io (sr_token x) t"
  shows "\<forall>u. sessions u = sessions t \<and> revoked u = revoked t \<longrightarrow>
      (case validateSession io (sr_token x) u of
         (Inr (Some v), _) \<Rightarrow> va_sandboxId v = sid \<and> va_hostPort v = p \<and>
           fst (io_now io (ext u)) \<le> created_at io s + session_ttl io m
       | (Inr None, u') \<Rightarrow> map_of (sessions u') (ssh_hash io (sr_token x)) = None \<and>
           fst (io_now io (ext u)) > created_at io s + session_ttl io m
       | (Inl _, _) \<Rightarrow> False)"
proof (intro allI impI)
  fix u :: "'v sys" assume u: "sessions u = sessions t \<and> revoked u = revoked t"
  then have "\<not> is_revoked io (sr_token x) u" using assms(3) by (simp add: is_revoked_def)
  moreover have "map_of (sessions u) (ssh_hash io (sr_token x)) = Some \<lparr>se_sandboxId = sid,
      se_hostPort = p, se_expiresAt = created_at io s + session_ttl io m\<rparr>"
    using u createSession_run(1) [OF assms(2)] by simp
  moreover note createSession_run(6) [OF assms(2)]
  ultimately show "case validateSession io (sr_token x) u of
       (Inr (Some v), _) \<Rightarrow> va_sandboxId v = sid \<and> va_hostPort v = p \<and>
         fst (io_now io (ext u)) \<le> created_at io s + session_ttl io m
     | (Inr None, u') \<Rightarrow> map_of (sessions u') (ssh_hash io (sr_token x)) = None \<and>
         fst (io_now io (ext u)) > created_at io s + session_ttl io m
     | (Inl _, _) \<Rightarrow> False"
    unfolding database.validateSession_run [OF assms(1)]
    by (simp add: split_beta Let_def delete_conv del: option.case_eq_if)
qed

theorem session_valid_until_expiry_witness:
  "\<exists>x t. createSession (demo_io empty_config) (\<lambda>_. Some ''localhost'') ''box'' 2200 None sys0 = (Inr x, t) \<and>
    (case validateSession (demo_io empty_config) (sr_token x) t of
       (Inr (Some v), _) \<Rightarrow> va_sandboxId v = ''box'' \<and> va_hostPort v = 2200
     | (Inr None, t') \<Rightarrow> map_of (sessions t') (ssh_hash (demo_io empty_config) (sr_token x)) = None
     | (Inl _, _) \<Rightarrow> False)"
proof -
  have "\<exists>x t. createSession (demo_io empty_config) (\<lambda>_. Some ''localhost'') ''box'' 2200 None sys0 = (Inr x, t)
      \<and> revoked t = []"
    by (simp add: createSession_def pruneExpired_def bnd_run dateNow_def outside_pure_def set_session_def
        demo_random_def sys0_def Let_def world0_def valid_date_def connectionTtlSeconds_def)
  then obtain x t where run: "createSession (demo_io empty_config) (\<lambda>_. Some ''localhost'') ''box'' 2200 None sys0 = (Inr x, t)"
    and "revoked t = []" by blast
  then have "\<not> is_revoked (demo_io empty_config) (sr_token x) t" by (simp add: is_revoked_def)
  from session_valid_until_expiry [OF demo_database run this] have
    "case validateSession (demo_io empty_config) (sr_token x) t of
       (Inr (Some v), _) \<Rightarrow> va_sandboxId v = ''box'' \<and> va_hostPort v = 2200
     | (Inr None, t') \<Rightarrow> map_of (sessions t') (ssh_hash (demo_io empty_config) (sr_token x)) = None
     | (Inl _, _) \<Rightarrow> False"
    by (elim allE [of _ t]) (auto split: prod.splits sum.splits option.splits)
  with run show ?thesis by (auto split: prod.splits sum.splits option.splits)
qed

text \<open>Revocation is final: after a revocation, successful or refused, no session table makes the
  token valid again.\<close>

theorem revocation_final:
  assumes "database io" and "revokeSession io token s = (q, t)"
  shows "revoked u = revoked t \<longrightarrow> validateSession io token u = (Inr None, u)"
proof -
  have "is_revoked io token t"
    by (rule database.revokeSession_run [OF assms(1), of token s])
      (use assms(2) in \<open>auto simp: is_revoked_def ssh_hash_def\<close>)
  then have "revoked u = revoked t \<Longrightarrow> is_revoked io token u" by (simp add: is_revoked_def)
  then show ?thesis by (simp add: database.validateSession_run [OF assms(1)])
qed

theorem revocation_final_witness:
  "let t = snd (revokeSession (demo_io empty_config) ''tok'' sys0);
       u = t\<lparr>sessions := [(''sha-tok'', \<lparr>se_sandboxId = ''box'', se_hostPort = 22, se_expiresAt = 9999\<rparr>)]\<rparr>
   in validateSession (demo_io empty_config) ''tok'' u = (Inr None, u)"
  unfolding Let_def
  by (rule revocation_final [OF demo_database prod.collapse [symmetric], THEN mp]) simp

text \<open>Revoking answers true exactly when the token was not revoked before, whether or not there
  ever was a session with it: the route reports a token that never existed as revoked.\<close>

theorem revoke_unknown_token:
  assumes "database io"
  shows "fst (revokeSession io token s) = Inr (\<not> is_revoked io token s) \<and>
    (\<not> is_revoked io token s \<longrightarrow> fst (route_revokeSession io token s) = Inr (token, True))"
  by (rule database.revokeSession_run [OF assms, of token s])
    (simp_all add: route_revokeSession_def bnd_run)

theorem revoke_unknown_token_witness:
  "fst (route_revokeSession (demo_io empty_config) ''never-issued'' sys0) = Inr (''never-issued'', True)"
proof -
  have "\<not> is_revoked (demo_io empty_config) ''never-issued'' sys0" by (simp add: is_revoked_def sys0_def)
  with revoke_unknown_token [OF demo_database, of empty_config "''never-issued''" sys0] show ?thesis by blast
qed

text \<open>The two guards let the same requests through: all of them when no token is configured, and
  otherwise exactly those whose first authorization header is the bearer token.\<close>

theorem guards_agree:
  "(internalAuth_canActivate cfg h = Inr True \<longleftrightarrow> sshGateway_canActivate cfg h = Inr True) \<and>
   (internalAuth_canActivate cfg h = Inr True \<longleftrightarrow>
      internalApiToken cfg = None \<or> firstHeader h = map_option (\<lambda>k. ''Bearer '' @ k) (internalApiToken cfg)) \<and>
   internalAuth_canActivate cfg h \<noteq> Inr False"
  by (auto simp: internalAuth_canActivate_def sshGateway_canActivate_def split: option.splits)

end
