(* ===== verification/Controller.thy ===== *)
theory Controller
  imports Port_Safety SshSession
begin

text \<open>
  \<open>SandboxController\<close> (runtime-control/sandbox.controller.ts) and the SSH routes as one request
  handler: a request per route, the guard of the route first, then the service method. The
  parsing of paths and bodies by the framework is not modelled; a request carries the parsed
  parameters. The theorems state what every request keeps.
\<close>

section \<open>Requests and responses\<close>

text \<open>The bodies of the routes that run commands, move files and make volumes.\<close>

record execRuntimeDto =
  ex_command :: string
  ex_args :: "string list option"

record writeFilesDto =
  wf_files :: "runtimeFile list"

record downloadFilesDto =
  df_paths :: "string list"

record createVolumeDto =
  cv_name :: string
  cv_quotaMiB :: "int option"

record pullImageBody =
  pi_reference :: "string option"
  pi_registryAuth :: "registryAuth option"

datatype request =
    ListSandboxes
  | CreateSandbox sandboxSpecDto
  | EnsureSandbox ensureRuntimeDto
  | UpdateSandbox string updateSandboxDto
  | GetSandbox string
  | StartSandbox string
  | StopSandbox string
  | DeleteSandbox string
  | PreviewUrl string int
  | SignedPreviewUrl string int
  | ExpireSignedPreviewUrl string int string
  | ExecCommand string execRuntimeDto
  | RefreshActivity string
  | WriteFiles string writeFilesDto
  | DownloadFiles string downloadFilesDto
  | ListVolumes
  | CreateVolume createVolumeDto
  | GetVolume string
  | DeleteVolume string
  | ListImages
  | PullImage pullImageBody
  | PreviewPublic string
  | PreviewValidate string string
  | PreviewResolve string int

datatype response =
    Summaries "runtimeSummary list"
  | Summary runtimeSummary
  | DeleteDone string bool
  | Url previewUrl
  | Expired string int string bool
  | ExecDone string string execResult
  | Files string "runtimeFile list"
  | VolumeList "volumeSummaryRec list"
  | Volume volumeSummaryRec
  | Images "imageInfo list"
  | Pulled imageInfo bool
  | PublicState string bool
  | Valid string bool
  | Resolved string int

text \<open>The controller's own \<open>normalizeRegistryAuth\<close>.\<close>

definition controller_registryAuth :: "registryAuth option \<Rightarrow> registryAuth option" where
  "controller_registryAuth input =
     (case input of
        None \<Rightarrow> None
      | Some a \<Rightarrow>
          (let server = trim (ra_server a); username = trim (ra_username a); password = ra_password a
           in if server = [] \<or> username = [] \<or> password = [] then None
              else Some \<lparr>ra_server = server, ra_username = username, ra_password = password\<rparr>))"

definition responds :: "('a \<Rightarrow> response) \<Rightarrow> ('s, 'a) eff \<Rightarrow> ('s, response) eff" where
  "responds f m = bnd m (\<lambda>x. ret (f x))"

text \<open>The methods of the controller, in its order, each a call of the service.\<close>

definition sandbox_list :: "'v io \<Rightarrow> ('v sys, response) eff" where
  "sandbox_list io =
     responds Summaries (control_list io)"

definition sandbox_create :: "'v io \<Rightarrow> sandboxSpecDto \<Rightarrow> ('v sys, response) eff" where
  "sandbox_create io body =
     responds Summary (control_create io body)"

definition sandbox_ensure :: "'v io \<Rightarrow> ensureRuntimeDto \<Rightarrow> ('v sys, response) eff" where
  "sandbox_ensure io body =
     responds Summary (control_ensure io body)"

definition sandbox_update :: "'v io \<Rightarrow> string \<Rightarrow> updateSandboxDto \<Rightarrow> ('v sys, response) eff" where
  "sandbox_update io sandboxId body =
     responds Summary (control_update io sandboxId body)"

definition sandbox_get :: "'v io \<Rightarrow> string \<Rightarrow> ('v sys, response) eff" where
  "sandbox_get io x =
     responds Summary (control_get io x)"

definition sandbox_start :: "'v io \<Rightarrow> string \<Rightarrow> ('v sys, response) eff" where
  "sandbox_start io x =
     responds Summary (control_start io x)"

definition sandbox_stop :: "'v io \<Rightarrow> string \<Rightarrow> ('v sys, response) eff" where
  "sandbox_stop io x =
     responds Summary (control_stop io x)"

definition sandbox_delete :: "'v io \<Rightarrow> string \<Rightarrow> ('v sys, response) eff" where
  "sandbox_delete io x =
     responds (\<lambda>(a, b). DeleteDone a b) (control_delete io x)"

definition sandbox_previewUrl :: "'v io \<Rightarrow> string \<Rightarrow> int \<Rightarrow> ('v sys, response) eff" where
  "sandbox_previewUrl io x p =
     responds Url (getPreviewUrl io x p)"

definition sandbox_signedPreviewUrl :: "'v io \<Rightarrow> string \<Rightarrow> int \<Rightarrow> ('v sys, response) eff" where
  "sandbox_signedPreviewUrl io x p =
     responds Url (getSignedPreviewUrl io x p)"

definition sandbox_expireSignedPreviewUrl :: "'v io \<Rightarrow> string \<Rightarrow> int \<Rightarrow> string \<Rightarrow> ('v sys, response) eff" where
  "sandbox_expireSignedPreviewUrl io x p token =
     responds (\<lambda>(a, b, c, d). Expired a b c d) (expireSignedPreviewUrl io x p token)"

definition sandbox_exec :: "'v io \<Rightarrow> string \<Rightarrow> execRuntimeDto \<Rightarrow> ('v sys, response) eff" where
  "sandbox_exec io x body =
     responds (\<lambda>(a, b, c). ExecDone a b c) (control_exec io x (ex_command body) (or_nil (ex_args body)))"

definition sandbox_refreshActivity :: "'v io \<Rightarrow> string \<Rightarrow> ('v sys, response) eff" where
  "sandbox_refreshActivity io x =
     responds Summary (control_refreshActivity io x)"

definition sandbox_writeFiles :: "'v io \<Rightarrow> string \<Rightarrow> writeFilesDto \<Rightarrow> ('v sys, response) eff" where
  "sandbox_writeFiles io x body =
     responds Summary (control_writeFiles io x (wf_files body))"

definition sandbox_downloadFiles :: "'v io \<Rightarrow> string \<Rightarrow> downloadFilesDto \<Rightarrow> ('v sys, response) eff" where
  "sandbox_downloadFiles io x body =
     responds (\<lambda>(a, b). Files a b) (control_downloadFiles io x (df_paths body))"

definition sandbox_listVolumes :: "'v io \<Rightarrow> ('v sys, response) eff" where
  "sandbox_listVolumes io =
     responds VolumeList (control_listVolumes io)"

definition sandbox_createVolume :: "'v io \<Rightarrow> createVolumeDto \<Rightarrow> ('v sys, response) eff" where
  "sandbox_createVolume io body =
     responds Volume (control_createVolume io (cv_name body) (cv_quotaMiB body))"

definition sandbox_getVolume :: "'v io \<Rightarrow> string \<Rightarrow> ('v sys, response) eff" where
  "sandbox_getVolume io x =
     responds Volume (control_getVolume io x)"

definition sandbox_deleteVolume :: "'v io \<Rightarrow> string \<Rightarrow> ('v sys, response) eff" where
  "sandbox_deleteVolume io x =
     responds (\<lambda>(a, b). DeleteDone a b) (control_deleteVolume io x)"

definition sandbox_listImages :: "'v io \<Rightarrow> ('v sys, response) eff" where
  "sandbox_listImages io =
     responds Images (control_listImages io)"

definition sandbox_pullImage :: "'v io \<Rightarrow> pullImageBody \<Rightarrow> ('v sys, response) eff" where
  "sandbox_pullImage io body =
     responds (\<lambda>(a, b). Pulled a b) (control_pullImage io (Some (trim (or_else (pi_reference body) [])))
       (controller_registryAuth (pi_registryAuth body)))"

definition sandbox_previewPublic :: "'v io \<Rightarrow> string \<Rightarrow> ('v sys, response) eff" where
  "sandbox_previewPublic io x =
     responds (\<lambda>(a, b). PublicState a b) (getPreviewPublicState io x)"

definition sandbox_previewValidate :: "'v io \<Rightarrow> string \<Rightarrow> string \<Rightarrow> ('v sys, response) eff" where
  "sandbox_previewValidate io x token =
     responds (\<lambda>(a, b). Valid a b) (validatePreviewToken io x token)"

definition sandbox_previewResolve :: "'v io \<Rightarrow> string \<Rightarrow> int \<Rightarrow> ('v sys, response) eff" where
  "sandbox_previewResolve io token p =
     responds (\<lambda>(a, b). Resolved a b) (resolveSignedPreviewToken io token p)"

lemmas sandbox_methods = sandbox_list_def sandbox_create_def sandbox_ensure_def sandbox_update_def sandbox_get_def
  sandbox_start_def sandbox_stop_def sandbox_delete_def sandbox_previewUrl_def
  sandbox_signedPreviewUrl_def sandbox_expireSignedPreviewUrl_def sandbox_exec_def
  sandbox_refreshActivity_def sandbox_writeFiles_def sandbox_downloadFiles_def
  sandbox_listVolumes_def sandbox_createVolume_def sandbox_getVolume_def
  sandbox_deleteVolume_def sandbox_listImages_def sandbox_pullImage_def
  sandbox_previewPublic_def sandbox_previewValidate_def sandbox_previewResolve_def

fun route :: "'v io \<Rightarrow> request \<Rightarrow> ('v sys, response) eff" where
  "route io ListSandboxes = sandbox_list io"
| "route io (CreateSandbox body) = sandbox_create io body"
| "route io (EnsureSandbox body) = sandbox_ensure io body"
| "route io (UpdateSandbox sandboxId body) = sandbox_update io sandboxId body"
| "route io (GetSandbox x) = sandbox_get io x"
| "route io (StartSandbox x) = sandbox_start io x"
| "route io (StopSandbox x) = sandbox_stop io x"
| "route io (DeleteSandbox x) = sandbox_delete io x"
| "route io (PreviewUrl x p) = sandbox_previewUrl io x p"
| "route io (SignedPreviewUrl x p) = sandbox_signedPreviewUrl io x p"
| "route io (ExpireSignedPreviewUrl x p token) = sandbox_expireSignedPreviewUrl io x p token"
| "route io (ExecCommand x body) = sandbox_exec io x body"
| "route io (RefreshActivity x) = sandbox_refreshActivity io x"
| "route io (WriteFiles x body) = sandbox_writeFiles io x body"
| "route io (DownloadFiles x body) = sandbox_downloadFiles io x body"
| "route io ListVolumes = sandbox_listVolumes io"
| "route io (CreateVolume body) = sandbox_createVolume io body"
| "route io (GetVolume x) = sandbox_getVolume io x"
| "route io (DeleteVolume x) = sandbox_deleteVolume io x"
| "route io ListImages = sandbox_listImages io"
| "route io (PullImage body) = sandbox_pullImage io body"
| "route io (PreviewPublic x) = sandbox_previewPublic io x"
| "route io (PreviewValidate x token) = sandbox_previewValidate io x token"
| "route io (PreviewResolve token p) = sandbox_previewResolve io token p"

text \<open>The three preview look-ups have no guard.\<close>

fun guarded :: "request \<Rightarrow> bool" where
  "guarded (PreviewPublic _) = False"
| "guarded (PreviewValidate _ _) = False"
| "guarded (PreviewResolve _ _) = False"
| "guarded _ = True"

text \<open>
  The validation pipe that main.ts installs: a body that breaks a bound of its class is refused
  before the method runs, and after the guard.
\<close>

fun valid_request :: "request \<Rightarrow> bool" where
  "valid_request (CreateSandbox body) = valid_spec body"
| "valid_request (EnsureSandbox body) = valid_spec body"
| "valid_request (UpdateSandbox _ body) = valid_spec body"
| "valid_request (CreateVolume body) = at_least 1 (cv_quotaMiB body)"
| "valid_request _ = True"

definition validated :: "'v io \<Rightarrow> request \<Rightarrow> ('v sys, response) eff" where
  "validated io req =
     (if valid_request req then route io req else throw (BadRequestException ''Bad Request Exception''))"

definition handle :: "'v io \<Rightarrow> header option \<Rightarrow> request \<Rightarrow> ('v sys, response) eff" where
  "handle io authorization req =
     (if guarded req
      then bnd (lift_sum (internalAuth_canActivate (io_config io) authorization)) (\<lambda>_. validated io req)
      else validated io req)"

text \<open>The health check (health/health.controller.ts) registers the local host and tells the time.\<close>

definition health :: "'v io \<Rightarrow> ('v sys, bool \<times> string \<times> string) eff" where
  "health io =
     bnd (ensureLocalHost io) (\<lambda>_. bnd (dateNow io) (\<lambda>now. ret (True, ''microsandbox-cloud'', toISOString now)))"

section \<open>What every request keeps\<close>

context database begin

lemma keeps_tables_handle: "keeps tables_ok (handle io auth req)"
proof -
  have "keeps tables_ok (route io req)"
    by (cases req) (simp_all only: route.simps sandbox_methods responds_def, (intro keeps_intros)+)
  then show ?thesis unfolding handle_def validated_def by (intro keeps_intros)
qed

text \<open>Methods that touch neither runtimes nor leases.\<close>

lemma keeps_frame_writes [keeps_intros]:
  "keeps (ports_frame R L) (preview_insert io k)" "keeps (ports_frame R L) (preview_delete io p)"
  "keeps (ports_frame R L) (volume_insert io v)" "keeps (ports_frame R L) (volume_delete io q)"
proof -
  have frame: "keeps (ports_frame R L) m" if "keeps tables_ok m"
      "\<And>s r t. m s = (r, t) \<Longrightarrow> runtimes t = runtimes s \<and> leases t = leases s"
    for m :: "('v sys, 'y) eff"
    by (rule keepsI) (use that in \<open>auto simp: ports_frame_def dest: keepsD\<close>)
  show "keeps (ports_frame R L) (preview_insert io k)" "keeps (ports_frame R L) (preview_delete io p)"
    "keeps (ports_frame R L) (volume_insert io v)" "keeps (ports_frame R L) (volume_delete io q)"
    by (rule frame, rule keeps_tables_insert keeps_tables_delete,
        (auto simp: table_ops split: prod.splits)[1])+
qed

lemma keeps_frame_methods [keeps_intros]:
  "keeps (ports_frame R L) (control_list io)" "keeps (ports_frame R L) (control_listVolumes io)"
  "keeps (ports_frame R L) (control_getVolume io x)" "keeps (ports_frame R L) (control_deleteVolume io x)"
  "keeps (ports_frame R L) (control_createVolume io x quota)"
  "keeps (ports_frame R L) (control_listImages io)" "keeps (ports_frame R L) (control_pullImage io ref auth)"
  "keeps (ports_frame R L) (expireSignedPreviewUrl io x p k)"
  "keeps (ports_frame R L) (getPreviewPublicState io x)" "keeps (ports_frame R L) (validatePreviewToken io x k)"
  "keeps (ports_frame R L) (resolveSignedPreviewToken io k p)"
  "keeps (ports_frame R L) (createSignedPreviewToken io x p ttl)"
  unfolding control_methods listRuntimes_def reg_listVolumes_def runtime_findDesc_def volume_findDesc_def
    reg_deleteVolume_def saveVolume_def getSignedPreviewToken_def expireSignedPreviewToken_def
    hasSignedPreviewTokenExpired_def preview_findOne_def createSignedPreviewToken_def
  by (intro keeps_intros)+

lemma post_require:
  "post (ports_inv_except X) (requireRuntime io x) (\<lambda>r s. ports_inv_except X s \<and> current r s) (\<lambda>_. ports_inv_except X)"
proof (rule postI)
  fix s r t assume "ports_inv_except X s" and run: "requireRuntime io x s = (Inr r, t)"
  then show "ports_inv_except X t \<and> current r t"
    by (auto simp: current_def elim: requireRuntime_run)
next
  fix s e t assume s: "ports_inv_except X s" and run: "requireRuntime io x s = (Inl e, t)"
  have "keeps (ports_inv_except X) (requireRuntime io x)" by (rule keeps_inv_frame) (intro keeps_intros)
  then show "ports_inv_except X t" using s run by (rule keepsD)
qed

lemma post_sync:
  "post (\<lambda>s. ports_inv_except X s \<and> current r s) (syncStatus io r) (\<lambda>x s. ports_inv_except X s \<and> current x s) (\<lambda>_. ports_inv_except X)"
  unfolding syncStatus_def Let_def
  by (rule post_then, rule keeps_current_frame, intro keeps_intros)
    (auto intro!: post_if post_update post_ret)

lemma post_running:
  "post (ports_inv_except X) (requireRunningRuntime io x) (\<lambda>r s. ports_inv_except X s \<and> current r s) (\<lambda>_. ports_inv_except X)"
  unfolding requireRunningRuntime_def
  by (rule post_bnd [OF post_bnd [OF post_require post_sync]]) (auto intro!: post_if post_throw post_ret)

lemma post_previewable:
  "post (ports_inv_except X) (ensurePreviewable io x p) (\<lambda>r s. ports_inv_except X s \<and> current r s) (\<lambda>_. ports_inv_except X)"
  unfolding ensurePreviewable_def
  by (rule post_bnd [OF post_running], rule post_then, rule keeps_current_frame, intro keeps_intros)
    (auto intro: post_ret)

lemma post_status:
  "post (\<lambda>s. ports_inv_except X s \<and> current r s) (setRuntimeStatus io r st rs)
     (\<lambda>x s. ports_inv_except X s \<and> current x s) (\<lambda>_. ports_inv_except X)"
  unfolding setRuntimeStatus_def
  by (rule post_then, rule keeps_current_frame, intro keeps_intros) (auto intro!: post_update)

lemma post_touch:
  "post (\<lambda>s. ports_inv_except X s \<and> current r s) (touchActivity io r)
     (\<lambda>x s. ports_inv_except X s \<and> current x s) (\<lambda>_. ports_inv_except X)"
  unfolding touchActivity_def
  by (rule post_then, rule keeps_current_frame, intro keeps_intros) (auto intro!: post_update)

text \<open>A step on a current row, and the last step of a method.\<close>

lemma post_row:
  fixes m :: "('v sys, 'y) eff"
  assumes "\<And>R L. keeps (ports_frame R L) m"
    and "\<And>x. post (\<lambda>s. ports_inv_except X s \<and> current r s) (f x) Q (\<lambda>_. ports_inv_except X)"
  shows "post (\<lambda>s. ports_inv_except X s \<and> current r s) (bnd m f) Q (\<lambda>_. ports_inv_except X)"
  by (rule post_then [OF keeps_current_frame [OF assms(1)] assms(2)]) simp

lemma post_last: "post (\<lambda>s. ports_inv_except X s \<and> P s) (ret x) (\<lambda>_. ports_inv_except X) E"
  by (rule post_ret) simp

lemma keeps_inv_methods:
  "post (ports_inv_except X) (control_get io x) (\<lambda>_. ports_inv_except X) (\<lambda>_. ports_inv_except X)"
  "post (ports_inv_except X) (control_start io x) (\<lambda>_. ports_inv_except X) (\<lambda>_. ports_inv_except X)"
  "post (ports_inv_except X) (control_stop io x) (\<lambda>_. ports_inv_except X) (\<lambda>_. ports_inv_except X)"
  "post (ports_inv_except X) (control_exec io x cmd args) (\<lambda>_. ports_inv_except X) (\<lambda>_. ports_inv_except X)"
  "post (ports_inv_except X) (control_refreshActivity io x) (\<lambda>_. ports_inv_except X) (\<lambda>_. ports_inv_except X)"
  "post (ports_inv_except X) (control_writeFiles io x files) (\<lambda>_. ports_inv_except X) (\<lambda>_. ports_inv_except X)"
  "post (ports_inv_except X) (control_downloadFiles io x args) (\<lambda>_. ports_inv_except X) (\<lambda>_. ports_inv_except X)"
  "post (ports_inv_except X) (getPreviewUrl io x p) (\<lambda>_. ports_inv_except X) (\<lambda>_. ports_inv_except X)"
  "post (ports_inv_except X) (getSignedPreviewUrl io x p) (\<lambda>_. ports_inv_except X) (\<lambda>_. ports_inv_except X)"
  unfolding control_get_def control_start_def control_stop_def control_exec_def control_refreshActivity_def
    control_writeFiles_def control_downloadFiles_def getPreviewUrl_def getSignedPreviewUrl_def Let_def
  by (rule post_bnd [OF post_require] post_bnd [OF post_running] post_bnd [OF post_previewable],
      (rule post_bnd [OF post_sync] post_bnd [OF post_status] post_bnd [OF post_touch] post_last
         | (rule post_row, (intro keeps_intros)[1]))+)+

text \<open>Releasing the ports first changes nothing: deletion drops the same leases.\<close>

lemma release_then_delete:
  "bnd (releasePorts io (rt_id r)) (\<lambda>_. deleteRuntime io r) s = deleteRuntime io r s"
  by (simp add: bnd_run releasePorts_def lease_delete_def pl.delete_rows deleteRuntime_run)

lemma control_delete_alt:
  "control_delete io x =
     bnd (requireRuntime io x) (\<lambda>r.
     bnd (setRuntimeStatus io r Deleting (Some ''delete_requested'')) (\<lambda>_.
     bnd (outside (ad_remove (io_adapter io) (rt_sandboxName r))) (\<lambda>_.
     bnd (deleteRuntime io r) (\<lambda>_. ret (rt_sandboxId r, True)))))"
proof -
  have "bnd (releasePorts io (rt_id r)) (\<lambda>_. bnd (deleteRuntime io r) f) = bnd (deleteRuntime io r) f"
    for r and f :: "unit \<Rightarrow> ('v sys, string \<times> bool) eff"
    by (simp add: fun_eq_iff bnd_run releasePorts_def lease_delete_def pl.delete_rows deleteRuntime_run)
  then show ?thesis by (simp add: control_delete_def)
qed

lemma post_delete: "post (ports_inv_except X) (control_delete io x) (\<lambda>_. ports_inv_except X) (\<lambda>_. ports_inv_except X)"
proof -
  have del: "post (ports_inv_except X) (bnd (deleteRuntime io r) (\<lambda>_. ret z)) (\<lambda>_. ports_inv_except X) (\<lambda>_. ports_inv_except X)"
    for r and z :: "string \<times> bool"
    by (rule post_then [OF keeps_inv_delete]) (auto intro: post_ret)
  have rest: "post (\<lambda>s. ports_inv_except X s \<and> current y s)
      (bnd (outside m) (\<lambda>_. bnd (deleteRuntime io r) (\<lambda>_. ret z))) (\<lambda>_. ports_inv_except X) (\<lambda>_. ports_inv_except X)"
    for r y and z :: "string \<times> bool" and m :: "('v, unit) eff"
    by (rule post_row, intro keeps_intros) (rule post_weaken [OF del], simp_all)
  show ?thesis
    unfolding control_delete_alt
    by (rule post_bnd [OF post_require post_bnd [OF post_status rest]])
qed

lemma post_step:
  fixes m :: "('v sys, 'y) eff"
  assumes "\<And>R L. keeps (ports_frame R L) m" and "\<And>x. post (ports_inv_except X) (f x) Q (inv_err X)"
  shows "post (ports_inv_except X) (bnd m f) Q (inv_err X)"
  by (rule post_then [OF keeps_inv_frame [OF assms(1)] assms(2)]) (rule inv_err_inv)

lemma post_provisioning:
  "post (ports_inv_except X) (control_create io c) (\<lambda>_. ports_inv_except X) (inv_err X)"
  "post (ports_inv_except X) (control_ensure io i) (\<lambda>_. ports_inv_except X) (inv_err X)"
  "post (ports_inv_except X) (control_update io x u) (\<lambda>_. ports_inv_except X) (inv_err X)"
  unfolding control_create_def control_ensure_def control_update_def
    apply (rule post_step, (intro keeps_intros)[1])+
    apply (rule post_provision)
   apply (rule post_step, (intro keeps_intros)[1])
   apply (rule post_provision)
  apply (rule post_step, (intro keeps_intros)[1])
  apply (auto split: option.split intro: post_provision post_throw inv_err_inv)
  done

lemma post_route: "post (ports_inv_except X) (route io req) (\<lambda>_. ports_inv_except X) (inv_err X)"
proof -
  have frame: "post (ports_inv_except X) m (\<lambda>_. ports_inv_except X) (inv_err X)" if "\<And>R L. keeps (ports_frame R L) m"
    for m :: "('v sys, 'y) eff"
    by (rule post_weaken [OF post_keeps [OF keeps_inv_frame [OF that]]]) (auto intro: inv_err_inv)
  have err: "post (ports_inv_except X) m (\<lambda>_. ports_inv_except X) (inv_err X)" if "post (ports_inv_except X) m (\<lambda>_. ports_inv_except X) (\<lambda>_. ports_inv_except X)"
    for m :: "('v sys, 'y) eff"
    by (rule post_weaken [OF that]) (auto intro: inv_err_inv)
  have out: "post (ports_inv_except X) (responds f m) (\<lambda>_. ports_inv_except X) (inv_err X)" if "post (ports_inv_except X) m (\<lambda>_. ports_inv_except X) (inv_err X)"
    for m :: "('v sys, 'y) eff" and f
    unfolding responds_def by (rule post_bnd [OF that]) (rule post_ret)
  show ?thesis
    by (cases req)
      (simp_all only: route.simps sandbox_methods, (rule out, (rule post_provisioning err [OF keeps_inv_methods(1)]
        err [OF keeps_inv_methods(2)] err [OF keeps_inv_methods(3)] err [OF keeps_inv_methods(4)]
        err [OF keeps_inv_methods(5)] err [OF keeps_inv_methods(6)] err [OF keeps_inv_methods(7)]
        err [OF keeps_inv_methods(8)] err [OF keeps_inv_methods(9)] err [OF post_delete]
        | (rule frame, (intro keeps_intros)[1])))+)
qed

lemma post_handle: "post (ports_inv_except X) (handle io auth req) (\<lambda>_. ports_inv_except X) (inv_err X)"
  unfolding handle_def validated_def
  by (intro post_if post_step post_route keeps_intros post_throw inv_err_inv)

end

section \<open>Properties\<close>

text \<open>C2: every request to the sandbox API, whoever sends it and however it ends, keeps the keys and
  unique constraints of all tables, and keeps every sandbox's bound host ports leased to that
  sandbox alone, but for the sandboxes \<open>X\<close> that had lost theirs before; the one exception is an
  exhausted port range, which can leave one more sandbox without its leases.\<close>

theorem every_request_safe:
  assumes "database io" and "ports_inv_except X s" and "handle io auth req s = (q, t)"
  shows "tables_ok t \<and>
    (ports_inv_except X t \<or> (q = Inl (JsError ''No free runtime ports available'') \<and>
       (\<exists>rid. held_ports t rid = {} \<and> ports_inv_except (insert rid X) t)))"
proof -
  have "tables_ok s" using assms(2) by (simp add: ports_inv_except_def)
  from keepsD [OF database.keeps_tables_handle [OF assms(1)] this assms(3)] have "tables_ok t" .
  moreover note post = database.post_handle [OF assms(1), of X auth req]
  have "ports_inv_except X t \<or> (q = Inl (JsError ''No free runtime ports available'') \<and>
       (\<exists>rid. held_ports t rid = {} \<and> ports_inv_except (insert rid X) t))"
    using post_Inr [OF post assms(2)] post_Inl [OF post assms(2)] assms(3)
    by (cases q) (auto simp: inv_err_def)
  ultimately show ?thesis by blast
qed

theorem every_request_safe_witness:
  "ports_inv (snd (handle (demo_io empty_config) None (StopSandbox ''box'') demo_sys)) \<or>
   fst (handle (demo_io empty_config) None (StopSandbox ''box'') demo_sys) =
     Inl (JsError ''No free runtime ports available'')"
  using every_request_safe [OF demo_database ports_inv_demo prod.collapse [symmetric],
      of empty_config None "StopSandbox ''box''"]
  by blast

text \<open>C10: without the configured bearer token a guarded request has no effect: it is answered 401
  and the whole state, the outside world included, is as before.\<close>

theorem unauthorized_request_no_effect:
  assumes "internalApiToken (io_config io) = Some k" and "guarded req"
    and "firstHeader auth \<noteq> Some (''Bearer '' @ k)"
  shows "handle io auth req s = (Inl (UnauthorizedException ''Invalid internal API token''), s)"
  using assms by (simp add: handle_def bnd_run internalAuth_canActivate_def)

definition token_config :: config where
  "token_config = \<lparr>process_env = (\<lambda>n. if n = ''MICROSANDBOX_CLOUD_INTERNAL_API_TOKEN'' then Some ''k1'' else None),
     process_cwd = ''/srv''\<rparr>"

theorem unauthorized_request_no_effect_witness:
  "handle (demo_io token_config) (Some (HeaderOne ''Bearer k2'')) (DeleteSandbox ''box'') demo_sys =
     (Inl (UnauthorizedException ''Invalid internal API token''), demo_sys)"
proof -
  have "trim ''k1'' = ''k1''" by code_simp
  then show ?thesis
    by (intro unauthorized_request_no_effect [where k = "''k1''"])
      (simp_all add: internalApiToken_def token_config_def opt_trim_def non_empty_def firstHeader_def)
qed

text \<open>The clean-up of a failed backend call: the row just added is taken out again.\<close>

lemma volume_row_undone:
  assumes repo: "repository (volumeRepo io) vo_id volume_clash volume_stamp volume_touch"
    and fresh: "vo_id v \<notin> vo_id ` set old"
  shows "post (\<lambda>t. volumes t = old @ [v])
     (bnd (catching (outside m) (\<lambda>e. bnd (catching (reg_deleteVolume io v) (\<lambda>_. ret ())) (\<lambda>_. throw e)))
        (\<lambda>_. ret x))
     (\<lambda>_ _. True) (\<lambda>_ t. volumes t = old)"
proof -
  have old: "filter (\<lambda>r. vo_id r \<noteq> vo_id v) (old @ [v]) = old"
    using fresh by (simp add: filter_id_conv) (metis image_eqI)
  have del: "reg_deleteVolume io v t = (Inr (), t\<lparr>volumes := old\<rparr>)" if "volumes t = old @ [v]" for t :: "'a sys"
    using that old
    by (simp add: reg_deleteVolume_def volume_delete_def repository.delete_rows [OF repo])
  have undo: "post (\<lambda>t. volumes t = old @ [v])
     (bnd (catching (reg_deleteVolume io v) (\<lambda>_. ret ())) (\<lambda>_. throw e))
     (\<lambda>_ _. True) (\<lambda>_ t. volumes t = old)" for e
    by (rule postI) (simp_all add: bnd_run catching_run del)
  have out: "post (\<lambda>t. volumes t = old @ [v]) (outside m) (\<lambda>_ _. True) (\<lambda>_ t. volumes t = old @ [v])"
    by (rule post_weaken [OF post_keeps [OF keeps_outside]]) simp_all
  show ?thesis
    by (rule post_bnd [OF post_catching [OF out undo]]) (rule post_ret, simp)
qed

lemma saved_volume_undone:
  assumes repo: "repository (volumeRepo io) vo_id volume_clash volume_stamp volume_touch"
  shows "post (\<lambda>t. volumes t = old)
     (bnd (saveVolume io row) (\<lambda>v.
      bnd (catching (outside (m v)) (\<lambda>e. bnd (catching (reg_deleteVolume io v) (\<lambda>_. ret ())) (\<lambda>_. throw e)))
        (\<lambda>_. ret (f v))))
     (\<lambda>_ _. True) (\<lambda>_ t. volumes t = old)"
proof (rule post_bnd [where R = "\<lambda>v t. volumes t = old @ [v] \<and> vo_id v \<notin> vo_id ` set old"])
  show "post (\<lambda>t. volumes t = old) (saveVolume io row)
     (\<lambda>v t. volumes t = old @ [v] \<and> vo_id v \<notin> vo_id ` set old) (\<lambda>_ t. volumes t = old)"
    by (cases rule: repository.insert_cases [OF repo, of old row, case_names ok clash])
      (auto simp: saveVolume_def volume_insert_def intro!: postI)
next
  fix v
  show "post (\<lambda>t. volumes t = old @ [v] \<and> vo_id v \<notin> vo_id ` set old)
     (bnd (catching (outside (m v)) (\<lambda>e. bnd (catching (reg_deleteVolume io v) (\<lambda>_. ret ())) (\<lambda>_. throw e)))
        (\<lambda>_. ret (f v)))
     (\<lambda>_ _. True) (\<lambda>_ t. volumes t = old)"
  proof (cases "vo_id v \<in> vo_id ` set old")
    case True then show ?thesis by (simp add: post_def)
  next
    case False
    show ?thesis by (rule post_weaken [OF volume_row_undone [OF repo False]]) simp_all
  qed
qed

text \<open>A volume that the backend cannot make leaves no trace: whenever creating a volume fails,
  the volume table is exactly as before.\<close>

theorem createVolume_undone:
  assumes "database io" and "control_createVolume io n quota s = (Inl e, t)"
  shows "volumes t = volumes s"
proof -
  have repo: "repository (volumeRepo io) vo_id volume_clash volume_stamp volume_touch"
    by (rule database.volume_repo [OF assms(1)])
  let ?I = "\<lambda>t. volumes t = volumes s"
  have rand: "keeps ?I (createSandboxId io x)" for x
    unfolding createSandboxId_def by (intro keeps_intros keeps_outside_pure) simp
  have find: "keeps ?I (findVolumeByIdOrName io x)" for x
    unfolding findVolumeByIdOrName_def volume_findOne_def by (intro keeps_intros)
  have "post ?I (control_createVolume io n quota) (\<lambda>_ _. True) (\<lambda>_. ?I)"
    unfolding control_createVolume_def
    by (auto intro!: post_then post_throw rand find keeps_lift_sum saved_volume_undone [OF repo] split: option.split)
  from post_Inl [OF this refl assms(2)] show ?thesis .
qed

text \<open>A backend on which no volume can be made.\<close>

definition full_disk_io :: "world io" where
  "full_disk_io = mem_io (range_config 5 8)
     (demo_adapter\<lparr>ad_ensureVolume := (\<lambda>_ _. throw (JsError ''disk full''))\<rparr>)
     (\<lambda>w. (w_now w, w)) (\<lambda>_ w. w) (demo_random ''h'') (demo_random ''b'') (\<lambda>s. s)"

lemma full_disk_sel [simp]:
  "volumeRepo full_disk_io = volume_table"
  "ad_ensureVolume (io_adapter full_disk_io) b q = throw (JsError ''disk full'')"
  by (simp_all add: full_disk_io_def mem_io_def)

lemma full_disk_run:
  "\<exists>t. control_createVolume full_disk_io ''data'' None sys0 = (Inl (JsError ''disk full''), t)"
proof -
  have name: "normalizeName (Some ''data'') = Inr (Some ''data'')"
    by code_simp
  have id: "blank (Some ''data'') = False" "normalizeSandboxId ''data'' = Inr ''data''"
    by code_simp+
  have backend: "volumeBackendName full_disk_io ''data'' = Inr ''runtime-data-data''"
    by code_simp
  show ?thesis
    by (simp add: control_createVolume_def findVolumeByIdOrName_def volume_findOne_def name id backend
        createSandboxId_def volume_table_def mem_repo_def mem_insert_def
        saveVolume_def volume_insert_def run_registry reg_deleteVolume_def volume_delete_def sys0_def)
qed

theorem createVolume_undone_witness:
  "\<exists>t. control_createVolume full_disk_io ''data'' None sys0 = (Inl (JsError ''disk full''), t) \<and>
     volumes t = []"
proof -
  have "database full_disk_io"
    unfolding full_disk_io_def by (rule mem.database_axioms)
  then show ?thesis
    using full_disk_run createVolume_undone [of full_disk_io "''data''" None sys0] by (fastforce simp: sys0_def)
qed

end
