(* ===== verification/Proxy.thy ===== *)
theory Proxy
  imports Port_Safety Controller
begin

text \<open>
  \<open>ProxyService\<close> (proxy/proxy.service.ts) and the two places of main.ts that call it. The WHATWG
  URL parser is a parameter that gives path, query text and the query parameter \<open>token\<close> of a
  request URL, \<open>None\<close> for a URL that does not parse; the forwarding itself is done by the
  http-proxy package, so an answer \<open>Forward\<close> carries the rewritten URL and the host port. Port
  numbers in paths are exact integers. Log lines are left out.
\<close>

section \<open>Matching\<close>

record urlParts =
  up_pathname :: string
  up_search :: string
  up_token :: "string option"

datatype proxyMatch =
    StandardMatch string int string "string option"
  | SignedMatch string int string

definition strip_prefix :: "string \<Rightarrow> string \<Rightarrow> string option" where
  "strip_prefix p s = (if prefix p s then Some (drop (length p) s) else None)"

text \<open>
  The tail both patterns share: a segment without slash, the text \<open>/ports/\<close>, digits, and an optional
  rest that starts with a slash. A class that cannot match the character after it takes the longest
  run, so the match is determined; the dot of the rest matches no line end.
\<close>

definition match_ports :: "string \<Rightarrow> (string \<times> string \<times> string) option" where
  "match_ports s =
     (let seg = takeWhile (\<lambda>c. c \<noteq> CHR ''/'') s in
      if seg = [] then None
      else (case strip_prefix ''/ports/'' (dropWhile (\<lambda>c. c \<noteq> CHR ''/'') s) of
        None \<Rightarrow> None
      | Some r \<Rightarrow>
          (let ds = takeWhile is_digit r; rest = dropWhile is_digit r in
           if ds \<noteq> [] \<and>
              (rest = [] \<or> hd rest = CHR ''/'' \<and> list_all (\<lambda>c. c \<noteq> CHR 0x0A \<and> c \<noteq> CHR 0x0D) (tl rest))
           then Some (seg, ds, rest) else None)))"

definition signed_pattern :: "string \<Rightarrow> (string \<times> string \<times> string) option" where
  "signed_pattern path = (case strip_prefix ''/proxy/signed/'' path of None \<Rightarrow> None | Some s \<Rightarrow> match_ports s)"

definition standard_pattern :: "string \<Rightarrow> (string \<times> string \<times> string) option" where
  "standard_pattern path = (case strip_prefix ''/proxy/'' path of None \<Rightarrow> None | Some s \<Rightarrow> match_ports s)"

definition readPreviewToken :: "header option \<Rightarrow> string option \<Rightarrow> string option" where
  "readPreviewToken h queryToken =
     (case h of
        Some (HeaderOne v) \<Rightarrow> if trim v \<noteq> [] then Some (trim v) else opt_trim queryToken
      | Some (HeaderMany (v # _)) \<Rightarrow> if trim v \<noteq> [] then Some (trim v) else opt_trim queryToken
      | _ \<Rightarrow> opt_trim queryToken)"

definition decoded :: "string \<Rightarrow> exn + string" where
  "decoded s = (case decodeURIComponent s of None \<Rightarrow> Inl (JsError ''URI malformed'') | Some t \<Rightarrow> Inr t)"

definition proxy_extract ::
  "(string \<Rightarrow> urlParts option) \<Rightarrow> string \<Rightarrow> header option \<Rightarrow> exn + proxyMatch option" where
  "proxy_extract parse_url rawUrl previewHeader =
     (case parse_url rawUrl of
        None \<Rightarrow> Inl (JsError ''Invalid URL'')
      | Some base \<Rightarrow>
          (case signed_pattern (up_pathname base) of
             Some (seg, ds, rest) \<Rightarrow>
               (case decoded seg of Inl e \<Rightarrow> Inl e
                | Inr token \<Rightarrow> Inr (Some (SignedMatch token (int (digits_val ds)) (str_or rest ''/'' @ up_search base))))
           | None \<Rightarrow>
               (case standard_pattern (up_pathname base) of
                  None \<Rightarrow> Inr None
                | Some (seg, ds, rest) \<Rightarrow>
                    (case decoded seg of Inl e \<Rightarrow> Inl e
                     | Inr sandboxId \<Rightarrow>
                         Inr (Some (StandardMatch sandboxId (int (digits_val ds)) (str_or rest ''/'' @ up_search base)
                           (readPreviewToken previewHeader (up_token base))))))))"

section \<open>Requests and upgrades\<close>

datatype proxyReply = NotFoundReply | SocketDestroyed | Forward string int | ErrorReply int string

definition proxy_target :: "'v io \<Rightarrow> proxyMatch \<Rightarrow> ('v sys, runtimeEntity \<times> int) eff" where
  "proxy_target io m =
     (case m of
        SignedMatch token p path \<Rightarrow> validateProxyAccessBySignedToken io token p
      | StandardMatch sandboxId p path token \<Rightarrow> validateProxyAccessBySandbox io sandboxId p token)"

fun match_path :: "proxyMatch \<Rightarrow> string" where
  "match_path (SignedMatch token p path) = path"
| "match_path (StandardMatch sandboxId p path token) = path"

definition handleHttp ::
  "'v io \<Rightarrow> (string \<Rightarrow> urlParts option) \<Rightarrow> string option \<Rightarrow> header option \<Rightarrow> ('v sys, proxyReply) eff" where
  "handleHttp io parse_url url previewHeader =
     bnd (lift_sum (proxy_extract parse_url (or_else url []) previewHeader)) (\<lambda>found.
     case found of
       None \<Rightarrow> ret NotFoundReply
     | Some m \<Rightarrow> bnd (proxy_target io m) (\<lambda>(runtime, hostPort). ret (Forward (match_path m) hostPort)))"

definition handleUpgrade ::
  "'v io \<Rightarrow> (string \<Rightarrow> urlParts option) \<Rightarrow> string option \<Rightarrow> header option \<Rightarrow> ('v sys, proxyReply) eff" where
  "handleUpgrade io parse_url url previewHeader =
     bnd (lift_sum (proxy_extract parse_url (or_else url []) previewHeader)) (\<lambda>found.
     case found of
       None \<Rightarrow> ret SocketDestroyed
     | Some m \<Rightarrow> bnd (proxy_target io m) (\<lambda>(runtime, hostPort). ret (Forward (match_path m) hostPort)))"

text \<open>
  The handlers that main.ts installs: an exception becomes a JSON reply with its status, 502 when
  it has none, and its message; on an upgrade it closes the socket. An \<open>HttpException\<close> is the only
  thrown value of the services with a numeric \<open>status\<close>.
\<close>

definition reply_error :: "exn \<Rightarrow> proxyReply" where
  "reply_error e =
     (case e of HttpException status message \<Rightarrow> ErrorReply (int status) message
      | _ \<Rightarrow> ErrorReply 502 (errorMessage e))"

definition serve_http ::
  "'v io \<Rightarrow> (string \<Rightarrow> urlParts option) \<Rightarrow> string \<Rightarrow> header option \<Rightarrow> ('v sys, proxyReply) eff" where
  "serve_http io parse_url originalUrl previewHeader =
     catching (handleHttp io parse_url (Some originalUrl) previewHeader) (\<lambda>e. ret (reply_error e))"

definition serve_upgrade ::
  "'v io \<Rightarrow> (string \<Rightarrow> urlParts option) \<Rightarrow> string option \<Rightarrow> header option \<Rightarrow> ('v sys, proxyReply) eff" where
  "serve_upgrade io parse_url url previewHeader =
     catching (handleUpgrade io parse_url url previewHeader) (\<lambda>_. ret SocketDestroyed)"

text \<open>
  The error handler of the upstream proxy. The third argument of the event is a response, a socket
  or nothing usable; the code tells them apart by their members, here flags. The result is the calls
  it makes on it, in order.
\<close>

record upstreamRes =
  ur_object :: bool
  ur_writeHead :: bool
  ur_end :: bool
  ur_destroy :: bool
  ur_headersSent :: bool

datatype resCall = WriteHead int | EndWith string | Destroy

definition isServerResponse :: "upstreamRes \<Rightarrow> bool" where
  "isServerResponse v \<longleftrightarrow> ur_object v \<and> ur_writeHead v \<and> ur_end v"

definition isSocket :: "upstreamRes \<Rightarrow> bool" where
  "isSocket v \<longleftrightarrow> ur_object v \<and> ur_destroy v"

definition upstream_error :: "upstreamRes \<Rightarrow> resCall list" where
  "upstream_error res =
     (if isServerResponse res then
        (if \<not> ur_headersSent res then [WriteHead 502] else []) @
        [EndWith (stringify (JObj [(''statusCode'', JNum 502), (''message'', JStr ''Upstream proxy error'')]))]
      else if isSocket res then [Destroy] else [])"

section \<open>The patterns\<close>

lemma takeWhile_stop_append:
  "list_all (\<lambda>c. c \<noteq> d) s \<Longrightarrow> takeWhile (\<lambda>c. c \<noteq> d) (s @ d # t) = s \<and> dropWhile (\<lambda>c. c \<noteq> d) (s @ d # t) = d # t"
  by (induction s) auto

lemma dropWhile_all_append: "list_all P s \<Longrightarrow> r = [] \<or> \<not> P (hd r) \<Longrightarrow> dropWhile P (s @ r) = r"
  by (induction s) (cases r; auto)+

lemma match_ports_complete:
  assumes "seg \<noteq> []" and "CHR ''/'' \<notin> set seg" and "0 \<le> p"
  shows "match_ports (seg @ ''/ports/'' @ int_digits p) = Some (seg, nat_digits (nat p), [])"
proof -
  have "list_all (\<lambda>c. c \<noteq> CHR ''/'') seg" using assms(2) by (auto simp: list_all_iff)
  note seg = takeWhile_stop_append [OF this, of "''ports/'' @ int_digits p"]
  have "takeWhile is_digit (nat_digits (nat p)) = nat_digits (nat p)"
    using nat_digits_all [of "nat p"] by (simp add: list_all_iff takeWhile_eq_all_conv)
  moreover have "dropWhile is_digit (nat_digits (nat p)) = []"
    using nat_digits_all [of "nat p"] by (simp add: list_all_iff dropWhile_eq_Nil_conv)
  ultimately show ?thesis
    using seg assms(1,3) by (simp add: match_ports_def strip_prefix_def int_digits_def Let_def del: takeWhile_eq_all_conv dropWhile_eq_Nil_conv)
qed

text \<open>At most one of the patterns matches, so their order does not matter.\<close>

lemma strip_prefix_Some [simp]: "strip_prefix p s = Some r \<longleftrightarrow> s = p @ r"
  by (auto simp: strip_prefix_def prefix_def)

lemma match_ports_signed:
  assumes "match_ports (''signed/'' @ s) \<noteq> None"
  shows "match_ports s = None"
proof -
  have "takeWhile (\<lambda>c. c \<noteq> CHR ''/'') (''signed/'' @ s) = ''signed''"
    "dropWhile (\<lambda>c. c \<noteq> CHR ''/'') (''signed/'' @ s) = ''/'' @ s" by simp_all
  with assms obtain r where "strip_prefix ''/ports/'' (''/'' @ s) = Some r" and r: "takeWhile is_digit r \<noteq> []"
    unfolding match_ports_def Let_def by (auto split: option.splits if_splits)
  then have s: "s = ''ports/'' @ r" by simp
  have "takeWhile (\<lambda>c. c \<noteq> CHR ''/'') s = ''ports''"
    "dropWhile (\<lambda>c. c \<noteq> CHR ''/'') s = ''/'' @ r" by (simp_all add: s)
  then show ?thesis using r
    unfolding match_ports_def Let_def
    by (auto split: option.split simp: is_digit_def)
qed

lemma patterns_exclusive: "signed_pattern path \<noteq> None \<Longrightarrow> standard_pattern path = None"
proof -
  assume "signed_pattern path \<noteq> None"
  then obtain s where path: "path = ''/proxy/signed/'' @ s" and s: "match_ports s \<noteq> None"
    by (auto simp: signed_pattern_def split: option.splits)
  have "standard_pattern path = match_ports (''signed/'' @ s)"
    by (simp add: standard_pattern_def strip_prefix_def path)
  with s show ?thesis by (metis match_ports_signed)
qed

text \<open>An encoded component has no slash, and is empty only for the empty text.\<close>

lemma encode_no_slash: "CHR ''/'' \<notin> set (encodeURIComponent s)"
proof -
  have hex: "hex_digit b \<noteq> CHR ''/''" if "b < 16" for b
    using unhex_hex_digit [OF that] by (auto simp: unhex_def)
  have "CHR ''/'' \<notin> set (percent b)" if "b < 256" for b
    using that hex [of "b div 16"] hex [of "b mod 16"] by (auto simp: percent_def less_mult_imp_div_less)
  then have "CHR ''/'' \<notin> set (concat (map percent (utf8_char c)))" for c
    using utf8_char_bytes by fastforce
  moreover have "\<not> uri_unreserved (CHR ''/'')" by code_simp
  ultimately show ?thesis by (auto simp: encodeURIComponent_def split: if_splits)
qed

lemma encode_eq_Nil: "encodeURIComponent s = [] \<longleftrightarrow> s = []"
proof
  assume "encodeURIComponent s = []"
  with decode_encode [of s] have "decodeURIComponent [] = Some s" by simp
  then show "s = []" by (simp add: decodeURIComponent_def)
qed (simp add: encodeURIComponent_def)

text \<open>What the two patterns find in the path of a preview address.\<close>

definition preview_path :: "string \<Rightarrow> int \<Rightarrow> string" where
  "preview_path sandboxId p = ''/proxy/'' @ encodeURIComponent sandboxId @ ''/ports/'' @ int_digits p"

definition signed_path :: "string \<Rightarrow> int \<Rightarrow> string" where
  "signed_path token p = ''/proxy/signed/'' @ encodeURIComponent token @ ''/ports/'' @ int_digits p"

lemma signed_pattern_path:
  "token \<noteq> [] \<Longrightarrow> 0 \<le> p \<Longrightarrow>
   signed_pattern (signed_path token p) = Some (encodeURIComponent token, nat_digits (nat p), [])"
  using match_ports_complete [OF _ encode_no_slash, of token p]
  by (simp add: signed_pattern_def signed_path_def strip_prefix_def encode_eq_Nil)

lemma standard_pattern_path:
  assumes "sid \<noteq> []" and "0 \<le> p"
  shows "standard_pattern (preview_path sid p) = Some (encodeURIComponent sid, nat_digits (nat p), [])"
    and "signed_pattern (preview_path sid p) = None"
proof -
  show "standard_pattern (preview_path sid p) = Some (encodeURIComponent sid, nat_digits (nat p), [])"
    using match_ports_complete [OF _ encode_no_slash, of sid p] assms
    by (simp add: standard_pattern_def preview_path_def strip_prefix_def encode_eq_Nil)
  then show "signed_pattern (preview_path sid p) = None"
    by (metis option.distinct(1) patterns_exclusive)
qed

section \<open>Preview addresses\<close>

context database begin

text \<open>The row that a look-up of a running sandbox returns is the stored one.\<close>

lemma syncStatus_row:
  assumes "tables_ok s" and "r \<in> set (runtimes s)" and "syncStatus io r s = (Inr r', t)"
  shows "tables_ok t \<and> r' \<in> set (runtimes t)"
proof -
  obtain st u where "ad_getStatus (io_adapter io) (rt_sandboxName r) (ext s) = (Inr st, u)"
    using assms(3) unfolding syncStatus_def by (auto simp: bnd_Inr outside_def split: prod.splits)
  then have run: "(if normalizeStatus st \<noteq> rt_status r
      then updateRuntime io r (\<lambda>x. x\<lparr>rt_status := normalizeStatus st\<rparr>) else ret r) (s\<lparr>ext := u\<rparr>) = (Inr r', t)"
    using assms(3) by (simp add: syncStatus_def bnd_run outside_def Let_def)
  have ok: "tables_ok (s\<lparr>ext := u\<rparr>)" using assms(1) by simp
  show ?thesis
  proof (cases "normalizeStatus st = rt_status r")
    case True
    with run assms(2) ok show ?thesis by auto
  next
    case False
    then have save: "runtime_save io (r\<lparr>rt_status := normalizeStatus st\<rparr>) (s\<lparr>ext := u\<rparr>) = (Inr r', t)"
      using run by (simp add: updateRuntime_def)
    have cur: "current r (s\<lparr>ext := u\<rparr>)" using assms(2) by (auto simp: current_def)
    have "r' \<in> set (runtimes t)"
    proof (cases rule: save_current [OF ok cur, of "r\<lparr>rt_status := normalizeStatus st\<rparr>", case_names key saved clash])
      case (saved c)
      then show ?thesis using save assms(2)
        by (auto simp: replace_row_def runtime_touch_def image_iff)
    next
      case (clash e)
      with save show ?thesis by simp
    qed simp
    with keepsD [OF keeps_tables_insert(2) ok save] show ?thesis by simp
  qed
qed

lemma requireRunning_row:
  assumes "tables_ok s" and "requireRunningRuntime io x s = (Inr r, t)"
  shows "tables_ok t \<and> r \<in> set (runtimes t) \<and> rt_status r = Running"
proof -
  obtain r0 u where r0: "requireRuntime io x s = (Inr r0, u)" and sync: "syncStatus io r0 u = (Inr r, t)"
    and run: "rt_status r = Running"
    using assms(2) unfolding requireRunningRuntime_def by (auto simp: bnd_Inr split: if_splits)
  show ?thesis
  proof (rule requireRuntime_run [OF r0])
    fix n assume "u = s" and "r0 \<in> set (runtimes s)"
    then show ?thesis using syncStatus_row [OF assms(1), of r0 r t] sync run by simp
  qed
qed

text \<open>A look-up by the identifier of a sandbox, when no other sandbox has it as its name.\<close>

lemma requireRuntime_id:
  assumes ok: "tables_ok s" and r: "r \<in> set (runtimes s)"
    and n: "normalizeSandboxId (rt_sandboxId r) = Inr (rt_sandboxId r)"
    and only: "\<forall>x \<in> set (runtimes s). rt_name x = Some (rt_sandboxId r) \<longrightarrow> x = r"
  shows "requireRuntime io (rt_sandboxId r) s = (Inr r, s)"
proof -
  let ?p = "\<lambda>x. rt_sandboxId x = rt_sandboxId r \<or> rt_name x = Some (rt_sandboxId r)"
  have "findOne (runtimeRepo io) ?p (runtimes s) = Some r"
  proof (rule rt.findOne_unique [of r _ ?p])
    fix x assume x: "x \<in> set (runtimes s)" "?p x"
    then show "x = r"
      using rt.row_by_clash [OF tables_okD(1) [OF ok] x(1) r] only by (auto simp: runtime_clash_def)
  qed (use r in simp_all)
  then show ?thesis
    by (simp add: requireRuntime_def findRuntimeBySandboxIdOrName_def n bnd_run runtime_findOne_def)
qed

end

lemma getPreviewUrl_run:
  assumes "database io" and "tables_ok s" and "getPreviewUrl io x p s = (Inr u, t)"
  obtains r b where "tables_ok t" and "r \<in> set (runtimes t)" and "findBinding r p = Inr b"
    and "pu_sandboxId u = rt_sandboxId r" and "pu_token u = rt_authToken r"
    and "pu_url u = strip_slashes (proxyBaseUrl (io_config io)) @ preview_path (rt_sandboxId r) p"
proof -
  obtain r b v where r: "requireRunningRuntime io x s = (Inr r, t)" and b: "findBinding r p = Inr b"
    and u: "pu_sandboxId u = rt_sandboxId r" "pu_token u = rt_authToken r"
    "pu_url u = strip_slashes (proxyBaseUrl (io_config io)) @ preview_path (rt_sandboxId r) p"
    using assms(3) unfolding getPreviewUrl_def ensurePreviewable_def preview_path_def
    by (auto simp: bnd_Inr Let_def)
  from database.requireRunning_row [OF assms(1,2) r] show thesis using that u b by blast
qed

lemma extract_preview:
  assumes "parse_url url = Some \<lparr>up_pathname = preview_path sid p, up_search = q, up_token = k\<rparr>"
    and "sid \<noteq> []" and "0 \<le> p"
  shows "proxy_extract parse_url url h = Inr (Some (StandardMatch sid p (''/'' @ q) (readPreviewToken h k)))"
  using assms standard_pattern_path [OF assms(2,3)]
  by (simp add: proxy_extract_def decoded_def str_or_def)

lemma serve_preview:
  assumes "requireRuntime io (rt_sandboxId r) t = (Inr r, t)" and "findBinding r p = Inr b"
    and "parse_url url = Some \<lparr>up_pathname = preview_path (rt_sandboxId r) p, up_search = q, up_token = k\<rparr>"
    and "rt_sandboxId r \<noteq> []" and "0 \<le> p" and "trim (rt_authToken r) = rt_authToken r" and "rt_authToken r \<noteq> []"
  shows "serve_http io parse_url url (Some (HeaderOne (rt_authToken r))) t =
      (Inr (Forward (''/'' @ q) (pb_hostPort b)), t)"
proof -
  have "proxy_extract parse_url url (Some (HeaderOne (rt_authToken r))) =
      Inr (Some (StandardMatch (rt_sandboxId r) p (''/'' @ q) (Some (rt_authToken r))))"
    using extract_preview [where parse_url = parse_url and url = url, OF assms(3,4,5)] assms(6,7)
    by (simp add: readPreviewToken_def)
  moreover have "validateProxyAccessBySandbox io (rt_sandboxId r) p (Some (rt_authToken r)) t =
      (Inr (r, pb_hostPort b), t)"
    using assms(1,2,7) by (simp add: validateProxyAccessBySandbox_def bnd_run resolveProxyTarget_def)
  ultimately show ?thesis
    by (simp add: serve_http_def handleHttp_def catching_run bnd_run proxy_target_def or_else_def)
qed

text \<open>C13: a preview address opens. When \<open>getPreviewUrl\<close> gives an address and a token, a request for
  the path of that address with the token in the preview header is forwarded to the host port of
  the sandbox's binding for that port, with the path reduced to \<open>/\<close> and the query kept, provided
  the sandbox has a normalised identifier that is no other sandbox's name.\<close>

theorem preview_address_opens:
  assumes "database io" and "tables_ok s" and "getPreviewUrl io x p s = (Inr u, t)" and "0 \<le> p"
    and "pu_url u = strip_slashes (proxyBaseUrl (io_config io)) @ path"
    and "parse_url url = Some \<lparr>up_pathname = path, up_search = q, up_token = k\<rparr>"
    and "normalizeSandboxId (pu_sandboxId u) = Inr (pu_sandboxId u)" and "pu_sandboxId u \<noteq> []"
    and "\<forall>y \<in> set (runtimes t). rt_name y = Some (pu_sandboxId u) \<longrightarrow> rt_sandboxId y = pu_sandboxId u"
    and "trim (pu_token u) = pu_token u" and "pu_token u \<noteq> []"
  shows "\<exists>r b. r \<in> set (runtimes t) \<and> rt_sandboxId r = pu_sandboxId u \<and> findBinding r p = Inr b \<and>
    serve_http io parse_url url (Some (HeaderOne (pu_token u))) t =
      (Inr (Forward (''/'' @ q) (pb_hostPort b)), t)"
proof -
  obtain r b where t: "tables_ok t" and r: "r \<in> set (runtimes t)" and b: "findBinding r p = Inr b"
    and u: "pu_sandboxId u = rt_sandboxId r" "pu_token u = rt_authToken r"
    and path: "path = preview_path (rt_sandboxId r) p"
    by (rule getPreviewUrl_run [OF assms(1,2,3)]) (use assms(5) in simp)
  have "x = r" if "x \<in> set (runtimes t)" "rt_name x = Some (rt_sandboxId r)" for x
  proof -
    have "rt_sandboxId x = rt_sandboxId r" using assms(9) that u(1) by metis
    then have "runtime_clash x r" by (simp add: runtime_clash_def)
    then show ?thesis
      by (rule repository.row_by_clash [OF database.runtime_repo [OF assms(1)] tables_okD(1) [OF t] that(1) r])
  qed
  then have find: "requireRuntime io (rt_sandboxId r) t = (Inr r, t)"
    using database.requireRuntime_id [OF assms(1) t r] assms(7) u by simp
  have "serve_http io parse_url url (Some (HeaderOne (pu_token u))) t =
      (Inr (Forward (''/'' @ q) (pb_hostPort b)), t)"
    using serve_preview [where parse_url = parse_url and url = url, OF find b assms(6) [unfolded path]]
      assms(4,8,10,11) u by simp
  with r b u show ?thesis by auto
qed

text \<open>A URL without query, as a parser that knows just this one.\<close>

definition one_url :: "string \<Rightarrow> string \<Rightarrow> urlParts option" where
  "one_url known url = (if url = known
     then Some \<lparr>up_pathname = known, up_search = [], up_token = None\<rparr> else None)"

definition live_sys :: "world sys" where
  "live_sys = demo_sys\<lparr>ext := world0\<lparr>w_vms := [(''runtime-box'', ''running'')]\<rparr>\<rparr>"

lemma demo_fields:
  "rt_sandboxName demo_runtime = ''runtime-box''" "rt_status demo_runtime = Running"
  "rt_sandboxId demo_runtime = ''box''" "rt_authToken demo_runtime = ''secret''" "rt_name demo_runtime = None"
  "findBinding demo_runtime 8080 = Inr \<lparr>pb_name = None, pb_containerPort = 8080, pb_hostPort = 5,
     pb_protocol = Tcp, pb_nameLast = False\<rparr>"
  by (simp_all add: demo_runtime_def findBinding_def)

lemma live_fields: "runtimes live_sys = [demo_runtime]" "tables_ok live_sys"
  "map_of (w_vms (ext live_sys)) ''runtime-box'' = Some ''running''"
  using tables_ok_demo by (simp_all add: live_sys_def demo_sys_def world0_def)

lemma requireRuntime_box: "requireRuntime (demo_io cfg) ''box'' live_sys = (Inr demo_runtime, live_sys)"
  using database.requireRuntime_id [OF demo_database live_fields(2), of demo_runtime cfg] normalize_box
  by (simp add: live_fields demo_fields)

lemma requireRunning_box: "requireRunningRuntime (demo_io cfg) ''box'' live_sys = (Inr demo_runtime, live_sys)"
proof -
  have "syncStatus (demo_io cfg) demo_runtime live_sys = (Inr demo_runtime, live_sys)"
    by (simp add: syncStatus_def bnd_run outside_def demo_fields live_fields normalizeStatus_def)
  then show ?thesis by (simp add: requireRunningRuntime_def bnd_run demo_fields requireRuntime_box)
qed

lemma getPreviewUrl_box:
  "getPreviewUrl (demo_io cfg) ''box'' 8080 live_sys =
     (Inr \<lparr>pu_sandboxId = ''box'', pu_port = 8080,
        pu_url = strip_slashes (proxyBaseUrl cfg) @ preview_path ''box'' 8080, pu_token = ''secret'',
        pu_headerName = Some ''x-microsandbox-preview-token'', pu_expiresAt = None\<rparr>, live_sys)"
  by (simp add: getPreviewUrl_def ensurePreviewable_def bnd_run requireRunning_box demo_fields Let_def preview_path_def)

lemma box_url:
  "preview_path ''box'' 8080 = ''/proxy/box/ports/8080''" "trim ''secret'' = ''secret''"
  "one_url ''/proxy/box/ports/8080'' ''/proxy/box/ports/8080'' =
     Some \<lparr>up_pathname = ''/proxy/box/ports/8080'', up_search = [], up_token = None\<rparr>"
proof -
  have "list_all uri_unreserved ''box''" by (simp add: uri_unreserved_def is_lower_az_def)
  moreover have "digit_char 8 = CHR ''8''" "digit_char 0 = CHR ''0''" by code_simp+
  ultimately show "preview_path ''box'' 8080 = ''/proxy/box/ports/8080''"
    by (simp add: preview_path_def encode_unreserved int_digits_def nat_digits.simps)
  show "trim ''secret'' = ''secret''" by code_simp
qed (simp add: one_url_def)

theorem preview_address_opens_witness:
  "serve_http (demo_io empty_config) (one_url ''/proxy/box/ports/8080'') ''/proxy/box/ports/8080''
     (Some (HeaderOne ''secret'')) live_sys = (Inr (Forward ''/'' 5), live_sys)"
proof -
  let ?path = "''/proxy/box/ports/8080''"
  have "\<exists>r b. r \<in> set (runtimes live_sys) \<and> rt_sandboxId r = ''box'' \<and> findBinding r 8080 = Inr b \<and>
    serve_http (demo_io empty_config) (one_url ?path) ?path (Some (HeaderOne ''secret'')) live_sys =
      (Inr (Forward (''/'' @ []) (pb_hostPort b)), live_sys)"
    using preview_address_opens [where parse_url = "one_url ?path" and url = ?path and path = ?path and q = "[]"
        and k = None, OF demo_database live_fields(2) getPreviewUrl_box, of empty_config]
    by (simp add: box_url normalize_box live_fields demo_fields)
  then show ?thesis by (auto simp: live_fields demo_fields)
qed

section \<open>What the proxy can reach and change\<close>

lemma handle_Forward:
  assumes "handleHttp io parse_url url h s = (Inr (Forward path hp), t)"
  obtains m r where "proxy_extract parse_url (or_else url []) h = Inr (Some m)"
    and "proxy_target io m s = (Inr (r, hp), t)" and "path = match_path m"
proof (cases "proxy_extract parse_url (or_else url []) h")
  case (Inl e)
  with assms show thesis by (simp add: handleHttp_def bnd_run)
next
  case (Inr found)
  show thesis
  proof (cases found)
    case None
    with assms Inr show thesis by (simp add: handleHttp_def bnd_run)
  next
    case (Some m)
    with assms Inr have "bnd (proxy_target io m) (\<lambda>(runtime, hostPort). ret (Forward (match_path m) hostPort)) s =
        (Inr (Forward path hp), t)"
      by (simp add: handleHttp_def bnd_run)
    then show thesis using that [of m] Inr Some by (auto elim!: bnd_InrE)
  qed
qed

lemma serve_Forward:
  assumes "serve_http io parse_url url h s = (Inr (Forward path hp), t)"
  obtains m r where "proxy_extract parse_url url h = Inr (Some m)"
    and "proxy_target io m s = (Inr (r, hp), t)" and "path = match_path m"
proof -
  have "reply_error e \<noteq> Forward path hp" for e by (simp add: reply_error_def split: exn.splits)
  with assms have "handleHttp io parse_url (Some url) h s = (Inr (Forward path hp), t)"
    unfolding serve_http_def catching_run
    by (cases "handleHttp io parse_url (Some url) h s"; cases "fst (handleHttp io parse_url (Some url) h s)") auto
  then show thesis by (rule handle_Forward) (use that in \<open>simp add: or_else_def\<close>)
qed

lemma signed_access:
  assumes "database io"
    and "validateProxyAccessBySignedToken io token p s = (Inr (r, h), t)"
  shows "r \<in> set (runtimes s) \<and>
    (\<exists>k \<in> set (previews s). sp_token k = token \<and> sp_port k = p \<and> fst (io_now io (ext s)) < sp_expiresAt k \<and>
      (\<exists>n. normalizeSandboxId (sp_sandboxId k) = Inr n \<and> (rt_sandboxId r = n \<or> rt_name r = Some n))) \<and>
    (\<exists>b \<in> set (rt_portBindings r). pb_containerPort b = p \<and> pb_hostPort b = h)"
proof -
  obtain k v where k: "getSignedPreviewToken io token p s = (Inr (Some k), s)"
    and live: "fst (io_now io (ext s)) < sp_expiresAt k"
    and r0: "requireRuntime io (sp_sandboxId k) v = (Inr r, t)" and v: "runtimes v = runtimes s"
    and target: "resolveProxyTarget r p = Inr (r, h)"
  proof -
    from assms(2) obtain sid q u r0 where res: "resolveSignedPreviewToken io token p s = (Inr (sid, q), u)"
      and r0: "requireRuntime io sid u = (Inr r0, t)" and target: "resolveProxyTarget r0 p = Inr (r, h)"
      unfolding validateProxyAccessBySignedToken_def by (auto simp: bnd_Inr)
    obtain found where found: "getSignedPreviewToken io token p s = (Inr found, s)"
      by (simp add: getSignedPreviewToken_def preview_findOne_def)
    obtain k where k: "found = Some k" "\<not> sp_expiresAt k \<le> fst (io_now io (ext s))" "sid = sp_sandboxId k"
      "u = s\<lparr>ext := snd (io_now io (ext s))\<rparr>"
      using res found unfolding resolveSignedPreviewToken_def
      by (cases found) (auto simp: bnd_run hasSignedPreviewTokenExpired_def dateNow_def outside_pure_def
          expireSignedPreviewToken_def preview_delete_def when_eff_def split: if_splits prod.splits)
    with that [of k u] found r0 target resolveProxyTarget_Inr [OF target] show thesis by simp
  qed
  have mem: "k \<in> set (previews s)" "sp_token k = token" "sp_port k = p"
    using repository.findOne_Some [OF database.preview_repo [OF assms(1)]] k
    by (auto simp: getSignedPreviewToken_def preview_findOne_def)
  show ?thesis
  proof (rule database.requireRuntime_run [OF assms(1) r0])
    fix n assume "t = v" "r \<in> set (runtimes v)" "normalizeSandboxId (sp_sandboxId k) = Inr n"
      "rt_sandboxId r = n \<or> rt_name r = Some n"
    then show ?thesis using v mem live resolveProxyTarget_Inr [OF target] by auto
  qed
qed

text \<open>What a forwarded request reaches, and by what right, with sandboxes \<open>X\<close> that lost their ports.\<close>

lemma forward_access:
  assumes "database io" and "ports_inv_except X s" and "serve_http io parse_url url h s = (Inr (Forward path hp), t)"
  obtains r b where "r \<in> set (runtimes s)" and "b \<in> set (rt_portBindings r)" and "pb_hostPort b = hp"
    and "\<forall>r' \<in> set (runtimes s). rt_id r \<notin> X \<longrightarrow> rt_id r' \<notin> X \<longrightarrow> hp \<in> pb_hostPort ` set (rt_portBindings r') \<longrightarrow> r' = r"
    and "rt_public r \<or>
     (\<exists>sid p q. proxy_extract parse_url url h = Inr (Some (StandardMatch sid p q (Some (rt_authToken r))))) \<or>
     (\<exists>k \<in> set (previews s). sp_port k = pb_containerPort b \<and> fst (io_now io (ext s)) < sp_expiresAt k \<and>
        (\<exists>q. proxy_extract parse_url url h = Inr (Some (SignedMatch (sp_token k) (sp_port k) q))) \<and>
        (\<exists>n. normalizeSandboxId (sp_sandboxId k) = Inr n \<and> (rt_sandboxId r = n \<or> rt_name r = Some n)))"
proof (rule serve_Forward [OF assms(3)])
  fix m r assume m: "proxy_extract parse_url url h = Inr (Some m)" and run: "proxy_target io m s = (Inr (r, hp), t)"
  have only: "\<forall>r' \<in> set (runtimes s). rt_id r \<notin> X \<longrightarrow> rt_id r' \<notin> X \<longrightarrow> hp \<in> pb_hostPort ` set (rt_portBindings r') \<longrightarrow> r' = r"
    if "r \<in> set (runtimes s)" "hp \<in> pb_hostPort ` set (rt_portBindings r)"
    using host_port_owner_except [OF assms(2) _ that(1) _ _ _ that(2) assms(1)] by blast
  show thesis
  proof (cases m)
    case (StandardMatch sid p q token)
    with run have "validateProxyAccessBySandbox io sid p token s = (Inr (r, hp), t)"
      by (simp add: proxy_target_def)
    from proxy_access [OF assms(1,2) this] obtain b where r: "r \<in> set (runtimes s)"
      and b: "b \<in> set (rt_portBindings r)" "pb_hostPort b = hp"
      and right: "rt_public r \<or> token = Some (rt_authToken r)" by blast
    have "hp \<in> pb_hostPort ` set (rt_portBindings r)" using b by blast
    note alone = only [OF r this]
    show thesis by (rule that [OF r b alone]) (use right m StandardMatch in blast)
  next
    case (SignedMatch token p q)
    with run have "validateProxyAccessBySignedToken io token p s = (Inr (r, hp), t)"
      by (simp add: proxy_target_def)
    note safe = signed_access [OF assms(1) this]
    then obtain b where b: "b \<in> set (rt_portBindings r)" "pb_containerPort b = p" "pb_hostPort b = hp" by blast
    have r: "r \<in> set (runtimes s)" using safe by blast
    obtain k where k: "k \<in> set (previews s)" "sp_token k = token" "sp_port k = p"
      "fst (io_now io (ext s)) < sp_expiresAt k"
      "\<exists>n. normalizeSandboxId (sp_sandboxId k) = Inr n \<and> (rt_sandboxId r = n \<or> rt_name r = Some n)"
      using safe by blast
    have "proxy_extract parse_url url h = Inr (Some (SignedMatch (sp_token k) (sp_port k) q))"
      "sp_port k = pb_containerPort b"
      using m SignedMatch k(2,3) b(2) by simp_all
    note signed = this
    have "hp \<in> pb_hostPort ` set (rt_portBindings r)" using b by blast
    note alone = only [OF r this]
    show thesis by (rule that [OF r b(1,3) alone]) (use signed k(1,4,5) in blast)
  qed
qed

lemma live_safe: "ports_inv live_sys"
  using frame_inv [of "{}" demo_sys live_sys] ports_inv_demo live_fields(2)
  by (simp add: ports_frame_def live_sys_def)

lemma live_forward:
  "serve_http (demo_io empty_config) (one_url ''/proxy/box/ports/8080'') ''/proxy/box/ports/8080''
     (Some (HeaderOne ''secret'')) live_sys = (Inr (Forward ''/'' 5), live_sys)"
  using serve_preview [where parse_url = "one_url ''/proxy/box/ports/8080''" and url = "''/proxy/box/ports/8080''"
      and io = "demo_io empty_config" and r = demo_runtime and t = live_sys and p = 8080 and q = "[]" and k = None]
  by (simp add: box_url demo_fields requireRuntime_box)

text \<open>What a check of a request leaves behind.\<close>

lemma requireRuntime_state: "snd (requireRuntime io x s) = s"
  by (simp add: requireRuntime_def findRuntimeBySandboxIdOrName_def bnd_run runtime_findOne_def
      split: sum.split option.split)

lemma sandbox_check_state: "snd (validateProxyAccessBySandbox io x p token s) = s"
  using requireRuntime_state [of io x s]
  by (cases "requireRuntime io x s")
    (auto simp: validateProxyAccessBySandbox_def bnd_run split: sum.split)

lemma resolve_state:
  assumes "database io"
  obtains (absent) "snd (resolveSignedPreviewToken io token p s) = s"
    | (live) "snd (resolveSignedPreviewToken io token p s) = s\<lparr>ext := snd (io_now io (ext s))\<rparr>"
    | (expired) k where "k \<in> set (previews s)" and "sp_token k = token" and "sp_port k = p"
      and "sp_expiresAt k \<le> fst (io_now io (ext s))"
      and "snd (resolveSignedPreviewToken io token p s) = s
        \<lparr>previews := filter (\<lambda>x. \<not> (sp_token x = token \<and> sp_port x = p)) (previews s),
         ext := snd (io_now io (ext s))\<rparr>"
proof (cases "findOne (signedPreviewRepo io) (\<lambda>t. sp_token t = token \<and> sp_port t = p) (previews s)")
  case None
  then show thesis using absent
    by (simp add: resolveSignedPreviewToken_def getSignedPreviewToken_def preview_findOne_def bnd_run when_eff_def)
next
  case (Some k)
  note k = repository.findOne_Some [OF database.preview_repo [OF assms] Some]
  have run: "resolveSignedPreviewToken io token p s =
      (if sp_expiresAt k \<le> fst (io_now io (ext s))
       then (Inl (NotFoundException ''Signed preview token not found''), s
         \<lparr>previews := filter (\<lambda>x. \<not> (sp_token x = token \<and> sp_port x = p)) (previews s),
          ext := snd (io_now io (ext s))\<rparr>)
       else (Inr (sp_sandboxId k, p), s\<lparr>ext := snd (io_now io (ext s))\<rparr>))"
    using Some repository.delete_rows [OF database.preview_repo [OF assms]]
    by (simp add: resolveSignedPreviewToken_def getSignedPreviewToken_def preview_findOne_def bnd_run when_eff_def
        hasSignedPreviewTokenExpired_def dateNow_def outside_pure_def expireSignedPreviewToken_def
        preview_delete_def split: prod.split)
  then show thesis using live expired [of k] k by (auto split: if_splits)
qed

lemma signed_check_state:
  "snd (validateProxyAccessBySignedToken io token p s) = snd (resolveSignedPreviewToken io token p s)"
proof (cases "resolveSignedPreviewToken io token p s")
  case (Pair q u)
  show ?thesis
  proof (cases q)
    case (Inr x)
    then show ?thesis using Pair requireRuntime_state [of io "fst x" u]
      by (cases x; cases "requireRuntime io (fst x) u")
        (auto simp: validateProxyAccessBySignedToken_def bnd_run split: sum.split)
  qed (use Pair in \<open>simp add: validateProxyAccessBySignedToken_def bnd_run\<close>)
qed

lemma serve_state:
  "\<exists>reply t. serve_http io parse_url url h s = (Inr reply, t) \<and>
     (t = s \<or> (\<exists>m. proxy_extract parse_url url h = Inr (Some m) \<and> t = snd (proxy_target io m s)))"
proof (cases "proxy_extract parse_url url h")
  case (Inl e)
  then show ?thesis by (simp add: serve_http_def handleHttp_def bnd_run catching_run or_else_def)
next
  case (Inr found)
  show ?thesis
  proof (cases found)
    case None
    with Inr show ?thesis by (simp add: serve_http_def handleHttp_def bnd_run catching_run or_else_def)
  next
    case (Some m)
    with Inr show ?thesis
      by (cases "proxy_target io m s"; cases "fst (proxy_target io m s)")
        (auto simp: serve_http_def handleHttp_def bnd_run catching_run or_else_def)
  qed
qed

text \<open>C14: a proxy request never fails and writes nothing but the removal of an expired token. Every
  request gets one of the replies, and whatever it is, the tables are as before (at most the clock
  was read), except that a stored token under which the request came, when it has expired, is
  dropped for that port.\<close>

theorem proxy_request_effect:
  assumes "database io"
  shows "\<exists>reply t. serve_http io parse_url url h s = (Inr reply, t) \<and>
    (t = s \<or> t = s\<lparr>ext := snd (io_now io (ext s))\<rparr> \<or>
     (\<exists>k q. proxy_extract parse_url url h = Inr (Some (SignedMatch (sp_token k) (sp_port k) q)) \<and>
        k \<in> set (previews s) \<and> sp_expiresAt k \<le> fst (io_now io (ext s)) \<and>
        t = s\<lparr>previews := filter (\<lambda>x. \<not> (sp_token x = sp_token k \<and> sp_port x = sp_port k)) (previews s),
              ext := snd (io_now io (ext s))\<rparr>))"
proof -
  obtain reply t where run: "serve_http io parse_url url h s = (Inr reply, t)"
    and t: "t = s \<or> (\<exists>m. proxy_extract parse_url url h = Inr (Some m) \<and> t = snd (proxy_target io m s))"
    using serve_state [of io parse_url url h s] by blast
  show ?thesis
  proof (cases "t = s")
    case True
    with run show ?thesis by blast
  next
    case False
    with t obtain m where m: "proxy_extract parse_url url h = Inr (Some m)" "t = snd (proxy_target io m s)" by blast
    show ?thesis
    proof (cases m)
      case (StandardMatch sid p q tk)
      with m False show ?thesis by (simp add: proxy_target_def sandbox_check_state)
    next
      case (SignedMatch tk p q)
      with m have "t = snd (resolveSignedPreviewToken io tk p s)"
        by (simp add: proxy_target_def signed_check_state)
      with run m SignedMatch show ?thesis by (cases rule: resolve_state [OF assms, of tk p s]) auto
    qed
  qed
qed

theorem proxy_request_effect_witness:
  "\<exists>reply t. serve_http (demo_io empty_config) (one_url ''/proxy/box'') ''/proxy/box'' None live_sys = (Inr reply, t) \<and>
     runtimes t = [demo_runtime] \<and> leases t = leases live_sys"
  using proxy_request_effect [OF demo_database, of empty_config "one_url ''/proxy/box''" "''/proxy/box''" None live_sys]
    live_fields(1)
  by (elim exE conjE disjE) auto

end
