(* ===== verification/Shell.thy ===== *)
theory Shell
  imports JsString
begin

text \<open>
  The launch script of \<open>MicrosandboxAdapterService\<close> (microsandbox/microsandbox-adapter.service.ts):
  \<open>shellEscape\<close>, \<open>toShellCommand\<close> and \<open>buildLaunchScript\<close>. To say what the script means there
  are two readers. \<open>sh_words\<close> reads an argument list by the quoting rules of the POSIX shell: single
  quotes keep every character, double quotes keep the characters that start no expansion, blanks
  end a word. \<open>sh_script\<close> reads a whole script into its commands, with assignments, redirections and
  background commands. The readers refuse what they do not cover (other expansions, escapes, comments,
  compound commands, the other operators). The theorems show that reading undoes escaping, for every
  string, so no command and no directory can change the structure of the script.
\<close>

section \<open>Escaping\<close>

abbreviation squote :: char where "squote \<equiv> CHR 0x27"
abbreviation dquote :: char where "dquote \<equiv> CHR 0x22"
abbreviation newline :: char where "newline \<equiv> CHR 0x0A"

text \<open>The class \<open>[A-Za-z0-9_./:-]\<close>.\<close>

definition shell_safe :: "char \<Rightarrow> bool" where
  "shell_safe c \<longleftrightarrow> is_lower_az c \<or> is_upper_az c \<or> is_digit c \<or> c \<in> set ''_./:-''"

definition escape_quote :: "char \<Rightarrow> string" where
  "escape_quote c = (if c = squote then [squote, dquote, squote, dquote, squote] else [c])"

definition shellEscape :: "string \<Rightarrow> string" where
  "shellEscape v =
     (if v \<noteq> [] \<and> list_all shell_safe v then v
      else squote # concat (map escape_quote v) @ [squote])"

definition toShellCommand :: "string list \<Rightarrow> string" where
  "toShellCommand command = join '' '' (map shellEscape command)"

definition sshd_line :: string where
  "sshd_line = ''SSHD_PORT=22 SSHD_HOST_KEY=/etc/ssh/host_key SSHD_AUTHORIZED_KEYS=/root/.ssh/authorized_keys /usr/local/sbin/inject-sshd >/tmp/inject-sshd.log 2>&1 </dev/null &''"

definition app_suffix :: string where
  "app_suffix = '' >/tmp/microsandbox-app.log 2>&1 </dev/null &''"

definition launch_lines :: "string list option \<Rightarrow> string option \<Rightarrow> bool option \<Rightarrow> string list" where
  "launch_lines command workingDir ssh =
     [''set -eu''] @
     (case opt_trim workingDir of None \<Rightarrow> [] | Some w \<Rightarrow> [''cd '' @ shellEscape w]) @
     (if ssh = Some True then [sshd_line, ''ssh_pid=$!'', ''sleep 0.5''] else []) @
     (case command of None \<Rightarrow> []
      | Some c \<Rightarrow> if c \<noteq> [] then [toShellCommand c @ app_suffix, ''sleep 0.5''] else [])"

definition buildLaunchScript :: "string list option \<Rightarrow> string option \<Rightarrow> bool option \<Rightarrow> string" where
  "buildLaunchScript command workingDir ssh = join [newline] (launch_lines command workingDir ssh)"

section \<open>Reading\<close>

datatype quoting = Bare | Single | Double

text \<open>The word under construction: \<open>None\<close> between words.\<close>

definition push_char :: "string option \<Rightarrow> char \<Rightarrow> string option" where
  "push_char w c = Some (case w of None \<Rightarrow> [c] | Some x \<Rightarrow> x @ [c])"

definition open_word :: "string option \<Rightarrow> string option" where
  "open_word w = Some (case w of None \<Rightarrow> [] | Some x \<Rightarrow> x)"

definition end_word :: "string option \<Rightarrow> string list \<Rightarrow> string list" where
  "end_word w ws = (case w of None \<Rightarrow> ws | Some x \<Rightarrow> x # ws)"

fun sh_words :: "quoting \<Rightarrow> string option \<Rightarrow> string \<Rightarrow> string list option" where
  "sh_words Bare w [] = Some (end_word w [])"
| "sh_words Single w [] = None"
| "sh_words Double w [] = None"
| "sh_words Single w (c # s) =
     (if c = squote then sh_words Bare w s else sh_words Single (push_char w c) s)"
| "sh_words Double w (c # s) =
     (if c = dquote then sh_words Bare w s
      else if c \<in> {CHR 0x24, CHR 0x60, CHR 0x5C} then None
      else sh_words Double (push_char w c) s)"
| "sh_words Bare w (c # s) =
     (if c = squote then sh_words Single (open_word w) s
      else if c = dquote then sh_words Double (open_word w) s
      else if c = CHR '' '' then map_option (end_word w) (sh_words Bare None s)
      else if shell_safe c then sh_words Bare (push_char w c) s
      else None)"

section \<open>Scripts\<close>

text \<open>
  A reader for whole scripts, in the two stages of a shell: the characters are grouped into tokens
  by the quoting rules, and the tokens of a line are read as a command. A word is kept as the list of
  its pieces, because quoting decides what it may be: only unquoted text is a reserved word, the name in
  an assignment or the number of a redirection. \<open>Mark\<close> stands for an opening quote.
\<close>

datatype sh_piece = Plain char | Quoted char | Mark | LastPid

type_synonym sh_word = "sh_piece list"

datatype sh_token = Word sh_word | IoNumber string | Less | Great | GreatAnd | Amp | NewLine

definition add_piece :: "sh_word option \<Rightarrow> sh_piece \<Rightarrow> sh_word option" where
  "add_piece w x = Some (case w of None \<Rightarrow> [x] | Some ps \<Rightarrow> ps @ [x])"

fun plain_chars :: "sh_word \<Rightarrow> string option" where
  "plain_chars [] = Some []"
| "plain_chars (Plain c # ps) = map_option ((#) c) (plain_chars ps)"
| "plain_chars (_ # ps) = None"

fun word_text :: "sh_word \<Rightarrow> string option" where
  "word_text [] = Some []"
| "word_text (Plain c # ps) = map_option ((#) c) (word_text ps)"
| "word_text (Quoted c # ps) = map_option ((#) c) (word_text ps)"
| "word_text (Mark # ps) = word_text ps"
| "word_text (LastPid # ps) = None"

definition cut_word :: "sh_word option \<Rightarrow> sh_token list \<Rightarrow> sh_token list" where
  "cut_word w ts = (case w of None \<Rightarrow> ts | Some ps \<Rightarrow> Word ps # ts)"

text \<open>Unquoted digits right before a redirection are its file number.\<close>

definition cut_number :: "sh_word option \<Rightarrow> sh_token list \<Rightarrow> sh_token list" where
  "cut_number w ts =
     (case w of
        None \<Rightarrow> ts
      | Some ps \<Rightarrow> (case plain_chars ps of
            None \<Rightarrow> Word ps # ts
          | Some ds \<Rightarrow> (if list_all is_digit ds then IoNumber ds else Word ps) # ts))"

fun sh_tokens :: "quoting \<Rightarrow> sh_word option \<Rightarrow> string \<Rightarrow> sh_token list option" where
  "sh_tokens Bare w [] = Some (cut_word w [])"
| "sh_tokens Single w [] = None"
| "sh_tokens Double w [] = None"
| "sh_tokens Single w (c # s) =
     (if c = squote then sh_tokens Bare w s else sh_tokens Single (add_piece w (Quoted c)) s)"
| "sh_tokens Double w (c # s) =
     (if c = dquote then sh_tokens Bare w s
      else if c \<in> {CHR 0x24, CHR 0x60, CHR 0x5C} then None
      else sh_tokens Double (add_piece w (Quoted c)) s)"
| "sh_tokens Bare w (c # s) =
     (if c = squote then sh_tokens Single (add_piece w Mark) s
      else if c = dquote then sh_tokens Double (add_piece w Mark) s
      else if c = CHR '' '' then map_option (cut_word w) (sh_tokens Bare None s)
      else if c = newline then map_option (\<lambda>ts. cut_word w (NewLine # ts)) (sh_tokens Bare None s)
      else if c = CHR ''&'' then map_option (\<lambda>ts. cut_word w (Amp # ts)) (sh_tokens Bare None s)
      else if c = CHR ''<'' then map_option (\<lambda>ts. cut_number w (Less # ts)) (sh_tokens Bare None s)
      else if c = CHR ''>'' then
        (case s of
           [] \<Rightarrow> None
         | d # s' \<Rightarrow>
             if d = CHR ''&'' then map_option (\<lambda>ts. cut_number w (GreatAnd # ts)) (sh_tokens Bare None s')
             else map_option (\<lambda>ts. cut_number w (Great # ts)) (sh_tokens Bare None s))
      else if c = CHR 0x24 then
        (case s of
           [] \<Rightarrow> None
         | d # s' \<Rightarrow> if d = CHR ''!'' then sh_tokens Bare (add_piece w LastPid) s' else None)
      else if shell_safe c \<or> c = CHR ''='' then sh_tokens Bare (add_piece w (Plain c)) s
      else None)"

text \<open>
  A command: assignments in front, words, redirections (file number, kind, target), and whether it runs
  in the background.
\<close>

datatype redir_kind = FromFile | ToFile | DupTo

record sh_command =
  sc_assigns :: "(string \<times> sh_word) list"
  sc_words :: "string list"
  sc_redirs :: "(string \<times> redir_kind \<times> string) list"
  sc_background :: bool

definition empty_command :: sh_command where
  "empty_command = \<lparr>sc_assigns = [], sc_words = [], sc_redirs = [], sc_background = False\<rparr>"

text \<open>
  The words that POSIX reserves for compound commands. The reader has no compound commands: it refuses
  a line that begins with an unquoted one.
\<close>

definition reserved_words :: "string list" where
  "reserved_words = [''!'', ''{'', ''}'', ''case'', ''do'', ''done'', ''elif'', ''else'', ''esac'', ''fi'',
     ''for'', ''if'', ''in'', ''then'', ''until'', ''while'']"

definition reserved :: "sh_word \<Rightarrow> bool" where
  "reserved ps = (case plain_chars ps of None \<Rightarrow> False | Some w \<Rightarrow> w \<in> set reserved_words)"

definition is_name :: "string \<Rightarrow> bool" where
  "is_name n \<longleftrightarrow> n \<noteq> [] \<and> \<not> is_digit (hd n) \<and>
     list_all (\<lambda>c. is_lower_az c \<or> is_upper_az c \<or> is_digit c \<or> c = CHR ''_'') n"

definition assignment :: "sh_word \<Rightarrow> (string \<times> sh_word) option" where
  "assignment ps =
     (case dropWhile (\<lambda>x. x \<noteq> Plain (CHR ''='')) ps of
        [] \<Rightarrow> None
      | _ # v \<Rightarrow> (case plain_chars (takeWhile (\<lambda>x. x \<noteq> Plain (CHR ''='')) ps) of
            None \<Rightarrow> None
          | Some n \<Rightarrow> if is_name n then Some (n, v) else None))"

fun redirection :: "sh_token \<Rightarrow> (string \<times> redir_kind) option" where
  "redirection Less = Some (''0'', FromFile)"
| "redirection Great = Some (''1'', ToFile)"
| "redirection GreatAnd = Some (''1'', DupTo)"
| "redirection _ = None"

definition add_redir :: "string \<Rightarrow> redir_kind \<Rightarrow> sh_word \<Rightarrow> sh_command option \<Rightarrow> sh_command option" where
  "add_redir n kind ps rest =
     (case word_text ps of
        None \<Rightarrow> None
      | Some f \<Rightarrow> map_option (\<lambda>c. c\<lparr>sc_redirs := (n, kind, f) # sc_redirs c\<rparr>) rest)"

text \<open>The tokens of one command; the flag says that assignments may still come.\<close>

fun sh_simple :: "bool \<Rightarrow> sh_token list \<Rightarrow> sh_command option" where
  "sh_simple first [] = Some empty_command"
| "sh_simple first (t # ts) =
     (case t of
        Word ps \<Rightarrow>
          (case (if first then assignment ps else None) of
             Some a \<Rightarrow> map_option (\<lambda>c. c\<lparr>sc_assigns := a # sc_assigns c\<rparr>) (sh_simple True ts)
           | None \<Rightarrow> (case word_text ps of
                 None \<Rightarrow> None
               | Some w \<Rightarrow> map_option (\<lambda>c. c\<lparr>sc_words := w # sc_words c\<rparr>) (sh_simple False ts)))
      | Amp \<Rightarrow> if ts = [] then Some (empty_command\<lparr>sc_background := True\<rparr>) else None
      | IoNumber n \<Rightarrow>
          (case ts of
             op # Word ps # us \<Rightarrow> (case redirection op of
                 None \<Rightarrow> None
               | Some (_, kind) \<Rightarrow> add_redir n kind ps (sh_simple first us))
           | _ \<Rightarrow> None)
      | _ \<Rightarrow>
          (case redirection t of
             None \<Rightarrow> None
           | Some (n, kind) \<Rightarrow> (case ts of
                 Word ps # us \<Rightarrow> add_redir n kind ps (sh_simple first us)
               | _ \<Rightarrow> None)))"

definition sh_line :: "sh_token list \<Rightarrow> sh_command option" where
  "sh_line ts =
     (case ts of
        Word ps # _ \<Rightarrow> if reserved ps then None else sh_simple True ts
      | _ \<Rightarrow> None)"

definition sh_script :: "string \<Rightarrow> sh_command list option" where
  "sh_script s =
     (case sh_tokens Bare None s of
        None \<Rightarrow> None
      | Some ts \<Rightarrow> those (map sh_line (split_on NewLine ts)))"

section \<open>Escaped words\<close>

lemma shell_safe_plain [simp]:
  assumes "shell_safe c"
  shows "c \<noteq> squote" "c \<noteq> dquote" "c \<noteq> CHR '' ''" "c \<noteq> newline"
    "c \<notin> {CHR 0x60, CHR 0x5C, CHR ''#'', CHR ''(''}"
  using assms by (auto simp: shell_safe_def is_lower_az_def is_upper_az_def is_digit_def)

lemma push_simps [simp]:
  "push_char (Some x) c = Some (x @ [c])" "open_word (Some x) = Some x" "open_word None = Some []"
  "push_char None c = Some [c]" "end_word (Some x) ws = x # ws" "end_word None ws = ws"
  by (simp_all add: push_char_def open_word_def end_word_def)

lemma sh_words_safe:
  "list_all shell_safe v \<Longrightarrow> sh_words Bare (Some w) (v @ s) = sh_words Bare (Some (w @ v)) s"
  by (induction v arbitrary: w) simp_all

lemma sh_words_single:
  "sh_words Single (Some w) (concat (map escape_quote v) @ squote # s) = sh_words Bare (Some (w @ v)) s"
  by (induction v arbitrary: w) (simp_all add: escape_quote_def)

lemma sh_words_escape: "sh_words Bare None (shellEscape v @ s) = sh_words Bare (Some v) s"
proof (cases "v \<noteq> [] \<and> list_all shell_safe v")
  case True
  then obtain c u where v: "v = c # u" by (cases v) auto
  with True show ?thesis by (simp add: shellEscape_def sh_words_safe)
next
  case False
  then have "shellEscape v = squote # concat (map escape_quote v) @ [squote]"
    unfolding shellEscape_def by (rule if_not_P)
  then show ?thesis using sh_words_single [of "[]" v s] by simp
qed

lemma sh_words_toShellCommand:
  "sh_words Bare None (toShellCommand command) = Some command"
  unfolding toShellCommand_def
proof (induction "'' ''" "map shellEscape command" arbitrary: command rule: join.induct)
  case 1
  then show ?case by simp
next
  case (2 x)
  then obtain v where "command = [v]" by auto
  then show ?case using sh_words_escape [of v "[]"] by simp
next
  case (3 x y xs)
  then obtain v vs where c: "command = v # vs" and y: "map shellEscape vs = y # xs" by auto
  have "sh_words Bare None (join '' '' (map shellEscape vs)) = Some vs" by (rule 3) (simp add: y)
  then show ?case by (simp add: c y sh_words_escape)
qed

section \<open>Tokens of a script\<close>

lemma cut_simps [simp]:
  "cut_word None ts = ts" "cut_word (Some ps) ts = Word ps # ts"
  "add_piece None x = Some [x]" "add_piece (Some ps) x = Some (ps @ [x])"
  by (simp_all add: cut_word_def add_piece_def)

text \<open>A text that is read to its end outside quotes is read the same way before a line feed.\<close>

lemma cut_append:
  "cut_word w ts @ us = cut_word w (ts @ us)" "cut_number w ts @ us = cut_number w (ts @ us)"
  by (simp_all add: cut_word_def cut_number_def split: option.splits)

lemma sh_tokens_ahead:
  "sh_tokens Bare w [CHR ''>''] = None"
  "sh_tokens Bare w (CHR ''>'' # d # s) =
     (if d = CHR ''&'' then map_option (\<lambda>ts. cut_number w (GreatAnd # ts)) (sh_tokens Bare None s)
      else map_option (\<lambda>ts. cut_number w (Great # ts)) (sh_tokens Bare None (d # s)))"
  "sh_tokens Bare w [CHR 0x24] = None"
  "sh_tokens Bare w (CHR 0x24 # d # s) =
     (if d = CHR ''!'' then sh_tokens Bare (add_piece w LastPid) s else None)"
  by (subst sh_tokens.simps(6), simp del: sh_tokens.simps)+

lemma sh_tokens_line:
  "sh_tokens q w l = Some ts \<Longrightarrow>
   sh_tokens q w (l @ newline # s) = map_option (\<lambda>us. ts @ NewLine # us) (sh_tokens Bare None s)"
proof (induction q w l arbitrary: ts rule: sh_tokens.induct)
  case (1 w)
  then show ?case by (auto simp: cut_append option.map_comp comp_def)
next
  case step: (6 w c r)
  note fuse = cut_append option.map_comp comp_def
  consider "c = squote" | "c = dquote" | "c = CHR '' ''" | "c = newline" | "c = CHR ''&''" | "c = CHR ''<''"
    | "c = CHR ''>''" | "c = CHR 0x24"
    | "c \<notin> {squote, dquote, CHR '' '', newline, CHR ''&'', CHR ''<'', CHR ''>'', CHR 0x24}"
    by blast
  then show ?case
  proof cases
    case 7
    note c = 7
    show ?thesis
    proof (cases r)
      case Nil
      with step(11) c show ?thesis by (simp only: sh_tokens_ahead option.simps)
    next
      case (Cons d r')
      show ?thesis
      proof (cases "d = CHR ''&''")
        case True
        then obtain us where us: "sh_tokens Bare None r' = Some us" "ts = cut_number w (GreatAnd # us)"
          using step(11) unfolding c Cons sh_tokens_ahead by auto
        have "sh_tokens Bare None (r' @ newline # s) = map_option (\<lambda>vs. us @ NewLine # vs) (sh_tokens Bare None s)"
          using step(7) [OF _ _ _ _ _ _ c Cons True us(1)] unfolding c by simp
        then show ?thesis unfolding c Cons append_Cons sh_tokens_ahead by (simp add: True us(2) fuse)
      next
        case False
        then obtain us where us: "sh_tokens Bare None (d # r') = Some us" "ts = cut_number w (Great # us)"
          using step(11) unfolding c Cons sh_tokens_ahead by (auto simp del: sh_tokens.simps)
        have "sh_tokens Bare None (d # r' @ newline # s) = map_option (\<lambda>vs. us @ NewLine # vs) (sh_tokens Bare None s)"
          using step(8) [OF _ _ _ _ _ _ c Cons False] us(1) unfolding c Cons by (simp del: sh_tokens.simps)
        then show ?thesis unfolding c Cons append_Cons sh_tokens_ahead
          by (simp add: False us(2) fuse del: sh_tokens.simps)
      qed
    qed
  next
    case 8
    with step(9,11) show ?thesis
      by (cases r) (auto simp: sh_tokens_ahead simp del: sh_tokens.simps(6) split: if_splits)
  next
    case 9
    with step(10,11) show ?thesis by (cases "c = CHR ''=''") (simp_all split: if_splits)
  next
    case 1
    with step(1,11) show ?thesis by simp
  next
    case 2
    with step(2,11) show ?thesis by simp
  next
    case 3
    with step(3,11) show ?thesis by (auto simp: fuse)
  next
    case 4
    with step(4,11) show ?thesis by (auto simp: fuse)
  next
    case 5
    with step(5,11) show ?thesis by (auto simp: fuse)
  next
    case 6
    with step(6,11) show ?thesis by (auto simp: fuse)
  qed
next
  case (4 w c r)
  then show ?case by (cases "c = squote") simp_all
next
  case (5 w c r)
  then show ?case
    by (cases "c = dquote"; cases "c \<in> {CHR 0x24, CHR 0x60, CHR 0x5C}") (simp_all split: if_splits)
qed simp_all

text \<open>The pieces of an escaped word.\<close>

definition quoted_pieces :: "string \<Rightarrow> sh_word" where
  "quoted_pieces v = concat (map (\<lambda>c. if c = squote then [Mark, Quoted c, Mark] else [Quoted c]) v)"

definition escape_pieces :: "string \<Rightarrow> sh_word" where
  "escape_pieces v = (if v \<noteq> [] \<and> list_all shell_safe v then map Plain v else Mark # quoted_pieces v)"

lemma quoted_pieces_simps [simp]:
  "quoted_pieces [] = []"
  "quoted_pieces (c # v) = (if c = squote then [Mark, Quoted c, Mark] else [Quoted c]) @ quoted_pieces v"
  by (simp_all add: quoted_pieces_def)

lemma shell_safe_no_operator:
  "shell_safe c \<Longrightarrow> c \<notin> {CHR ''&'', CHR ''<'', CHR ''>'', CHR 0x24, CHR ''=''}"
  by (auto simp: shell_safe_def is_lower_az_def is_upper_az_def is_digit_def)

lemma sh_tokens_safe:
  "list_all shell_safe v \<Longrightarrow> sh_tokens Bare (Some ps) (v @ s) = sh_tokens Bare (Some (ps @ map Plain v)) s"
  by (induction v arbitrary: ps) (use shell_safe_no_operator in auto)

lemma sh_tokens_single:
  "sh_tokens Single (Some ps) (concat (map escape_quote v) @ squote # s) =
   sh_tokens Bare (Some (ps @ quoted_pieces v)) s"
  by (induction v arbitrary: ps) (simp_all add: escape_quote_def)

lemma sh_tokens_escape: "sh_tokens Bare None (shellEscape v @ s) = sh_tokens Bare (Some (escape_pieces v)) s"
proof (cases "v \<noteq> [] \<and> list_all shell_safe v")
  case True
  then obtain c u where v: "v = c # u" by (cases v) auto
  with True show ?thesis using shell_safe_no_operator [of c]
    by (simp add: shellEscape_def escape_pieces_def sh_tokens_safe)
next
  case False
  then have "shellEscape v = squote # concat (map escape_quote v) @ [squote]"
    and "escape_pieces v = Mark # quoted_pieces v"
    unfolding shellEscape_def escape_pieces_def by (rule if_not_P)+
  then show ?thesis using sh_tokens_single [of "[Mark]" v s] by simp
qed

lemma sh_tokens_command:
  "command \<noteq> [] \<Longrightarrow> sh_tokens Bare None (toShellCommand command @ CHR '' '' # s) =
     map_option (\<lambda>ts. map (\<lambda>v. Word (escape_pieces v)) command @ ts) (sh_tokens Bare None s)"
  unfolding toShellCommand_def
proof (induction "'' ''" "map shellEscape command" arbitrary: command rule: join.induct)
  case (2 x)
  then obtain v where "command = [v]" by auto
  then show ?case by (auto simp: sh_tokens_escape intro: option.map_cong0)
next
  case (3 x y xs)
  then obtain v vs where c: "command = v # vs" and y: "map shellEscape vs = y # xs" by auto
  have "sh_tokens Bare None (join '' '' (map shellEscape vs) @ CHR '' '' # s) =
     map_option (\<lambda>ts. map (\<lambda>v. Word (escape_pieces v)) vs @ ts) (sh_tokens Bare None s)"
    using y by (intro 3) auto
  then show ?case
    by (auto simp: c y sh_tokens_escape option.map_comp comp_def intro!: option.map_cong0)
qed simp

section \<open>Commands of a script\<close>

text \<open>What the words of an escaped command are to the reader.\<close>

lemma word_text_quoted [simp]: "word_text (quoted_pieces v) = Some v"
  by (induction v) auto

lemma word_text_plain [simp]: "word_text (map Plain v) = Some v"
  by (induction v) auto

lemma plain_chars_plain [simp]: "plain_chars (map Plain v) = Some v"
  by (induction v) auto

lemma word_text_escape [simp]: "word_text (escape_pieces v) = Some v"
  by (simp add: escape_pieces_def)

lemma assignment_escape [simp]: "assignment (escape_pieces v) = None"
proof -
  have "Plain (CHR ''='') \<notin> set (escape_pieces v)"
    using shell_safe_no_operator [of "CHR ''=''"]
    by (auto simp: escape_pieces_def quoted_pieces_def list_all_iff split: if_splits)
  then have "dropWhile (\<lambda>x. x \<noteq> Plain (CHR ''='')) (escape_pieces v) = []"
    by (auto simp: dropWhile_eq_Nil_conv)
  then show ?thesis unfolding assignment_def by (simp only: list.case)
qed

definition starts_reserved :: "string list option \<Rightarrow> bool" where
  "starts_reserved command =
     (case command of
        Some (w # _) \<Rightarrow> list_all shell_safe w \<and> w \<in> set reserved_words
      | _ \<Rightarrow> False)"

lemma reserved_escape:
  "reserved (escape_pieces v) \<longleftrightarrow> list_all shell_safe v \<and> v \<in> set reserved_words"
proof -
  have "[] \<notin> set reserved_words" by code_simp
  then show ?thesis by (auto simp: reserved_def escape_pieces_def)
qed

definition add_words :: "string list \<Rightarrow> sh_command \<Rightarrow> sh_command" where
  "add_words ws c = c\<lparr>sc_words := ws @ sc_words c\<rparr>"

lemma sh_simple_words:
  "command \<noteq> [] \<Longrightarrow> sh_simple first (map (\<lambda>v. Word (escape_pieces v)) command @ ts) =
     map_option (add_words command) (sh_simple False ts)"
proof (induction command arbitrary: first)
  case (Cons v vs)
  then show ?case
    by (cases "vs = []") (auto simp: add_words_def option.map_comp comp_def intro!: option.map_cong)
qed simp

text \<open>The commands that the launch script is meant to be.\<close>

definition simple_command :: "string list \<Rightarrow> sh_command" where
  "simple_command ws = empty_command\<lparr>sc_words := ws\<rparr>"

definition logged_command :: "string \<Rightarrow> string list \<Rightarrow> sh_command" where
  "logged_command log ws =
     \<lparr>sc_assigns = [], sc_words = ws,
      sc_redirs = [(''1'', ToFile, log), (''2'', DupTo, ''1''), (''0'', FromFile, ''/dev/null'')],
      sc_background = True\<rparr>"

abbreviation sshd_path :: string where "sshd_path \<equiv> ''/usr/local/sbin/inject-sshd''"

definition daemon_command :: sh_command where
  "daemon_command = (logged_command ''/tmp/inject-sshd.log'' [sshd_path])
     \<lparr>sc_assigns := [(''SSHD_PORT'', map Plain ''22''), (''SSHD_HOST_KEY'', map Plain ''/etc/ssh/host_key''),
        (''SSHD_AUTHORIZED_KEYS'', map Plain ''/root/.ssh/authorized_keys'')]\<rparr>"

definition pid_command :: sh_command where
  "pid_command = empty_command\<lparr>sc_assigns := [(''ssh_pid'', [LastPid])]\<rparr>"

definition launch_commands :: "string list option \<Rightarrow> string option \<Rightarrow> bool option \<Rightarrow> sh_command list" where
  "launch_commands command workingDir ssh =
     [simple_command [''set'', ''-eu'']] @
     (case opt_trim workingDir of None \<Rightarrow> [] | Some w \<Rightarrow> [simple_command [''cd'', w]]) @
     (if ssh = Some True then [daemon_command, pid_command, simple_command [''sleep'', ''0.5'']] else []) @
     (case command of None \<Rightarrow> []
      | Some c \<Rightarrow> if c = [] then []
          else [logged_command ''/tmp/microsandbox-app.log'' c, simple_command [''sleep'', ''0.5'']])"

text \<open>One line: its tokens, none of them a line feed, and the command they form.\<close>

definition reads_as :: "string \<Rightarrow> sh_command option \<Rightarrow> bool" where
  "reads_as l c \<longleftrightarrow> (\<exists>ts. sh_tokens Bare None l = Some ts \<and> NewLine \<notin> set ts \<and> sh_line ts = c)"

lemma reads_asI: "sh_tokens Bare None l = Some ts \<Longrightarrow> NewLine \<notin> set ts \<Longrightarrow> sh_line ts = c \<Longrightarrow> reads_as l c"
  by (auto simp: reads_as_def)

lemma fixed_lines:
  "reads_as ''set -eu'' (Some (simple_command [''set'', ''-eu'']))"
  "reads_as ''sleep 0.5'' (Some (simple_command [''sleep'', ''0.5'']))"
  "reads_as ''ssh_pid=$!'' (Some pid_command)"
  "reads_as sshd_line (Some daemon_command)"
proof -
  have "map_option (\<lambda>ts. (NewLine \<in> set ts, sh_line ts)) (sh_tokens Bare None ''set -eu'') =
      Some (False, Some (simple_command [''set'', ''-eu'']))"
    "map_option (\<lambda>ts. (NewLine \<in> set ts, sh_line ts)) (sh_tokens Bare None ''sleep 0.5'') =
      Some (False, Some (simple_command [''sleep'', ''0.5'']))"
    "map_option (\<lambda>ts. (NewLine \<in> set ts, sh_line ts)) (sh_tokens Bare None ''ssh_pid=$!'') = Some (False, Some pid_command)"
    "map_option (\<lambda>ts. (NewLine \<in> set ts, sh_line ts)) (sh_tokens Bare None sshd_line) = Some (False, Some daemon_command)"
    by code_simp+
  then show "reads_as ''set -eu'' (Some (simple_command [''set'', ''-eu'']))"
    "reads_as ''sleep 0.5'' (Some (simple_command [''sleep'', ''0.5'']))"
    "reads_as ''ssh_pid=$!'' (Some pid_command)" "reads_as sshd_line (Some daemon_command)"
    by (auto simp: reads_as_def)
qed

lemma cd_line: "reads_as (''cd '' @ shellEscape w) (Some (simple_command [''cd'', w]))"
proof (rule reads_asI)
  have c: "shell_safe (CHR ''c'')" "shell_safe (CHR ''d'')" by code_simp+
  show "sh_tokens Bare None (''cd '' @ shellEscape w) = Some [Word (map Plain ''cd''), Word (escape_pieces w)]"
    using sh_tokens_escape [of w "[]"] by (simp add: c)
  have "\<not> reserved (map Plain ''cd'')" "assignment (map Plain ''cd'') = None" by code_simp+
  moreover have "word_text (map Plain ''cd'') = Some ''cd''" by code_simp
  ultimately show "sh_line [Word (map Plain ''cd''), Word (escape_pieces w)] = Some (simple_command [''cd'', w])"
    by (simp add: sh_line_def simple_command_def empty_command_def del: list.map)
qed simp

definition app_tokens :: "sh_token list" where
  "app_tokens = the (sh_tokens Bare None (tl app_suffix))"

lemma app_tokens:
  "sh_tokens Bare None (tl app_suffix) = Some app_tokens" "NewLine \<notin> set app_tokens"
  "sh_simple False app_tokens = Some (logged_command ''/tmp/microsandbox-app.log'' [])"
  by code_simp+

lemma app_line:
  assumes "c \<noteq> []"
  shows "reads_as (toShellCommand c @ app_suffix)
    (if starts_reserved (Some c) then None else Some (logged_command ''/tmp/microsandbox-app.log'' c))"
proof (rule reads_asI)
  let ?ws = "map (\<lambda>v. Word (escape_pieces v)) c"
  have "app_suffix = CHR '' '' # tl app_suffix" by code_simp
  then show "sh_tokens Bare None (toShellCommand c @ app_suffix) = Some (?ws @ app_tokens)"
    using sh_tokens_command [OF assms, of "tl app_suffix"] by (simp add: app_tokens)
  show "NewLine \<notin> set (?ws @ app_tokens)" by (auto simp: app_tokens)
  obtain v vs where c: "c = v # vs" using assms by (cases c) auto
  have "sh_simple True (?ws @ app_tokens) = Some (logged_command ''/tmp/microsandbox-app.log'' c)"
    using sh_simple_words [OF assms, of True app_tokens]
    by (simp add: app_tokens add_words_def logged_command_def)
  then show "sh_line (?ws @ app_tokens) =
      (if starts_reserved (Some c) then None else Some (logged_command ''/tmp/microsandbox-app.log'' c))"
    by (simp add: sh_line_def c starts_reserved_def reserved_escape)
qed

lemma sh_tokens_join:
  "list_all2 reads_as ls cs \<Longrightarrow> ls \<noteq> [] \<Longrightarrow>
   \<exists>tss. sh_tokens Bare None (join [newline] ls) = Some (join [NewLine] tss) \<and> tss \<noteq> [] \<and>
     (\<forall>ts \<in> set tss. NewLine \<notin> set ts) \<and> map sh_line tss = cs"
proof (induction ls arbitrary: cs)
  case (Cons l ls)
  then obtain c cs' where cs: "cs = c # cs'" "list_all2 reads_as ls cs'" and "reads_as l c"
    by (auto simp: list_all2_Cons1)
  then obtain ts where ts: "sh_tokens Bare None l = Some ts" "NewLine \<notin> set ts" "sh_line ts = c"
    by (auto simp: reads_as_def)
  show ?case
  proof (cases ls)
    case Nil
    with cs ts show ?thesis by (intro exI [of _ "[ts]"]) simp
  next
    case (Cons l' ls')
    then obtain tss where tss: "sh_tokens Bare None (join [newline] ls) = Some (join [NewLine] tss)"
      "tss \<noteq> []" "\<forall>ts \<in> set tss. NewLine \<notin> set ts" "map sh_line tss = cs'"
      using Cons.IH [OF cs(2)] by auto
    have "join [newline] (l # ls) = l @ newline # join [newline] ls" using Cons by simp
    moreover have "join [NewLine] (ts # tss) = ts @ NewLine # join [NewLine] tss"
      using tss(2) by (cases tss) simp_all
    ultimately show ?thesis
      using tss ts cs sh_tokens_line [OF ts(1), of "join [newline] ls"]
      by (intro exI [of _ "ts # tss"]) simp
  qed
qed simp

lemma sh_script_join:
  assumes "list_all2 reads_as ls cs" and "ls \<noteq> []"
  shows "sh_script (join [newline] ls) = those cs"
  using sh_tokens_join [OF assms] by (auto simp: sh_script_def split_on_join)

lemma those_Some [simp]: "those (map Some xs) = Some xs"
  by (induction xs) simp_all

lemma those_None: "None \<in> set xs \<Longrightarrow> those xs = None"
  by (induction xs) (auto split: option.splits)

lemma sh_script_launch:
  "sh_script (buildLaunchScript command workingDir ssh) =
     (if starts_reserved command then None else Some (launch_commands command workingDir ssh))"
proof -
  define app where "app = (if starts_reserved command then None
    else Some (logged_command ''/tmp/microsandbox-app.log'' (the command)))"
  define cs where "cs = map Some (launch_commands None workingDir ssh) @
    (if command = None \<or> command = Some [] then [] else [app, Some (simple_command [''sleep'', ''0.5''])])"
  have app: "reads_as (toShellCommand c @ app_suffix) None" if "c \<noteq> []" "starts_reserved (Some c)" for c
    using app_line [OF that(1)] that(2) by simp
  have app': "reads_as (toShellCommand c @ app_suffix) (Some (logged_command ''/tmp/microsandbox-app.log'' c))"
    if "c \<noteq> []" "\<not> starts_reserved (Some c)" for c
    using app_line [OF that(1)] that(2) by simp
  have "list_all2 reads_as (launch_lines command workingDir ssh) cs"
    by (auto simp: launch_lines_def cs_def launch_commands_def app_def app app' fixed_lines
        cd_line [simplified] starts_reserved_def [of None] intro!: list_all2_appendI split: option.splits)
  then have "sh_script (buildLaunchScript command workingDir ssh) = those cs"
    unfolding buildLaunchScript_def by (rule sh_script_join) (simp add: launch_lines_def)
  also have "\<dots> = (if starts_reserved command then None else Some (launch_commands command workingDir ssh))"
  proof (cases "starts_reserved command")
    case True
    then have "None \<in> set cs" by (auto simp: cs_def app_def starts_reserved_def split: option.splits list.splits)
    with True show ?thesis by (simp add: those_None)
  next
    case False
    then have "cs = map Some (launch_commands command workingDir ssh)"
      by (auto simp: cs_def app_def launch_commands_def split: option.splits)
    with False show ?thesis by simp
  qed
  finally show ?thesis .
qed

text \<open>The SSH daemon is among the commands only when SSH is on, or as the command itself.\<close>

definition runs_sshd :: "sh_command \<Rightarrow> bool" where
  "runs_sshd c \<longleftrightarrow> take 1 (sc_words c) = [sshd_path]"

lemma launch_runs_sshd:
  "daemon_command \<in> set (launch_commands command workingDir (Some True))" "runs_sshd daemon_command"
  "c \<in> set (launch_commands command workingDir None) \<Longrightarrow> runs_sshd c \<Longrightarrow>
     \<exists>cmd. command = Some cmd \<and> c = logged_command ''/tmp/microsandbox-app.log'' cmd"
  by (auto simp: launch_commands_def daemon_command_def runs_sshd_def simple_command_def logged_command_def
      split: option.splits if_splits)

section \<open>Properties\<close>

text \<open>C15: escaping is safe: whatever strings a command consists of, the shell reads the escaped
  text as exactly these words.\<close>

theorem toShellCommand_words: "sh_words Bare None (toShellCommand command) = Some command"
  by (rule sh_words_toShellCommand)

text \<open>C16: the launch script is read as exactly these commands, in this order: \<open>set -eu\<close>; a \<open>cd\<close> to the
  trimmed directory when there is one; when SSH is on, the daemon in the background with its three
  settings, the recording of its process and a pause; and, when there is a command, one command
  in the background whose words are the given ones, and a pause. No string in the
  command or the directory can change this, with one exception, which the theorem delimits: a command whose
  first word is spelled like an unquoted reserved word (such as \<open>if\<close>) is no simple command, and
  the script as a whole is refused.\<close>

theorem launch_script_structure:
  "sh_script (buildLaunchScript command workingDir ssh) =
     (if starts_reserved command then None
      else Some (
        [simple_command [''set'', ''-eu'']] @
        (case opt_trim workingDir of None \<Rightarrow> [] | Some w \<Rightarrow> [simple_command [''cd'', w]]) @
        (if ssh = Some True then [daemon_command, pid_command, simple_command [''sleep'', ''0.5'']] else []) @
        (case command of None \<Rightarrow> []
         | Some c \<Rightarrow> if c = [] then []
             else [logged_command ''/tmp/microsandbox-app.log'' c, simple_command [''sleep'', ''0.5'']])))"
  unfolding sh_script_launch launch_commands_def by (rule refl)

theorem launch_script_structure_witness:
  "sh_script (buildLaunchScript (Some [''echo'', ''a; rm -rf /'']) (Some '' /srv '') None) =
     Some [simple_command [''set'', ''-eu''], simple_command [''cd'', ''/srv''],
       logged_command ''/tmp/microsandbox-app.log'' [''echo'', ''a; rm -rf /''], simple_command [''sleep'', ''0.5'']] \<and>
   sh_script (buildLaunchScript (Some [''if'', ''x'']) None None) = None"
proof -
  have "opt_trim (Some '' /srv '') = Some ''/srv''" "\<not> starts_reserved (Some [''echo'', ''a; rm -rf /''])"
    "starts_reserved (Some [''if'', ''x''])"
    by code_simp+
  then show ?thesis by (simp add: launch_script_structure)
qed

end
