(* ===== verification/SandboxAdapter.thy ===== *)
theory SandboxAdapter
  imports Shell SshSession Control
begin

text \<open>
  \<open>MicrosandboxAdapterService\<close> (microsandbox/microsandbox-adapter.service.ts): the VM backend that
  the services reach through the adapter interface, and the file access of \<open>SshService\<close>
  (ssh/ssh.service.ts). The \<open>microsandbox\<close> SDK, the \<open>msb\<close> command line, sockets, files, timers
  and the clock are the record \<open>sdk\<close> of operations on the outside world; handles and connected
  sandboxes are values of arbitrary types. A builder is the sequence of the calls made on it. A
  race of a promise with a timer is one operation of the SDK record that answers \<open>None\<close> when
  the timer was first. Log lines are left out.
\<close>

section \<open>The SDK\<close>

datatype patchCall = Mkdir string nat | Text string string nat bool

datatype secretCall =
    SecretEnv string
  | SecretValue string
  | SecretPlaceholder string
  | AllowHost string
  | AllowHostPattern string
  | AllowAnyHostDangerous bool
  | RequireTlsIdentity bool
  | InjectHeaders bool
  | InjectBasicAuth bool
  | InjectQuery bool
  | InjectBody bool

datatype builderCall =
    Replace
  | Detached bool
  | Image string
  | Cpus int
  | MemoryMiB int
  | Patch "patchCall list"
  | Envs "(string \<times> string) list"
  | Registry string string string
  | PortUdp int int
  | PortTcp int int
  | Secret "secretCall list"
  | Workdir string
  | IdleTimeout int
  | NamedVolume string string bool

record execOutput =
  eo_stdout :: string
  eo_stderr :: string
  eo_code :: "int option"

text \<open>How the child process of the command line ended, and what a socket reported first.\<close>

datatype childEnd = SpawnError "string option" exn | Closed "int option" string

datatype socketEvent = Connected | TimedOut | SocketError

record ('v, 'h, 's) sdk =
  sk_imageList :: "('v, imageInfo list) eff"
  sk_imageGet :: "string \<Rightarrow> ('v, imageInfo) eff"
  sk_volumeGet :: "string \<Rightarrow> ('v, unit) eff"
  sk_volumeCreate :: "string \<Rightarrow> int option \<Rightarrow> ('v, unit) eff"
  sk_volumeRemove :: "string \<Rightarrow> ('v, unit) eff"
  sk_isInstalled :: "'v \<Rightarrow> bool \<times> 'v"
  sk_msb :: "string list \<Rightarrow> string option \<Rightarrow> 'v \<Rightarrow> childEnd \<times> 'v"
  sk_get :: "string \<Rightarrow> ('v, 'h) eff"
  sk_status :: "'h \<Rightarrow> string"
  sk_startDetached :: "'h \<Rightarrow> ('v, 's) eff"
  sk_connect :: "'h \<Rightarrow> ('v, 's) eff"
  sk_stop :: "'h \<Rightarrow> ('v, unit) eff"
  sk_remove :: "'h \<Rightarrow> ('v, unit) eff"
  sk_kill :: "'h \<Rightarrow> ('v, unit) eff"
  sk_create :: "string \<Rightarrow> builderCall list \<Rightarrow> ('v, 's) eff"
  sk_exec :: "'s \<Rightarrow> string \<Rightarrow> string list \<Rightarrow> ('v, execOutput) eff"
  sk_execWithin :: "int \<Rightarrow> 's \<Rightarrow> string \<Rightarrow> string list \<Rightarrow> ('v, execOutput option) eff"
  sk_shell :: "'s \<Rightarrow> string \<Rightarrow> ('v, unit) eff"
  sk_detach :: "'s \<Rightarrow> ('v, unit) eff"
  sk_detachWithin :: "int \<Rightarrow> 's \<Rightarrow> ('v, unit option) eff"
  sk_fsWrite :: "'s \<Rightarrow> string \<Rightarrow> string \<Rightarrow> ('v, unit) eff"
  sk_fsRead :: "'s \<Rightarrow> string \<Rightarrow> ('v, string) eff"
  sk_fsMkdir :: "'s \<Rightarrow> string \<Rightarrow> ('v, unit) eff"
  sk_probe :: "int \<Rightarrow> int \<Rightarrow> 'v \<Rightarrow> socketEvent \<times> 'v"
  sk_existsSync :: "string \<Rightarrow> 'v \<Rightarrow> bool \<times> 'v"
  sk_readFileSync :: "string \<Rightarrow> ('v, string) eff"
  sk_arch :: string
  sk_now :: "'v \<Rightarrow> int \<times> 'v"
  sk_sleep :: "int \<Rightarrow> 'v \<Rightarrow> 'v"

text \<open>An operation that cannot throw.\<close>

definition pure_op :: "('v \<Rightarrow> 'a \<times> 'v) \<Rightarrow> ('v, 'a) eff" where
  "pure_op f = (\<lambda>v. case f v of (x, w) \<Rightarrow> (Inr x, w))"

text \<open>\<open>promise.catch(() => undefined)\<close>\<close>

definition best_effort :: "('v, unit) eff \<Rightarrow> ('v, unit) eff" where
  "best_effort m = catching m (\<lambda>_. ret ())"

definition delay :: "('v, 'h, 's) sdk \<Rightarrow> int \<Rightarrow> ('v, unit) eff" where
  "delay k ms = modify (sk_sleep k ms)"

section \<open>Files of the SSH service\<close>

definition readBinary :: "config \<Rightarrow> ('v, 'h, 's) sdk \<Rightarrow> guestArch option \<Rightarrow> ('v, string) eff" where
  "readBinary cfg k arch =
     (let targetArch = or_else arch (guestArch_of (sk_arch k));
          path = getBinaryPath (process_cwd cfg) targetArch
      in bnd (pure_op (sk_existsSync k path)) (\<lambda>exists.
         if \<not> exists then ret [] else sk_readFileSync k path))"

definition binaryExists :: "config \<Rightarrow> ('v, 'h, 's) sdk \<Rightarrow> guestArch option \<Rightarrow> ('v, bool) eff" where
  "binaryExists cfg k arch =
     pure_op (sk_existsSync k (getBinaryPath (process_cwd cfg) (or_else arch (guestArch_of (sk_arch k)))))"

definition readGatewayPublicKey :: "config \<Rightarrow> ('v, 'h, 's) sdk \<Rightarrow> ('v, string) eff" where
  "readGatewayPublicKey cfg k =
     (let path = path_join [binaryDir (process_cwd cfg), ''gateway-key.pub'']
      in bnd (pure_op (sk_existsSync k path)) (\<lambda>exists.
         if \<not> exists then ret [] else bnd (sk_readFileSync k path) (\<lambda>s. ret (trim s))))"

section \<open>Commands in a sandbox\<close>

text \<open>The adapter has its own copy of \<open>errorMessage\<close>.\<close>

definition adapter_errorMessage :: "exn \<Rightarrow> string" where
  "adapter_errorMessage e =
     (case e of
        HttpException _ m \<Rightarrow> m
      | JsError m \<Rightarrow> m
      | ThrownString m \<Rightarrow> m
      | ThrownNil \<Rightarrow> []
      | ThrownObject (Some m) \<Rightarrow> m
      | ThrownObject None \<Rightarrow> ''unknown error''
      | OutOfFuel \<Rightarrow> [])"

definition isRetryableExecError :: "exn \<Rightarrow> bool" where
  "isRetryableExecError e =
     (let message = adapter_errorMessage e in
      str_includes ''exec session ended without exit event'' message \<or>
      str_includes ''sandbox exec timed out'' message)"

definition execWithTimeout ::
  "('v, 'h, 's) sdk \<Rightarrow> 's \<Rightarrow> string \<Rightarrow> string list \<Rightarrow> int \<Rightarrow> ('v, execOutput) eff" where
  "execWithTimeout k sandbox command args timeoutMs =
     bnd (sk_execWithin k timeoutMs sandbox command args) (\<lambda>first.
     case first of
       None \<Rightarrow> throw (JsError (''sandbox exec timed out after '' @ int_digits timeoutMs @ ''ms''))
     | Some out \<Rightarrow> ret out)"

text \<open>The loop of \<open>execWithTransientRetry\<close>, from an attempt with so many attempts left.\<close>

fun retry_from ::
  "('v, 'h, 's) sdk \<Rightarrow> 's \<Rightarrow> string \<Rightarrow> string list \<Rightarrow> int \<Rightarrow> nat \<Rightarrow> ('v, execOutput) eff" where
  "retry_from k sandbox command args attempt 0 = throw ThrownNil"
| "retry_from k sandbox command args attempt (Suc left) =
     catching (execWithTimeout k sandbox command args 5000) (\<lambda>error.
       if \<not> isRetryableExecError error \<or> attempt = 3 then throw error
       else bnd (delay k (250 * attempt)) (\<lambda>_.
         retry_from k sandbox command args (attempt + 1) left))"

definition execWithTransientRetry ::
  "('v, 'h, 's) sdk \<Rightarrow> 's \<Rightarrow> string \<Rightarrow> string list \<Rightarrow> ('v, execOutput) eff" where
  "execWithTransientRetry k sandbox command args = retry_from k sandbox command args 1 3"

definition launchManagedCommand ::
  "('v, 'h, 's) sdk \<Rightarrow> 's \<Rightarrow> string list option \<Rightarrow> string option \<Rightarrow> bool option \<Rightarrow> ('v, unit) eff" where
  "launchManagedCommand k sandbox command workingDir ssh =
     (if (command = None \<or> command = Some []) \<and> ssh \<noteq> Some True then ret ()
      else bnd (execWithTransientRetry k sandbox ''sh'' [''-lc'', buildLaunchScript command workingDir ssh])
             (\<lambda>_. ret ()))"

definition keygen_script :: string where
  "keygen_script = ''if command -v ssh-keygen >/dev/null 2>&1; then ssh-keygen -t ed25519 -f /etc/ssh/host_key -N '' @ [dquote, dquote] @ ''; fi''"

definition injectSshBinary :: "config \<Rightarrow> ('v, 'h, 's) sdk \<Rightarrow> 's \<Rightarrow> ('v, unit) eff" where
  "injectSshBinary cfg k sandbox =
     bnd (readBinary cfg k None) (\<lambda>binaryContent.
     if binaryContent = [] then ret ()
     else
       bnd (sk_fsWrite k sandbox ''/usr/local/sbin/inject-sshd'' binaryContent) (\<lambda>_.
       bnd (execWithTransientRetry k sandbox ''chmod'' [''+x'', ''/usr/local/sbin/inject-sshd'']) (\<lambda>_.
       bnd (readGatewayPublicKey cfg k) (\<lambda>gatewayKey.
       let authKeysContent = (if gatewayKey \<noteq> [] then buildAuthorizedKeysContent [gatewayKey] else []) in
       bnd (best_effort (sk_fsMkdir k sandbox ''/root/.ssh'')) (\<lambda>_.
       bnd (sk_fsWrite k sandbox ''/root/.ssh/authorized_keys'' authKeysContent) (\<lambda>_.
       catching (bnd (execWithTransientRetry k sandbox ''sh'' [''-c'', keygen_script]) (\<lambda>_. ret ()))
         (\<lambda>_. ret ())))))))"

definition detachBestEffort :: "('v, 'h, 's) sdk \<Rightarrow> 's \<Rightarrow> ('v, unit) eff" where
  "detachBestEffort k sandbox =
     catching
       (bnd (sk_detachWithin k 2000 sandbox) (\<lambda>first.
        case first of
          None \<Rightarrow> throw (JsError (''sandbox detach timed out after '' @ int_digits 2000 @ ''ms''))
        | Some _ \<Rightarrow> ret ()))
       (\<lambda>_. ret ())"

section \<open>Building a sandbox\<close>

definition buildBootstrapPatch ::
  "runtimeFile list \<Rightarrow> string option \<Rightarrow> mountInput list \<Rightarrow> patchCall list" where
  "buildBootstrapPatch files workingDir mounts =
     map (\<lambda>dir. Mkdir dir 493) (bootstrapDirectories workingDir (map mi_mountPath mounts)) @
     concat (map (\<lambda>f. map (\<lambda>dir. Mkdir dir 493) (parentDirectories (rf_path f)) @
                       [Text (rf_path f) (rf_content f) 420 True]) files)"

definition applySecret :: "secretRecord \<Rightarrow> secretCall list" where
  "applySecret secret =
     [SecretEnv (sr_env secret), SecretValue (sr_value secret)] @
     (case sr_placeholder secret of None \<Rightarrow> [] | Some x \<Rightarrow> if x \<noteq> [] then [SecretPlaceholder x] else []) @
     map AllowHost (sr_allowedHosts secret) @
     map AllowHostPattern (sr_allowedHostPatterns secret) @
     (if sr_allowAnyHostDangerous secret = Some True then [AllowAnyHostDangerous True] else []) @
     (case sr_requireTlsIdentity secret of None \<Rightarrow> [] | Some b \<Rightarrow> [RequireTlsIdentity b]) @
     (case sr_injectHeaders secret of None \<Rightarrow> [] | Some b \<Rightarrow> [InjectHeaders b]) @
     (case sr_injectBasicAuth secret of None \<Rightarrow> [] | Some b \<Rightarrow> [InjectBasicAuth b]) @
     (case sr_injectQuery secret of None \<Rightarrow> [] | Some b \<Rightarrow> [InjectQuery b]) @
     (case sr_injectBody secret of None \<Rightarrow> [] | Some b \<Rightarrow> [InjectBody b])"

definition port_call :: "portBinding \<Rightarrow> builderCall" where
  "port_call b =
     (if pb_protocol b = Udp then PortUdp (pb_hostPort b) (pb_containerPort b)
      else PortTcp (pb_hostPort b) (pb_containerPort b))"

definition builder_calls :: "createRuntimeInput \<Rightarrow> builderCall list" where
  "builder_calls input =
     [Replace, Detached True, Image (ci_image input), Cpus (ci_cpu input), MemoryMiB (ci_memoryMiB input),
      Patch (buildBootstrapPatch (ci_files input) (ci_workingDir input) (ci_mounts input)),
      Envs (ci_env input)] @
     (case ci_registryAuth input of None \<Rightarrow> []
      | Some a \<Rightarrow> [Registry ''basic'' (ra_username a) (ra_password a)]) @
     map port_call (ci_ports input) @
     map (\<lambda>x. Secret (applySecret x)) (ci_secrets input) @
     (case ci_workingDir input of None \<Rightarrow> [] | Some w \<Rightarrow> if w \<noteq> [] then [Workdir w] else []) @
     (case ci_autoStopMinutes input of None \<Rightarrow> []
      | Some n \<Rightarrow> if n \<noteq> 0 \<and> n > 0 then [IdleTimeout (n * 60)] else []) @
     map (\<lambda>m. NamedVolume (mi_mountPath m) (mi_volumeName m) (mi_readOnly m = Some True)) (ci_mounts input)"

definition createDetachedRuntime ::
  "config \<Rightarrow> ('v, 'h, 's) sdk \<Rightarrow> createRuntimeInput \<Rightarrow> ('v, unit) eff" where
  "createDetachedRuntime cfg k input =
     bnd (sk_create k (ci_sandboxName input) (builder_calls input)) (\<lambda>sandbox.
     ensuring
       (bnd (when_eff (ci_ssh input = Some True)
              (catching (injectSshBinary cfg k sandbox) (\<lambda>_. ret ()))) (\<lambda>_.
        launchManagedCommand k sandbox (ci_command input) (ci_workingDir input) (ci_ssh input)))
       (detachBestEffort k sandbox))"

section \<open>Images and volumes\<close>

definition image_fields :: "imageInfo \<Rightarrow> imageInfo" where
  "image_fields i =
     \<lparr>im_reference = im_reference i, im_architecture = im_architecture i, im_os = im_os i,
      im_sizeBytes = im_sizeBytes i, im_layerCount = im_layerCount i\<rparr>"

definition listCachedImages :: "('v, 'h, 's) sdk \<Rightarrow> ('v, imageInfo list) eff" where
  "listCachedImages k = bnd (sk_imageList k) (\<lambda>images. ret (map image_fields images))"

definition ensureMicrosandboxRuntimeInstalled :: "('v, 'h, 's) sdk \<Rightarrow> ('v, unit) eff" where
  "ensureMicrosandboxRuntimeInstalled k =
     bnd (pure_op (sk_isInstalled k)) (\<lambda>installed.
     if \<not> installed then throw (ServiceUnavailableException
       ''Microsandbox runtime is not installed on this host. Install Microsandbox before pulling or provisioning images.'')
     else ret ())"

definition runMicrosandboxCli ::
  "('v, 'h, 's) sdk \<Rightarrow> string list \<Rightarrow> string option \<Rightarrow> ('v, unit) eff" where
  "runMicrosandboxCli k args stdin =
     bnd (pure_op (sk_msb k args stdin)) (\<lambda>child.
     case child of
       SpawnError code error \<Rightarrow>
         if code = Some ''ENOENT''
         then throw (ServiceUnavailableException
           ''Microsandbox CLI is not installed on this host. Install the microsandbox package so image warming can run.'')
         else throw error
     | Closed code stderr \<Rightarrow>
         if code = Some 0 then ret ()
         else throw (ServiceUnavailableException
           (''Microsandbox CLI command failed: '' @ str_or (trim stderr) (join '' '' args))))"

definition loginRegistry :: "('v, 'h, 's) sdk \<Rightarrow> registryAuth \<Rightarrow> ('v, unit) eff" where
  "loginRegistry k auth =
     runMicrosandboxCli k
       [''registry'', ''login'', ''--username'', ra_username auth, ''--password-stdin'', ra_server auth]
       (Some (ra_password auth))"

definition logoutRegistry :: "('v, 'h, 's) sdk \<Rightarrow> string \<Rightarrow> ('v, unit) eff" where
  "logoutRegistry k server = runMicrosandboxCli k [''registry'', ''logout'', server] None"

definition pullImage ::
  "('v, 'h, 's) sdk \<Rightarrow> string \<Rightarrow> registryAuth option \<Rightarrow> ('v, imageInfo \<times> bool) eff" where
  "pullImage k reference auth =
     (let normalized = trim reference in
      if normalized = [] then throw (JsError ''Image reference is required'')
      else
        catching (bnd (sk_imageGet k normalized) (\<lambda>cached. ret (image_fields cached, True))) (\<lambda>_.
          bnd (ensureMicrosandboxRuntimeInstalled k) (\<lambda>_.
          bnd (catching (runMicrosandboxCli k [''pull'', normalized] None) (\<lambda>anonymousError.
                 case auth of
                   None \<Rightarrow> throw anonymousError
                 | Some a \<Rightarrow>
                     bnd (loginRegistry k a) (\<lambda>_.
                     ensuring (runMicrosandboxCli k [''pull'', normalized] None)
                       (best_effort (logoutRegistry k (ra_server a)))))) (\<lambda>_.
          bnd (sk_imageGet k normalized) (\<lambda>pulled. ret (image_fields pulled, False))))))"

definition ensureVolume :: "('v, 'h, 's) sdk \<Rightarrow> string \<Rightarrow> int option \<Rightarrow> ('v, unit) eff" where
  "ensureVolume k name quotaMiB =
     catching (sk_volumeGet k name) (\<lambda>_.
       sk_volumeCreate k name
         (case quotaMiB of None \<Rightarrow> None | Some q \<Rightarrow> if q > 0 then Some q else None))"

definition removeVolume :: "('v, 'h, 's) sdk \<Rightarrow> string \<Rightarrow> ('v, unit) eff" where
  "removeVolume k name = catching (sk_volumeRemove k name) (\<lambda>_. ret ())"

section \<open>Lifecycle\<close>

definition getSandboxHandle :: "('v, 'h, 's) sdk \<Rightarrow> string \<Rightarrow> ('v, 'h option) eff" where
  "getSandboxHandle k name = catching (bnd (sk_get k name) (\<lambda>h. ret (Some h))) (\<lambda>_. ret None)"

definition getStatus :: "('v, 'h, 's) sdk \<Rightarrow> string \<Rightarrow> ('v, string option) eff" where
  "getStatus k name =
     bnd (getSandboxHandle k name) (\<lambda>handle. ret (map_option (sk_status k) handle))"

definition isHealthy :: "config \<Rightarrow> ('v, 'h, 's) sdk \<Rightarrow> int \<Rightarrow> ('v, bool) eff" where
  "isHealthy cfg k p =
     bnd (pure_op (sk_probe k (healthcheckTimeoutMs cfg) p)) (\<lambda>event.
     ret (case event of Connected \<Rightarrow> True | TimedOut \<Rightarrow> False | SocketError \<Rightarrow> False))"

text \<open>
  The loop of \<open>waitForSandboxStop\<close>, with a bound on its turns: one more than the timeout has
  milliseconds, which is enough when every turn takes at least one.
\<close>

fun stop_loop :: "config \<Rightarrow> ('v, 'h, 's) sdk \<Rightarrow> string \<Rightarrow> int \<Rightarrow> nat \<Rightarrow> ('v, unit) eff" where
  "stop_loop cfg k name deadline 0 = throw OutOfFuel"
| "stop_loop cfg k name deadline (Suc n) =
     bnd (getStatus k name) (\<lambda>status.
     if status = None \<or> status = Some [] \<or> status = Some ''stopped'' then ret ()
     else bnd (pure_op (sk_now k)) (\<lambda>now.
       if now \<ge> deadline then
         bnd (getSandboxHandle k name) (\<lambda>handle.
         case handle of None \<Rightarrow> ret () | Some h \<Rightarrow> best_effort (sk_kill k h))
       else bnd (delay k (runtimeReadyPollIntervalMs cfg)) (\<lambda>_.
         bnd (pure_op (sk_now k)) (\<lambda>later.
         if later < deadline then stop_loop cfg k name deadline n else ret ()))))"

definition waitForSandboxStop :: "config \<Rightarrow> ('v, 'h, 's) sdk \<Rightarrow> string \<Rightarrow> ('v, unit) eff" where
  "waitForSandboxStop cfg k name =
     bnd (pure_op (sk_now k)) (\<lambda>now.
     let timeout = runtimeReadyTimeoutMs cfg in
     stop_loop cfg k name (now + timeout) (Suc (nat timeout)))"

definition adapter_start ::
  "('v, 'h, 's) sdk \<Rightarrow> string \<Rightarrow> string list option \<Rightarrow> string option \<Rightarrow> ('v, unit) eff" where
  "adapter_start k name command workingDir =
     bnd (sk_get k name) (\<lambda>handle.
     bnd (sk_startDetached k handle) (\<lambda>sandbox.
     ensuring (launchManagedCommand k sandbox command workingDir None) (sk_detach k sandbox)))"

definition adapter_stop :: "config \<Rightarrow> ('v, 'h, 's) sdk \<Rightarrow> string \<Rightarrow> ('v, unit) eff" where
  "adapter_stop cfg k name =
     bnd (sk_get k name) (\<lambda>handle.
     bnd (sk_stop k handle) (\<lambda>_. waitForSandboxStop cfg k name))"

definition adapter_remove :: "config \<Rightarrow> ('v, 'h, 's) sdk \<Rightarrow> string \<Rightarrow> ('v, unit) eff" where
  "adapter_remove cfg k name =
     bnd (getSandboxHandle k name) (\<lambda>handle.
     case handle of
       None \<Rightarrow> ret ()
     | Some h \<Rightarrow>
         bnd (catching (sk_stop k h) (\<lambda>_. ret ())) (\<lambda>_.
         bnd (waitForSandboxStop cfg k name) (\<lambda>_.
         catching (sk_remove k h) (\<lambda>_. runMicrosandboxCli k [''remove'', ''--force'', name] None))))"

section \<open>Access to a running sandbox\<close>

definition open_sandbox :: "('v, 'h, 's) sdk \<Rightarrow> 'h \<Rightarrow> ('v, 's) eff" where
  "open_sandbox k handle =
     (if sk_status k handle = ''running'' then sk_connect k handle else sk_startDetached k handle)"

definition adapter_exec ::
  "('v, 'h, 's) sdk \<Rightarrow> string \<Rightarrow> string \<Rightarrow> string list \<Rightarrow> ('v, execResult) eff" where
  "adapter_exec k name command args =
     bnd (sk_get k name) (\<lambda>handle.
     bnd (open_sandbox k handle) (\<lambda>sandbox.
     ensuring
       (bnd (sk_exec k sandbox command args) (\<lambda>out.
        ret \<lparr>er_stdout = eo_stdout out, er_stderr = eo_stderr out, er_exitCode = or_else (eo_code out) 0\<rparr>))
       (sk_detach k sandbox)))"

definition adapter_refreshActivity :: "('v, 'h, 's) sdk \<Rightarrow> string \<Rightarrow> ('v, unit) eff" where
  "adapter_refreshActivity k name =
     bnd (sk_get k name) (\<lambda>handle.
     if sk_status k handle \<noteq> ''running'' then throw (JsError (''Sandbox is not running: '' @ name))
     else bnd (sk_connect k handle) (\<lambda>sandbox.
       ensuring (sk_shell k sandbox '':'') (sk_detach k sandbox)))"

definition ensureParentDirs :: "('v, 'h, 's) sdk \<Rightarrow> 's \<Rightarrow> string \<Rightarrow> ('v, unit) eff" where
  "ensureParentDirs k sandbox filePath =
     for_each (\<lambda>dir. best_effort (sk_fsMkdir k sandbox dir)) (parentDirectories filePath)"

definition writeFilesToSandbox :: "('v, 'h, 's) sdk \<Rightarrow> 's \<Rightarrow> runtimeFile list \<Rightarrow> ('v, unit) eff" where
  "writeFilesToSandbox k sandbox files =
     for_each (\<lambda>f. bnd (ensureParentDirs k sandbox (rf_path f)) (\<lambda>_.
                   sk_fsWrite k sandbox (rf_path f) (rf_content f))) files"

definition adapter_writeFiles :: "('v, 'h, 's) sdk \<Rightarrow> string \<Rightarrow> runtimeFile list \<Rightarrow> ('v, unit) eff" where
  "adapter_writeFiles k name files =
     (if files = [] then ret ()
      else bnd (sk_get k name) (\<lambda>handle.
        bnd (open_sandbox k handle) (\<lambda>sandbox.
        ensuring (writeFilesToSandbox k sandbox files) (sk_detach k sandbox))))"

fun read_each :: "('v, 'h, 's) sdk \<Rightarrow> 's \<Rightarrow> string list \<Rightarrow> ('v, runtimeFile list) eff" where
  "read_each k sandbox [] = ret []"
| "read_each k sandbox (p # ps) =
     bnd (sk_fsRead k sandbox p) (\<lambda>content.
     bnd (read_each k sandbox ps) (\<lambda>rest. ret (\<lparr>rf_path = p, rf_content = content\<rparr> # rest)))"

definition adapter_readFiles :: "('v, 'h, 's) sdk \<Rightarrow> string \<Rightarrow> string list \<Rightarrow> ('v, runtimeFile list) eff" where
  "adapter_readFiles k name paths =
     (if paths = [] then ret []
      else bnd (sk_get k name) (\<lambda>handle.
        bnd (open_sandbox k handle) (\<lambda>sandbox.
        ensuring (read_each k sandbox paths) (sk_detach k sandbox))))"

text \<open>The class as an implementation of the adapter interface.\<close>

definition sandboxAdapter :: "config \<Rightarrow> ('v, 'h, 's) sdk \<Rightarrow> 'v adapter" where
  "sandboxAdapter cfg k =
     \<lparr>ad_listCachedImages = listCachedImages k, ad_pullImage = pullImage k, ad_ensureVolume = ensureVolume k,
      ad_removeVolume = removeVolume k, ad_createDetachedRuntime = createDetachedRuntime cfg k,
      ad_start = adapter_start k, ad_stop = adapter_stop cfg k, ad_remove = adapter_remove cfg k,
      ad_exec = adapter_exec k, ad_refreshActivity = adapter_refreshActivity k,
      ad_writeFiles = adapter_writeFiles k, ad_readFiles = adapter_readFiles k,
      ad_getStatus = getStatus k, ad_isHealthy = isHealthy cfg k\<rparr>"

end
