(* ===== verification/Adapter_Facts.thy ===== *)
theory Adapter_Facts
  imports SandboxAdapter Control_Facts
begin

text \<open>
  What the VM backend guarantees: parent directories come before the files in a bootstrap patch,
  a sandbox is detached last on every path, commands are retried within bounds, waiting for a
  stop ends and never throws, pulling an image issues only certain command lines, and the SSH
  daemon is started at creation only.
\<close>

section \<open>Operations of the outside world\<close>

lemma pure_op_run [simp]: "pure_op f v = (Inr (fst (f v)), snd (f v))"
  by (simp add: pure_op_def split_beta)

lemma best_effort_run: "best_effort m v = (Inr (), snd (m v))"
  by (auto simp: best_effort_def catching_run split: prod.splits sum.splits)

lemma delay_run [simp]: "delay k ms v = (Inr (), sk_sleep k ms v)"
  by (simp add: delay_def)

lemma getSandboxHandle_run:
  "getSandboxHandle k name v =
     (Inr (case fst (sk_get k name v) of Inl _ \<Rightarrow> None | Inr h \<Rightarrow> Some h), snd (sk_get k name v))"
  by (auto simp: getSandboxHandle_def catching_run bnd_run split: prod.splits sum.splits)

lemma getStatus_run:
  "getStatus k name v =
     (Inr (case fst (sk_get k name v) of Inl _ \<Rightarrow> None | Inr h \<Rightarrow> Some (sk_status k h)), snd (sk_get k name v))"
  by (simp add: getStatus_def bnd_run getSandboxHandle_run split: sum.split)

section \<open>Directories\<close>

text \<open>The directories on the way to an absolute path, outermost first.\<close>

lemma parentDirectories_abs:
  assumes "\<forall>s \<in> set (segs @ [f]). plain_seg s"
  shows "parentDirectories (abs_path (segs @ [f])) = map (\<lambda>n. abs_path (take n segs)) [1..<Suc (length segs)]"
proof (cases "segs = []")
  case True
  with assms have "path_dirname (path_normalize (abs_path (segs @ [f]))) = ''/''"
    by (simp add: path_normalize_abs path_dirname_root)
  with True show ?thesis unfolding parentDirectories_def by (subst parent_loop.simps) simp
next
  case False
  have "path_normalize (abs_path (segs @ [f])) = abs_path (segs @ [f])"
    by (rule path_normalize_abs [OF assms]) simp
  with path_dirname_abs [OF assms False]
  have "path_dirname (path_normalize (abs_path (segs @ [f]))) = abs_path segs" by simp
  with assms show ?thesis by (simp add: parentDirectories_def parent_loop_abs)
qed

text \<open>
  The steps of a patch are in order when the parent of each directory, and the directory of each
  file, is at the top or was made before.
\<close>

fun in_order :: "string set \<Rightarrow> patchCall list \<Rightarrow> bool" where
  "in_order D [] = True"
| "in_order D (Mkdir d mode # cs) =
     (mode = 493 \<and> (top_dir (path_dirname d) \<or> path_dirname d \<in> D) \<and> in_order (insert d D) cs)"
| "in_order D (Text p c mode rep # cs) =
     (mode = 420 \<and> rep \<and> (top_dir (path_dirname (path_normalize p)) \<or> path_dirname (path_normalize p) \<in> D) \<and>
      in_order D cs)"

lemma in_order_dirs:
  "in_order D (map (\<lambda>d. Mkdir d 493) ds @ cs) \<longleftrightarrow> grounded D ds \<and> in_order (D \<union> set ds) cs"
  by (induction ds arbitrary: D) auto

definition file_steps :: "runtimeFile \<Rightarrow> patchCall list" where
  "file_steps f = map (\<lambda>dir. Mkdir dir 493) (parentDirectories (rf_path f)) @ [Text (rf_path f) (rf_content f) 420 True]"

lemma in_order_files: "in_order D (concat (map file_steps files))"
proof (induction files arbitrary: D)
  case (Cons f files)
  have "grounded D (parentDirectories (rf_path f))"
    by (rule grounded_mono [OF parentDirectories_grounded]) simp
  with Cons.IH parentDirectories_mem [of "rf_path f"] show ?case
    by (auto simp: file_steps_def in_order_dirs)
qed simp

lemma bootstrap_patch_steps:
  "buildBootstrapPatch files workingDir mounts =
   map (\<lambda>dir. Mkdir dir 493) (bootstrapDirectories workingDir (map mi_mountPath mounts)) @ concat (map file_steps files)"
proof -
  have "file_steps = (\<lambda>f. map (\<lambda>dir. Mkdir dir 493) (parentDirectories (rf_path f)) @ [Text (rf_path f) (rf_content f) 420 True])"
    by (simp add: file_steps_def fun_eq_iff)
  then show ?thesis by (simp add: buildBootstrapPatch_def)
qed

lemma bootstrap_patch_in_order: "in_order {} (buildBootstrapPatch files workingDir mounts)"
  unfolding bootstrap_patch_steps in_order_dirs
  using bootstrapDirectories_grounded in_order_files by blast

definition made_before :: "patchCall list \<Rightarrow> string \<Rightarrow> bool" where
  "made_before pre d \<longleftrightarrow> d = ''/'' \<or> d = ''.'' \<or> Mkdir d 493 \<in> set pre"

lemma in_order_split:
  "in_order D (pre @ call # rest) \<Longrightarrow>
   (case call of
      Mkdir d mode \<Rightarrow> mode = 493 \<and> (made_before pre (path_dirname d) \<or> path_dirname d \<in> D)
    | Text p c mode rep \<Rightarrow> mode = 420 \<and> rep \<and>
        (made_before pre (path_dirname (path_normalize p)) \<or> path_dirname (path_normalize p) \<in> D))"
proof (induction pre arbitrary: D)
  case Nil
  then show ?case by (cases call) (auto simp: made_before_def top_dir_def)
next
  case (Cons x pre)
  show ?case
  proof (cases x)
    case (Mkdir d mode)
    with Cons.prems have "mode = 493" "in_order (insert d D) (pre @ call # rest)" by auto
    from Cons.IH [OF this(2)] this(1) Mkdir show ?thesis by (cases call) (auto simp: made_before_def)
  next
    case (Text p c mode rep)
    with Cons.prems have "in_order D (pre @ call # rest)" by auto
    from Cons.IH [OF this] show ?thesis by (cases call) (auto simp: made_before_def)
  qed
qed

fun file_writes :: "patchCall list \<Rightarrow> (string \<times> string) list" where
  "file_writes [] = []"
| "file_writes (Mkdir d mode # cs) = file_writes cs"
| "file_writes (Text p c mode rep # cs) = (p, c) # file_writes cs"

lemma file_writes_append [simp]: "file_writes (xs @ ys) = file_writes xs @ file_writes ys"
  by (induction xs rule: file_writes.induct) simp_all

lemma file_writes_dirs [simp]: "file_writes (map (\<lambda>d. Mkdir d m) ds) = []"
  by (induction ds) simp_all

lemma file_writes_patch:
  "file_writes (buildBootstrapPatch files workingDir mounts) = map (\<lambda>f. (rf_path f, rf_content f)) files"
proof -
  have "file_writes (concat (map file_steps files)) = map (\<lambda>f. (rf_path f, rf_content f)) files"
    by (induction files) (simp_all add: file_steps_def)
  then show ?thesis by (simp add: bootstrap_patch_steps)
qed

section \<open>Retries\<close>

text \<open>
  What a call of \<open>execWithTransientRetry\<close> may do, attempt by attempt: \<open>ws\<close> are the states in which
  the attempts start.
\<close>

definition retry_trace ::
  "('v, 'h, 's) sdk \<Rightarrow> 's \<Rightarrow> string \<Rightarrow> string list \<Rightarrow> 'v list \<Rightarrow> bool" where
  "retry_trace k s c args ws \<longleftrightarrow>
     (\<forall>i < length ws - 1. \<exists>e w. execWithTimeout k s c args 5000 (ws ! i) = (Inl e, w) \<and>
        isRetryableExecError e \<and> ws ! Suc i = sk_sleep k (250 * (int i + 1)) w)"

lemma retry_trace_cases:
  fixes k :: "('v, 'h, 's) sdk"
  assumes run: "execWithTransientRetry k s c args v = (q, t)"
  shows "\<exists>ws. ws \<noteq> [] \<and> length ws \<le> 3 \<and> hd ws = v \<and> retry_trace k s c args ws \<and>
    execWithTimeout k s c args 5000 (last ws) = (q, t) \<and>
    (\<forall>e. q = Inl e \<and> isRetryableExecError e \<longrightarrow> length ws = 3)"
proof -
  let ?x = "execWithTimeout k s c args 5000"
  have run3: "retry_from k s c args 3 (Suc n) w = ?x w" for n w
    by (auto simp: catching_run split: prod.splits sum.splits)
  have step: "retry_from k s c args m (Suc n) w =
      (case ?x w of (Inl e, u) \<Rightarrow>
          if isRetryableExecError e then retry_from k s c args (m + 1) n (sk_sleep k (250 * m) u) else (Inl e, u)
        | (Inr x, u) \<Rightarrow> (Inr x, u))" if "m \<noteq> 3" for m n w
    using that by (auto simp: catching_run bnd_run split: prod.splits sum.splits)
  have run1: "retry_from k s c args 1 (Suc (Suc (Suc 0))) v = (q, t)"
    using run by (simp only: execWithTransientRetry_def numeral_3_eq_3)
  note [simp del] = retry_from.simps
  obtain q1 t1 where x1: "?x v = (q1, t1)" by fastforce
  show ?thesis
  proof (cases "\<exists>e. q1 = Inl e \<and> isRetryableExecError e")
    case False
    with run1 x1 have "q = q1" "t = t1" by (auto simp: step split: sum.splits)
    with x1 False show ?thesis by (intro exI [of _ "[v]"]) (auto simp: retry_trace_def)
  next
    case True
    then obtain e1 where e1: "q1 = Inl e1" "isRetryableExecError e1" by blast
    define v2 where "v2 = sk_sleep k 250 t1"
    obtain q2 t2 where x2: "?x v2 = (q2, t2)" by fastforce
    have run2: "retry_from k s c args 2 (Suc (Suc 0)) v2 = (q, t)"
      using run1 x1 e1 by (simp add: step v2_def)
    show ?thesis
    proof (cases "\<exists>e. q2 = Inl e \<and> isRetryableExecError e")
      case False
      with run2 x2 have "q = q2" "t = t2" by (auto simp: step split: sum.splits)
      with x1 e1 x2 False show ?thesis
        by (intro exI [of _ "[v, v2]"]) (auto simp: retry_trace_def v2_def)
    next
      case True
      then obtain e2 where e2: "q2 = Inl e2" "isRetryableExecError e2" by blast
      define v3 where "v3 = sk_sleep k 500 t2"
      have "?x v3 = (q, t)" using run2 x2 e2 run3 [of 0 v3] by (simp add: step v3_def)
      with x1 e1 x2 e2 show ?thesis
        by (intro exI [of _ "[v, v2, v3]"]) (auto simp: retry_trace_def v2_def v3_def less_Suc_eq numeral_2_eq_2)
    qed
  qed
qed

section \<open>Detaching\<close>

lemma ensuring_last:
  assumes "ensuring m f v = (q, t)"
  obtains w where "w = snd (m v)" and "t = snd (f w)" and "\<And>u. f w = (Inr (), u) \<Longrightarrow> q = fst (m v)"
  using assms by (auto simp: ensuring_run split: prod.splits sum.splits)

lemma detachBestEffort_run:
  "detachBestEffort k s w = (Inr (), snd (sk_detachWithin k 2000 s w))"
  by (auto simp: detachBestEffort_def catching_run bnd_run split: prod.splits sum.splits option.splits)

section \<open>Waiting for a stop\<close>

text \<open>What the waiting loops rely on: clock, timers and queries do not go back in time.\<close>

locale clocked_sdk =
  fixes k :: "('v, 'h, 's) sdk" and time :: "'v \<Rightarrow> int"
  assumes sdk_now: "sk_now k v = (n, w) \<Longrightarrow> n = time v \<and> time v \<le> time w"
    and sdk_sleep: "time v + max 1 ms \<le> time (sk_sleep k ms v)"
    and sdk_get: "sk_get k name v = (r, w) \<Longrightarrow> time v \<le> time w"
    and sdk_probe: "sk_probe k tmo p v = (ev, w) \<Longrightarrow> time v \<le> time w"
begin

lemma now_time: "fst (sk_now k v) = time v" "time v \<le> time (snd (sk_now k v))"
  using sdk_now [of v "fst (sk_now k v)" "snd (sk_now k v)"] by simp_all

lemma get_time: "time v \<le> time (snd (sk_get k name v))"
  using sdk_get [of name v "fst (sk_get k name v)"] by simp

lemma stop_loop_ends:
  "deadline < time v + int n \<Longrightarrow> 0 < n \<Longrightarrow> fst (stop_loop cfg k name deadline n v) = Inr ()"
proof (induction n arbitrary: v)
  case (Suc n)
  define w where "w = snd (sk_get k name v)"
  define w' where "w' = snd (sk_now k w)"
  define u where "u = sk_sleep k (runtimeReadyPollIntervalMs cfg) w'"
  define u' where "u' = snd (sk_now k u)"
  have "time v \<le> time w" "time w \<le> time w'" "time w' + 1 \<le> time u" "time u \<le> time u'"
    using get_time [of v name] now_time(2) [of w] now_time(2) [of u]
      sdk_sleep [of w' "runtimeReadyPollIntervalMs cfg"]
    by (simp_all add: w_def w'_def u_def u'_def)
  then have "0 < n \<Longrightarrow> fst (stop_loop cfg k name deadline n u') = Inr ()"
    using Suc.prems by (intro Suc.IH) auto
  moreover have "0 < n" if "fst (sk_now k u) < deadline"
    using that Suc.prems \<open>time v \<le> time w\<close> \<open>time w \<le> time w'\<close> \<open>time w' + 1 \<le> time u\<close> now_time(1) [of u]
    by (cases n) auto
  ultimately show ?case
    by (auto simp: bnd_run getStatus_run getSandboxHandle_run best_effort_run w_def w'_def u_def u'_def
        split: sum.splits option.splits)
qed simp

lemma waitForSandboxStop_ok: "fst (waitForSandboxStop cfg k name v) = Inr ()"
proof -
  have "fst (stop_loop cfg k name (time v + tmo) (Suc (nat tmo)) (snd (sk_now k v))) = Inr ()" for tmo
    by (rule stop_loop_ends) (use now_time(2) [of v] in auto)
  then show ?thesis by (simp add: waitForSandboxStop_def bnd_run now_time Let_def del: stop_loop.simps)
qed

end

text \<open>With queries that take no time, the branch that kills the sandbox is never taken.\<close>

locale instant_sdk = clocked_sdk +
  assumes instant_get: "time (snd (sk_get k name v)) = time v"
    and instant_now: "time (snd (sk_now k v)) = time v"
begin

lemma stop_loop_no_kill:
  "time v < deadline \<Longrightarrow> stop_loop cfg (k\<lparr>sk_kill := f\<rparr>) name deadline n v = stop_loop cfg k name deadline n v"
proof (induction n arbitrary: v)
  case (Suc n)
  define w where "w = snd (sk_now k (snd (sk_get k name v)))"
  define u where "u = sk_sleep k (runtimeReadyPollIntervalMs cfg) w"
  have status: "getStatus (k\<lparr>sk_kill := f\<rparr>) name v = getStatus k name v"
    by (cases "fst (sk_get k name v)") (simp_all add: getStatus_run)
  have "fst (sk_now k (snd (sk_get k name v))) < deadline"
    using Suc.prems by (simp add: now_time(1) instant_get)
  moreover have "stop_loop cfg (k\<lparr>sk_kill := f\<rparr>) name deadline n (snd (sk_now k u)) =
      stop_loop cfg k name deadline n (snd (sk_now k u))" if "fst (sk_now k u) < deadline"
    using that by (intro Suc.IH) (simp add: now_time(1) instant_now)
  ultimately show ?case
    by (simp add: bnd_run status) (simp add: bnd_run getStatus_run delay_def w_def u_def)
qed simp

lemma wait_no_kill:
  assumes "0 < runtimeReadyTimeoutMs cfg"
  shows "waitForSandboxStop cfg (k\<lparr>sk_kill := f\<rparr>) name v = waitForSandboxStop cfg k name v"
proof -
  have "stop_loop cfg (k\<lparr>sk_kill := f\<rparr>) name (time v + runtimeReadyTimeoutMs cfg) n (snd (sk_now k v)) =
      stop_loop cfg k name (time v + runtimeReadyTimeoutMs cfg) n (snd (sk_now k v))" for n
    by (rule stop_loop_no_kill) (use assms in \<open>simp add: instant_now\<close>)
  then show ?thesis by (simp add: waitForSandboxStop_def bnd_run now_time(1) Let_def del: stop_loop.simps)
qed

end

section \<open>The backend behind the control service\<close>

text \<open>An environment of the services whose backend, clock and timers are those of an SDK.\<close>

locale backed = clocked_sdk k time for k :: "('v, 'h, 's) sdk" and time +
  fixes io :: "'v io" and cfg :: config
  assumes backend: "io_adapter io = sandboxAdapter cfg k"
    and backend_now: "io_now io = sk_now k" and backend_sleep: "io_sleep io = sk_sleep k"
begin

lemma health_run: "ad_isHealthy (io_adapter io) p v =
    (Inr (fst (sk_probe k (healthcheckTimeoutMs cfg) p v) = Connected), snd (sk_probe k (healthcheckTimeoutMs cfg) p v))"
  by (simp add: backend sandboxAdapter_def isHealthy_def bnd_run split: socketEvent.split)

lemma backed_clocked: "clocked io time"
proof (unfold_locales, goal_cases)
  case (1 v n w)
  then show ?case using sdk_now [of v n w] by (simp add: backend_now)
next
  case (2 v ms)
  then show ?case using sdk_sleep by (simp add: backend_sleep)
next
  case (3 p v r w)
  then show ?case
    using sdk_probe [of "healthcheckTimeoutMs cfg" p v "fst (sk_probe k (healthcheckTimeoutMs cfg) p v)" w]
    by (auto simp: health_run)
next
  case (4 p v w)
  then show ?case by (simp add: health_run)
qed

end

sublocale backed \<subseteq> clocked io time
  by (rule backed_clocked)

section \<open>The command line\<close>

definition pull_line :: "string \<Rightarrow> string list" where
  "pull_line n = [''pull'', n]"

definition login_line :: "registryAuth \<Rightarrow> string list" where
  "login_line a = [''registry'', ''login'', ''--username'', ra_username a, ''--password-stdin'', ra_server a]"

definition logout_line :: "registryAuth \<Rightarrow> string list" where
  "logout_line a = [''registry'', ''logout'', ra_server a]"

text \<open>The states a pull may leave behind, by the command lines it has run.\<close>

definition pulled :: "string list list \<Rightarrow> string \<Rightarrow> registryAuth option \<Rightarrow> bool \<Rightarrow> string list list \<Rightarrow> bool" where
  "pulled L n auth thrown M \<longleftrightarrow>
     M = L \<or> M = L @ [pull_line n] \<or>
     (\<exists>a. auth = Some a \<and> (M = L @ [pull_line n, login_line a] \<and> thrown \<or>
        M = L @ [pull_line n, login_line a, pull_line n, logout_line a]))"

text \<open>An observer of the command lines that are run.\<close>

locale cli_log =
  fixes k :: "('v, 'h, 's) sdk" and log :: "'v \<Rightarrow> string list list"
  assumes msb_log: "log (snd (sk_msb k args stdin v)) = log v @ [args]"
    and image_log: "log (snd (sk_imageGet k n v)) = log v"
    and installed_log: "log (snd (sk_isInstalled k v)) = log v"
begin

lemma cli_run: "log (snd (runMicrosandboxCli k args stdin v)) = log v @ [args]"
  by (auto simp: runMicrosandboxCli_def bnd_run msb_log split: childEnd.split)

lemma installed_run: "log (snd (ensureMicrosandboxRuntimeInstalled k v)) = log v"
  by (simp add: ensureMicrosandboxRuntimeInstalled_def bnd_run installed_log)

lemma login_trace:
  "bnd (loginRegistry k a) (\<lambda>_. ensuring (runMicrosandboxCli k (pull_line n) None)
      (best_effort (logoutRegistry k (ra_server a)))) v = (q, t) \<Longrightarrow>
   log t = log v @ [login_line a] \<and> (\<exists>e. q = Inl e) \<or>
   log t = log v @ [login_line a, pull_line n, logout_line a]"
  unfolding loginRegistry_def logoutRegistry_def login_line_def [symmetric] logout_line_def [symmetric]
  using cli_run [of "login_line a" "Some (ra_password a)" v]
    cli_run [of "pull_line n" None "snd (runMicrosandboxCli k (login_line a) (Some (ra_password a)) v)"]
    cli_run [of "logout_line a" None
      "snd (runMicrosandboxCli k (pull_line n) None (snd (runMicrosandboxCli k (login_line a) (Some (ra_password a)) v)))"]
  by (auto simp: bnd_run ensuring_run best_effort_run split: prod.splits sum.splits)

lemma post_log:
  "post (\<lambda>w. log w = L) (runMicrosandboxCli k args stdin) (\<lambda>_ w. log w = L @ [args]) (\<lambda>_ w. log w = L @ [args])"
  "post (\<lambda>w. P (log w)) (sk_imageGet k n) (\<lambda>_ w. P (log w)) (\<lambda>_ w. P (log w))"
  "post (\<lambda>w. log w = L) (ensureMicrosandboxRuntimeInstalled k) (\<lambda>_ w. log w = L) (\<lambda>_ w. log w = L)"
  by (rule postI; use cli_run image_log installed_run in \<open>metis snd_conv\<close>)+

lemma post_login:
  "post (\<lambda>w. log w = L @ [pull_line n])
     (bnd (loginRegistry k a) (\<lambda>_. ensuring (runMicrosandboxCli k (pull_line n) None)
        (best_effort (logoutRegistry k (ra_server a)))))
     (\<lambda>_ w. pulled L n (Some a) False (log w)) (\<lambda>_ w. pulled L n (Some a) True (log w))"
  by (rule postI) (auto simp: pulled_def dest!: login_trace)

lemma post_pull:
  "post (\<lambda>w. log w = L) (pullImage k reference auth)
     (\<lambda>r w. pulled L (trim reference) auth False (log w) \<and> (snd r \<longrightarrow> log w = L))
     (\<lambda>_ w. pulled L (trim reference) auth True (log w))"
proof -
  define n where "n = trim reference"
  have weaken: "pulled L n auth False M \<Longrightarrow> pulled L n auth True M" for M by (auto simp: pulled_def)
  have again: "post (\<lambda>w. log w = L @ [pull_line n])
      (case auth of None \<Rightarrow> throw e
       | Some a \<Rightarrow> bnd (loginRegistry k a) (\<lambda>_. ensuring (runMicrosandboxCli k (pull_line n) None)
           (best_effort (logoutRegistry k (ra_server a)))))
      (\<lambda>_ w. pulled L n auth False (log w)) (\<lambda>_ w. pulled L n auth True (log w))" for e
    using post_login [of L n] by (cases auth) (auto intro: post_throw simp: pulled_def [of L n None])
  have first: "post (\<lambda>w. log w = L) (runMicrosandboxCli k (pull_line n) None)
      (\<lambda>_ w. pulled L n auth False (log w)) (\<lambda>_ w. log w = L @ [pull_line n])"
    by (rule post_weaken [OF post_log(1)]) (auto simp: pulled_def)
  have fetch: "post (\<lambda>w. pulled L n auth False (log w))
      (bnd (sk_imageGet k n) (\<lambda>pulled. ret (image_fields pulled, False)))
      (\<lambda>r w. pulled L n auth False (log w) \<and> (snd r \<longrightarrow> log w = L)) (\<lambda>_ w. pulled L n auth True (log w))"
    by (rule post_bnd [where R = "\<lambda>_ w. pulled L n auth False (log w)"],
        rule post_weaken [OF post_log(2) [of "pulled L n auth False"]]) (auto intro: post_ret weaken)
  have slow: "post (\<lambda>w. log w = L)
      (bnd (ensureMicrosandboxRuntimeInstalled k) (\<lambda>_.
       bnd (catching (runMicrosandboxCli k (pull_line n) None) (\<lambda>anonymousError.
          case auth of None \<Rightarrow> throw anonymousError
          | Some a \<Rightarrow> bnd (loginRegistry k a) (\<lambda>_. ensuring (runMicrosandboxCli k (pull_line n) None)
              (best_effort (logoutRegistry k (ra_server a)))))) (\<lambda>_.
       bnd (sk_imageGet k n) (\<lambda>pulled. ret (image_fields pulled, False)))))
      (\<lambda>r w. pulled L n auth False (log w) \<and> (snd r \<longrightarrow> log w = L)) (\<lambda>_ w. pulled L n auth True (log w))"
    by (rule post_bnd [OF post_weaken [OF post_log(3)] post_bnd [OF post_catching [OF first again] fetch]])
      (auto simp: pulled_def)
  have cached: "post (\<lambda>w. log w = L) (bnd (sk_imageGet k n) (\<lambda>cached. ret (image_fields cached, True)))
      (\<lambda>r w. pulled L n auth False (log w) \<and> (snd r \<longrightarrow> log w = L)) (\<lambda>_ w. log w = L)"
    by (rule post_bnd [OF post_log(2) [of "\<lambda>M. M = L"]]) (auto intro: post_ret simp: pulled_def)
  show ?thesis
    unfolding pullImage_def Let_def n_def [symmetric] pull_line_def [symmetric]
    by (rule post_if [OF post_throw post_catching [OF cached slow]]) (simp add: pulled_def)
qed

end

section \<open>Commands run in sandboxes\<close>

text \<open>An observer of the commands that are run in sandboxes.\<close>

locale exec_log =
  fixes k :: "('v, 'h, 's) sdk" and log :: "'v \<Rightarrow> (string \<times> string list) list"
  assumes exec_logged: "log (snd (sk_execWithin k ms s c args v)) = log v @ [(c, args)]"
    and plain_exec_logged: "log (snd (sk_exec k s c args v)) = log v @ [(c, args)]"
    and shell_logged: "log (snd (sk_shell k s c v)) = log v @ [(''sh'', [c])]"
    and sleep_silent: "log (sk_sleep k ms v) = log v"
    and get_silent: "log (snd (sk_get k name v)) = log v"
    and start_silent: "log (snd (sk_startDetached k h v)) = log v"
    and create_silent: "log (snd (sk_create k name calls v)) = log v"
    and detach_silent: "log (snd (sk_detach k s v)) = log v"
    and detachWithin_silent: "log (snd (sk_detachWithin k ms s v)) = log v"
    and write_silent: "log (snd (sk_fsWrite k s p content v)) = log v"
    and mkdir_silent: "log (snd (sk_fsMkdir k s p v)) = log v"
    and exists_silent: "log (snd (sk_existsSync k p v)) = log v"
    and read_silent: "log (snd (sk_readFileSync k p v)) = log v"
begin

lemma execWithTimeout_log: "log (snd (execWithTimeout k s c args ms v)) = log v @ [(c, args)]"
  using exec_logged [of ms s c args v]
  by (auto simp: execWithTimeout_def bnd_run split: prod.splits sum.splits option.splits)

lemma retry_log:
  "\<exists>n \<le> m. (0 < m \<longrightarrow> 0 < n) \<and> log (snd (retry_from k s c args a m v)) = log v @ replicate n (c, args)"
proof (induction m arbitrary: a v)
  case (Suc m)
  obtain q w where first: "execWithTimeout k s c args 5000 v = (q, w)" by fastforce
  have w: "log w = log v @ [(c, args)]" using execWithTimeout_log [of s c args 5000 v] first by simp
  show ?case
  proof (cases "\<exists>e. q = Inl e \<and> isRetryableExecError e \<and> a \<noteq> 3")
    case False
    then have "snd (retry_from k s c args a (Suc m) v) = w"
      using first by (auto simp: catching_run split: sum.splits)
    with w show ?thesis by (intro exI [of _ 1]) simp
  next
    case True
    then have "retry_from k s c args a (Suc m) v = retry_from k s c args (a + 1) m (sk_sleep k (250 * a) w)"
      using first by (auto simp: catching_run bnd_run)
    with Suc.IH [of "a + 1" "sk_sleep k (250 * a) w"] obtain n where "n \<le> m"
      "log (snd (retry_from k s c args a (Suc m) v)) = log v @ (c, args) # replicate n (c, args)"
      by (auto simp: sleep_silent w)
    then show ?thesis by (intro exI [of _ "Suc n"]) simp
  qed
qed simp

lemma launch_log:
  "\<exists>n \<le> 3. ((command = None \<or> command = Some []) \<and> ssh \<noteq> Some True \<longleftrightarrow> n = 0) \<and>
     log (snd (launchManagedCommand k s command workingDir ssh v)) =
       log v @ replicate n (''sh'', [''-lc'', buildLaunchScript command workingDir ssh])"
proof (cases "(command = None \<or> command = Some []) \<and> ssh \<noteq> Some True")
  case True
  then show ?thesis by (intro exI [of _ 0]) (simp add: launchManagedCommand_def)
next
  case False
  let ?x = "execWithTransientRetry k s ''sh'' [''-lc'', buildLaunchScript command workingDir ssh]"
  have "snd (launchManagedCommand k s command workingDir ssh v) = snd (?x v)"
    using False by (auto simp: launchManagedCommand_def bnd_run split: prod.splits sum.splits)
  moreover obtain n where "n \<le> 3" "0 < n" "log (snd (?x v)) =
      log v @ replicate n (''sh'', [''-lc'', buildLaunchScript command workingDir ssh])"
    using retry_log [of 3 s "''sh''" "[''-lc'', buildLaunchScript command workingDir ssh]" 1 v]
    by (auto simp: execWithTransientRetry_def)
  ultimately show ?thesis using False by (intro exI [of _ n]) auto
qed

lemma ensuring_log:
  assumes "\<And>w. log (snd (f w)) = log w"
  shows "log (snd (ensuring m f v)) = log (snd (m v))"
proof -
  obtain q w where m: "m v = (q, w)" by fastforce
  obtain q' u where f: "f w = (q', u)" by fastforce
  from assms [of w] m f show ?thesis by (auto simp: ensuring_run split: sum.splits)
qed

lemma start_log:
  "\<exists>n \<le> 3. (command = None \<or> command = Some [] \<longrightarrow> n = 0) \<and>
     log (snd (adapter_start k name command workingDir v)) =
       log v @ replicate n (''sh'', [''-lc'', buildLaunchScript command workingDir None])"
proof -
  obtain q w where get: "sk_get k name v = (q, w)" by fastforce
  have w: "log w = log v" using get_silent [of name v] get by simp
  show ?thesis
  proof (cases q)
    case (Inl e)
    with get w show ?thesis by (intro exI [of _ 0]) (simp add: adapter_start_def bnd_run)
  next
    case (Inr h)
    obtain q' u where start: "sk_startDetached k h w = (q', u)" by fastforce
    have u: "log u = log v" using start_silent [of h w] start w by simp
    show ?thesis
    proof (cases q')
      case (Inl e)
      with get Inr start u show ?thesis by (intro exI [of _ 0]) (simp add: adapter_start_def bnd_run)
    next
      case (Inr s)
      let ?run = "launchManagedCommand k s command workingDir None"
      have "log (snd (adapter_start k name command workingDir v)) = log (snd (?run u))"
        using get \<open>q = Inr h\<close> start Inr ensuring_log [where f = "sk_detach k s" and m = ?run and v = u, OF detach_silent]
        by (simp add: adapter_start_def bnd_run)
      with launch_log [of command None s workingDir u] u show ?thesis by auto
    qed
  qed
qed

text \<open>The commands before the launch of a new sandbox only add to the log.\<close>

lemma keeps_silent: "(\<And>v. log (snd (m v)) = log v) \<Longrightarrow> keeps (\<lambda>w. prefix L (log w)) m"
  by (rule keepsI) (metis snd_conv)

lemma keeps_prefix_ops [keeps_intros]:
  "keeps (\<lambda>w. prefix L (log w)) (sk_fsWrite k s p content)" "keeps (\<lambda>w. prefix L (log w)) (sk_fsMkdir k s p)"
  "keeps (\<lambda>w. prefix L (log w)) (pure_op (sk_existsSync k p))" "keeps (\<lambda>w. prefix L (log w)) (sk_readFileSync k p)"
  by (rule keeps_silent, simp add: write_silent mkdir_silent exists_silent read_silent)+

lemma keeps_prefix_exec [keeps_intros]:
  "keeps (\<lambda>w. prefix L (log w)) (execWithTransientRetry k s c args)"
proof (rule keepsI)
  fix v q t assume "prefix L (log v)" and "execWithTransientRetry k s c args v = (q, t)"
  with retry_log [of 3 s c args 1 v] show "prefix L (log t)"
    by (auto simp: execWithTransientRetry_def)
qed

lemma keeps_prefix_inject: "keeps (\<lambda>w. prefix L (log w)) (injectSshBinary cfg k s)"
  unfolding injectSshBinary_def readBinary_def readGatewayPublicKey_def best_effort_def Let_def
  by (intro keeps_intros)

lemma create_log:
  assumes "sk_create k (ci_sandboxName input) (builder_calls input) v = (Inr s, w)" and "ci_ssh input = Some True"
  shows "\<exists>mid. log (snd (createDetachedRuntime cfg k input v)) =
    log v @ mid @ [(''sh'', [''-lc'', buildLaunchScript (ci_command input) (ci_workingDir input) (Some True)])]"
proof -
  let ?inject = "catching (injectSshBinary cfg k s) (\<lambda>_. ret ())"
  let ?launch = "launchManagedCommand k s (ci_command input) (ci_workingDir input) (Some True)"
  obtain q u where "injectSshBinary cfg k s w = (q, u)" by fastforce
  then have u: "?inject w = (Inr (), u)" by (cases q) (simp_all add: catching_run)
  have w: "log w = log v" using create_silent [of "ci_sandboxName input" "builder_calls input" v] assms(1) by simp
  have "keeps (\<lambda>x. prefix (log v) (log x)) ?inject" by (intro keeps_intros keeps_prefix_inject)
  from keepsD [OF this _ u] w have "prefix (log v) (log u)" by simp
  then obtain mid where mid: "log u = log v @ mid" by (auto simp: prefix_def)
  obtain n where n: "n \<noteq> 0" "log (snd (?launch u)) =
      log u @ replicate n (''sh'', [''-lc'', buildLaunchScript (ci_command input) (ci_workingDir input) (Some True)])"
    using launch_log [of "ci_command input" "Some True" s "ci_workingDir input" u] by auto
  have "log (snd (detachBestEffort k s x)) = log x" for x
    by (simp add: detachBestEffort_run detachWithin_silent)
  note detached = ensuring_log [OF this]
  have "log (snd (createDetachedRuntime cfg k input v)) = log (snd (?launch u))"
    using assms u by (simp add: createDetachedRuntime_def detached bnd_run)
  moreover obtain j where "n = Suc j" using n(1) by (cases n) auto
  ultimately show ?thesis
    using n(2) mid
    by (intro exI [of _ "mid @ replicate j
      (''sh'', [''-lc'', buildLaunchScript (ci_command input) (ci_workingDir input) (Some True)])"])
      (simp add: replicate_append_same)
qed

end

section \<open>A small SDK\<close>

text \<open>
  A backend for the witnesses: VMs with a status, images that can only be pulled after a login,
  a clock, and the lists of the command lines and of the commands in sandboxes that were run. The VM \<open>stuck\<close> ignores a stop. A command takes
  five seconds before time 5000 and so runs into the timeout. It models no code of the repository.
\<close>

record backend =
  be_time :: int
  be_images :: "string list"
  be_vms :: "(string \<times> string) list"
  be_cli :: "string list list"
  be_execs :: "(string \<times> string list) list"

definition set_status :: "string \<Rightarrow> string \<Rightarrow> backend \<Rightarrow> backend" where
  "set_status n st w = w\<lparr>be_vms := (n, st) # filter (\<lambda>(m, _). m \<noteq> n) (be_vms w)\<rparr>"

definition demo_image :: "string \<Rightarrow> imageInfo" where
  "demo_image n = \<lparr>im_reference = n, im_architecture = None, im_os = None, im_sizeBytes = None, im_layerCount = 1\<rparr>"

definition demo_msb :: "string list \<Rightarrow> string option \<Rightarrow> backend \<Rightarrow> childEnd \<times> backend" where
  "demo_msb args stdin w =
     (let w' = w\<lparr>be_cli := be_cli w @ [args]\<rparr> in
      if hd args = ''pull'' then
        (if list_ex (\<lambda>a. take 2 a = [''registry'', ''login'']) (be_cli w)
         then (Closed (Some 0) [], w'\<lparr>be_images := args ! 1 # be_images w\<rparr>)
         else (Closed (Some 1) ''denied'', w'))
      else (Closed (Some 0) [], w'))"

definition demo_sdk :: "(backend, string \<times> string, string) sdk" where
  "demo_sdk =
     \<lparr>sk_imageList = gets (\<lambda>w. map demo_image (be_images w)),
      sk_imageGet = (\<lambda>n w. (if List.member (be_images w) n then Inr (demo_image n)
         else Inl (JsError ''image not found''), w)),
      sk_volumeGet = (\<lambda>_. ret ()), sk_volumeCreate = (\<lambda>_ _. ret ()), sk_volumeRemove = (\<lambda>_. ret ()),
      sk_isInstalled = (\<lambda>w. (True, w)), sk_msb = demo_msb,
      sk_get = (\<lambda>n w. (case map_of (be_vms w) n of None \<Rightarrow> Inl (JsError ''no such sandbox'')
         | Some st \<Rightarrow> Inr (n, st), w)),
      sk_status = snd,
      sk_startDetached = (\<lambda>(n, _). bnd (modify (set_status n ''running'')) (\<lambda>_. ret n)),
      sk_connect = (\<lambda>(n, _). ret n),
      sk_stop = (\<lambda>(n, _). modify (\<lambda>w. if n = ''stuck'' then w else set_status n ''stopped'' w)),
      sk_remove = (\<lambda>(n, _). modify (\<lambda>w. w\<lparr>be_vms := filter (\<lambda>(m, _). m \<noteq> n) (be_vms w)\<rparr>)),
      sk_kill = (\<lambda>(n, _). modify (set_status n ''stopped'')),
      sk_create = (\<lambda>n _. bnd (modify (set_status n ''running'')) (\<lambda>_. ret n)),
      sk_exec = (\<lambda>_ c args v. (Inr \<lparr>eo_stdout = c, eo_stderr = [], eo_code = Some 0\<rparr>,
         v\<lparr>be_execs := be_execs v @ [(c, args)]\<rparr>)),
      sk_execWithin = (\<lambda>ms _ c args v. let w = v\<lparr>be_execs := be_execs v @ [(c, args)]\<rparr> in
         if be_time w < 5000 then (Inr None, w\<lparr>be_time := be_time w + ms\<rparr>)
         else (Inr (Some \<lparr>eo_stdout = c, eo_stderr = [], eo_code = Some 0\<rparr>), w)),
      sk_shell = (\<lambda>_ c. modify (\<lambda>v. v\<lparr>be_execs := be_execs v @ [(''sh'', [c])]\<rparr>)), sk_detach = (\<lambda>_. ret ()), sk_detachWithin = (\<lambda>_ _. ret None),
      sk_fsWrite = (\<lambda>_ _ _. ret ()), sk_fsRead = (\<lambda>_ _. ret []), sk_fsMkdir = (\<lambda>_ _. ret ()),
      sk_probe = (\<lambda>_ p w. (if p = 80 then Connected else TimedOut, w)),
      sk_existsSync = (\<lambda>_ w. (False, w)), sk_readFileSync = (\<lambda>_. throw (JsError ''ENOENT'')), sk_arch = ''x64'',
      sk_now = (\<lambda>w. (be_time w, w)), sk_sleep = (\<lambda>ms w. w\<lparr>be_time := be_time w + max 1 ms\<rparr>)\<rparr>"

definition backend0 :: backend where
  "backend0 = \<lparr>be_time = 0, be_images = [], be_vms = [(''stuck'', ''running'')], be_cli = [], be_execs = []\<rparr>"

lemma demo_sdk_clocked: "clocked_sdk demo_sdk be_time"
  by unfold_locales (auto simp: demo_sdk_def)

interpretation demo_backend: clocked_sdk demo_sdk be_time
  by (rule demo_sdk_clocked)

lemma demo_sdk_instant: "instant_sdk demo_sdk be_time"
  by unfold_locales (simp_all add: demo_sdk_def)

interpretation demo_instant: instant_sdk demo_sdk be_time
  by (rule demo_sdk_instant)

lemma demo_sdk_cli: "cli_log demo_sdk be_cli"
  by unfold_locales (simp_all add: demo_sdk_def demo_msb_def Let_def)

interpretation demo_cli: cli_log demo_sdk be_cli
  by (rule demo_sdk_cli)

lemma demo_sdk_execs: "exec_log demo_sdk be_execs"
  by unfold_locales (auto simp: demo_sdk_def set_status_def bnd_run Let_def split: option.split)

interpretation demo_execs: exec_log demo_sdk be_execs
  by (rule demo_sdk_execs)

definition backed_io :: "config \<Rightarrow> backend io" where
  "backed_io cfg =
     mem_io cfg (sandboxAdapter cfg demo_sdk) (sk_now demo_sdk) (sk_sleep demo_sdk)
       (\<lambda>n w. (''h'', w)) (\<lambda>n w. (''b'', w)) (\<lambda>s. s)"

lemma demo_sdk_backed: "backed demo_sdk be_time (backed_io cfg) cfg"
  by unfold_locales (simp_all add: backed_io_def)

interpretation demo_backed: backed demo_sdk be_time "backed_io cfg" cfg
  by (rule demo_sdk_backed)

definition plain_input :: createRuntimeInput where
  "plain_input =
     \<lparr>ci_sandboxName = ''box'', ci_image = ''img'', ci_registryAuth = None, ci_command = Some [''serve''],
      ci_workingDir = None, ci_ports = [], ci_mounts = [], ci_cpu = 1, ci_memoryMiB = 128, ci_diskGiB = 1,
      ci_env = [], ci_secrets = [], ci_files = [], ci_autoStopMinutes = None, ci_ssh = Some True\<rparr>"

definition backed_sys :: "backend sys" where
  "backed_sys = \<lparr>hosts = [], runtimes = [], leases = [], volumes = [], previews = [], revoked = [],
     sessions = [], ext = backend0\<rparr>"

section \<open>Properties\<close>

text \<open>C17: in a bootstrap patch nothing is made before its directory: the parent of every directory that
  is made, and the directory of every file that is written, is the root, the start directory, or
  was made by an earlier step. Directories have mode 755 and files 644, with replacement. The
  files written are exactly the requested ones, in their order, and the working directory and
  every mount point are made.\<close>

theorem patch_parents_first:
  "(\<forall>pre call rest. buildBootstrapPatch files workingDir mounts = pre @ call # rest \<longrightarrow>
     (case call of
        Mkdir d mode \<Rightarrow> mode = 493 \<and> made_before pre (path_dirname d)
      | Text p c mode rep \<Rightarrow> mode = 420 \<and> rep \<and> made_before pre (path_dirname (path_normalize p)))) \<and>
   file_writes (buildBootstrapPatch files workingDir mounts) = map (\<lambda>f. (rf_path f, rf_content f)) files \<and>
   (\<forall>w. workingDir = Some w \<and> w \<noteq> [] \<or> w \<in> mi_mountPath ` set mounts \<longrightarrow>
     Mkdir (path_normalize w) 493 \<in> set (buildBootstrapPatch files workingDir mounts))"
proof (intro conjI allI impI file_writes_patch)
  fix pre call rest assume "buildBootstrapPatch files workingDir mounts = pre @ call # rest"
  with bootstrap_patch_in_order [of files workingDir mounts] have "in_order {} (pre @ call # rest)" by simp
  from in_order_split [OF this] show "case call of
        Mkdir d mode \<Rightarrow> mode = 493 \<and> made_before pre (path_dirname d)
      | Text p c mode rep \<Rightarrow> mode = 420 \<and> rep \<and> made_before pre (path_dirname (path_normalize p))"
    by (simp split: patchCall.splits)
next
  fix w assume "workingDir = Some w \<and> w \<noteq> [] \<or> w \<in> mi_mountPath ` set mounts"
  then have "path_normalize w \<in> set (bootstrapDirectories workingDir (map mi_mountPath mounts))"
    using bootstrapDirectories_grounded [of workingDir "map mi_mountPath mounts"] by auto
  then show "Mkdir (path_normalize w) 493 \<in> set (buildBootstrapPatch files workingDir mounts)"
    by (simp add: bootstrap_patch_steps)
qed

theorem patch_parents_first_witness:
  "\<exists>pre. buildBootstrapPatch [\<lparr>rf_path = ''/srv/app/a.txt'', rf_content = ''x''\<rparr>] None [] =
      pre @ [Text ''/srv/app/a.txt'' ''x'' 420 True] \<and> Mkdir ''/srv/app'' 493 \<in> set pre"
proof -
  let ?f = "\<lparr>rf_path = ''/srv/app/a.txt'', rf_content = ''x''\<rparr>"
  let ?pre = "map (\<lambda>dir. Mkdir dir 493) (parentDirectories ''/srv/app/a.txt'')"
  have patch: "buildBootstrapPatch [?f] None [] = ?pre @ Text ''/srv/app/a.txt'' ''x'' 420 True # []"
    by (simp add: buildBootstrapPatch_def bootstrapDirectories_def)
  have "path_dirname (path_normalize ''/srv/app/a.txt'') = ''/srv/app''" by code_simp
  moreover have "case Text ''/srv/app/a.txt'' ''x'' 420 True of
        Mkdir d mode \<Rightarrow> mode = 493 \<and> made_before ?pre (path_dirname d)
      | Text p c mode rep \<Rightarrow> mode = 420 \<and> rep \<and> made_before ?pre (path_dirname (path_normalize p))"
    using patch_parents_first [of "[?f]" None "[]"] patch by blast
  ultimately have "Mkdir ''/srv/app'' 493 \<in> set ?pre" by (simp add: made_before_def)
  with patch show ?thesis by blast
qed

text \<open>The parent directories of an absolute path are all the directories on the way to it,
  outermost first, whatever its names are; the loop that walks up ends for every string.\<close>

theorem parentDirectories_absolute:
  assumes "\<forall>s \<in> set (segs @ [f]). plain_seg s"
  shows "parentDirectories (abs_path (segs @ [f])) = map (\<lambda>n. abs_path (take n segs)) [1..<Suc (length segs)]"
  by (rule parentDirectories_abs [OF assms])

theorem parentDirectories_absolute_witness:
  "parentDirectories ''/srv/app/a.txt'' = [''/srv'', ''/srv/app'']"
proof -
  have "\<forall>s \<in> set ([''srv'', ''app''] @ [''a.txt'']). plain_seg s" by (simp add: plain_seg_def)
  from parentDirectories_absolute [OF this] show ?thesis
    by (simp add: abs_path_def upt_rec numeral_2_eq_2)
qed

text \<open>C38: a sandbox that was created is detached last, on every path, and a detach that fails or
  takes too long changes nothing in the outcome; a failed creation is the only other end.\<close>

theorem detach_is_last:
  assumes "createDetachedRuntime cfg k input v = (q, t)"
  shows "(\<exists>e. sk_create k (ci_sandboxName input) (builder_calls input) v = (Inl e, t) \<and> q = Inl e) \<or>
    (\<exists>s u w. sk_create k (ci_sandboxName input) (builder_calls input) v = (Inr s, u) \<and>
       t = snd (sk_detachWithin k 2000 s w) \<and>
       (q, w) = bnd (when_eff (ci_ssh input = Some True)
           (catching (injectSshBinary cfg k s) (\<lambda>_. ret ())))
         (\<lambda>_. launchManagedCommand k s (ci_command input) (ci_workingDir input) (ci_ssh input)) u)"
proof -
  obtain c u where c: "sk_create k (ci_sandboxName input) (builder_calls input) v = (c, u)" by fastforce
  show ?thesis
  proof (cases c)
    case (Inl e)
    with assms c show ?thesis by (simp add: createDetachedRuntime_def bnd_run)
  next
    case (Inr s)
    with assms c show ?thesis
      by (auto simp: createDetachedRuntime_def bnd_run [of "sk_create k _ _"] ensuring_run detachBestEffort_run
          split: prod.splits)
  qed
qed

theorem detach_is_last_witness:
  "\<exists>q t w. createDetachedRuntime empty_config demo_sdk plain_input backend0 = (q, t) \<and>
     t = snd (sk_detachWithin demo_sdk 2000 ''box'' w)"
proof -
  obtain q t where run: "createDetachedRuntime empty_config demo_sdk plain_input backend0 = (q, t)" by fastforce
  have "fst (sk_create demo_sdk (ci_sandboxName plain_input) (builder_calls plain_input) backend0) = Inr ''box''"
    by (simp add: demo_sdk_def plain_input_def bnd_run)
  with detach_is_last [OF run] run show ?thesis by auto
qed

text \<open>C24: a command in a sandbox is tried at most three times. It is tried again only after an
  error that says the session or the time ran out, 250 and then 500 milliseconds later, and the
  outcome is that of the last attempt.\<close>

theorem retry_bounded:
  assumes "execWithTransientRetry k s c args v = (q, t)"
  shows "\<exists>ws. ws \<noteq> [] \<and> length ws \<le> 3 \<and> hd ws = v \<and> retry_trace k s c args ws \<and>
    execWithTimeout k s c args 5000 (last ws) = (q, t) \<and>
    (\<forall>e. q = Inl e \<and> isRetryableExecError e \<longrightarrow> length ws = 3)"
  by (rule retry_trace_cases [OF assms])

theorem retry_bounded_witness:
  "\<exists>q t ws. execWithTransientRetry demo_sdk ''box'' ''ls'' [] backend0 = (q, t) \<and>
     retry_trace demo_sdk ''box'' ''ls'' [] ws \<and> execWithTimeout demo_sdk ''box'' ''ls'' [] 5000 (last ws) = (q, t)"
proof -
  obtain q t where run: "execWithTransientRetry demo_sdk ''box'' ''ls'' [] backend0 = (q, t)" by fastforce
  from retry_bounded [OF run] run show ?thesis by blast
qed

text \<open>The errors after which the backend tries again are exactly those that provisioning
  forgives.\<close>

theorem retryable_is_transient: "isRetryableExecError e = isTransientDetachedSetupError e"
proof -
  have "adapter_errorMessage e = errorMessage e"
    unfolding adapter_errorMessage_def errorMessage_def by (rule refl)
  then show ?thesis by (simp only: isRetryableExecError_def isTransientDetachedSetupError_def)
qed

text \<open>C23: waiting for a sandbox to stop always ends, within the granted turns, and never throws,
  however the sandbox behaves.\<close>

theorem waitForSandboxStop_ends:
  assumes "clocked_sdk k time"
  shows "\<exists>t. waitForSandboxStop cfg k name v = (Inr (), t)"
  using clocked_sdk.waitForSandboxStop_ok [OF assms, of cfg name v]
  by (cases "waitForSandboxStop cfg k name v") simp

theorem waitForSandboxStop_ends_witness:
  "\<exists>t. waitForSandboxStop wait_config demo_sdk ''stuck'' backend0 = (Inr (), t)"
  by (rule waitForSandboxStop_ends [OF demo_sdk_clocked])

text \<open>The kill that should end a sandbox which ignores a stop is out of reach: as long as
  reading the clock and the sandbox's status takes no time, the loop leaves at the deadline
  without it, so replacing \<open>kill\<close> by anything changes nothing.\<close>

theorem kill_unreachable:
  assumes "instant_sdk k time" and "0 < runtimeReadyTimeoutMs cfg"
  shows "waitForSandboxStop cfg (k\<lparr>sk_kill := f\<rparr>) name v = waitForSandboxStop cfg k name v"
  by (rule instant_sdk.wait_no_kill [OF assms])

theorem kill_unreachable_witness:
  "waitForSandboxStop wait_config (demo_sdk\<lparr>sk_kill := (\<lambda>_. throw ThrownNil)\<rparr>) ''stuck'' backend0 =
   waitForSandboxStop wait_config demo_sdk ''stuck'' backend0"
  by (rule kill_unreachable [OF demo_sdk_instant]) (simp add: wait_config_times)

text \<open>C27: the SSH daemon is started when a sandbox is made and not when it is started again. Whatever
  the setup before has done, the last command that the creation of a sandbox with SSH runs in it is
  a script with the daemon's command. A start runs in the sandbox only one script, at most
  three times, and none when there is no command; none of the commands in that script runs the
  daemon, unless the sandbox's own command does. (A command that begins with a reserved word has
  no reading as simple commands and is set apart.)\<close>

theorem sshd_starts_at_creation:
  assumes "exec_log k execs"
    and "sk_create k (ci_sandboxName input) (builder_calls input) v = (Inr s, w)"
    and "ci_ssh input = Some True" and "\<not> starts_reserved (ci_command input)"
  shows "(\<exists>mid script cs. execs (snd (createDetachedRuntime cfg k input v)) = execs v @ mid @ [(''sh'', [''-lc'', script])] \<and>
      sh_script script = Some cs \<and> daemon_command \<in> set cs) \<and>
    (\<exists>n script. execs (snd (adapter_start k name command workingDir u)) = execs u @ replicate n (''sh'', [''-lc'', script]) \<and>
      n \<le> 3 \<and> (command = None \<or> command = Some [] \<longrightarrow> n = 0) \<and>
      (\<forall>cs c. sh_script script = Some cs \<and> c \<in> set cs \<and> runs_sshd c \<longrightarrow> command = Some (sc_words c)))"
proof (rule conjI)
  have "sh_script (buildLaunchScript (ci_command input) (ci_workingDir input) (Some True)) =
      Some (launch_commands (ci_command input) (ci_workingDir input) (Some True))"
    using assms(4) by (simp add: sh_script_launch)
  with exec_log.create_log [OF assms(1-3), of cfg] launch_runs_sshd(1)
  show "\<exists>mid script cs. execs (snd (createDetachedRuntime cfg k input v)) = execs v @ mid @ [(''sh'', [''-lc'', script])] \<and>
      sh_script script = Some cs \<and> daemon_command \<in> set cs" by blast
next
  have "command = Some (sc_words c)"
    if "sh_script (buildLaunchScript command workingDir None) = Some cs" "c \<in> set cs" "runs_sshd c" for cs c
    using that launch_runs_sshd(3) [of c command workingDir]
    by (auto simp: sh_script_launch logged_command_def split: if_splits)
  with exec_log.start_log [OF assms(1), of command name workingDir u]
  show "\<exists>n script. execs (snd (adapter_start k name command workingDir u)) = execs u @ replicate n (''sh'', [''-lc'', script]) \<and>
      n \<le> 3 \<and> (command = None \<or> command = Some [] \<longrightarrow> n = 0) \<and>
      (\<forall>cs c. sh_script script = Some cs \<and> c \<in> set cs \<and> runs_sshd c \<longrightarrow> command = Some (sc_words c))" by blast
qed

theorem sshd_starts_at_creation_witness:
  "\<exists>mid script cs. be_execs (snd (createDetachedRuntime empty_config demo_sdk plain_input backend0)) =
      mid @ [(''sh'', [''-lc'', script])] \<and> sh_script script = Some cs \<and> daemon_command \<in> set cs"
proof -
  obtain w where create: "sk_create demo_sdk (ci_sandboxName plain_input) (builder_calls plain_input) backend0 = (Inr ''box'', w)"
    by (simp add: demo_sdk_def plain_input_def bnd_run)
  have "ci_ssh plain_input = Some True" "\<not> starts_reserved (ci_command plain_input)" by code_simp+
  from sshd_starts_at_creation [OF demo_sdk_execs create this] show ?thesis
    by (fastforce simp: backend0_def)
qed

text \<open>C25: with the real backend the health wait of provisioning never throws: it answers true after
  a successful connection or false after the timeout.\<close>

theorem health_wait_total:
  assumes "backed k time io cfg"
  shows "\<exists>b t. waitForHealthy io p s = (Inr b, t) \<and>
    (if b then \<exists>v. fst (sk_probe k (healthcheckTimeoutMs cfg) p v) = Connected
     else time (ext s) + runtimeReadyTimeoutMs (io_config io) \<le> time (ext t))"
proof -
  note run = clocked.waitForHealthy_run [OF backed.backed_clocked [OF assms], of p s]
  note health = backed.health_run [OF assms]
  obtain r t where r: "waitForHealthy io p s = (r, t)" by fastforce
  show ?thesis
  proof (cases r)
    case (Inl e)
    with run r show ?thesis by (simp add: health)
  next
    case (Inr b)
    with run r show ?thesis by (cases b) (auto simp: health)
  qed
qed

theorem health_wait_total_witness:
  "\<exists>b t. waitForHealthy (backed_io wait_config) 80 backed_sys = (Inr b, t)"
  using health_wait_total [OF demo_sdk_backed, of wait_config 80 backed_sys] by blast

text \<open>C26: pulling an image runs only these command lines, in this order: nothing when the image is
  cached or the runtime is missing, one anonymous pull, and only if that failed and there are
  credentials a login, which is followed by a second pull and a logout unless it failed itself.
  The password is no argument of any of them.\<close>

theorem pull_command_lines:
  assumes "cli_log k cli" and "pullImage k reference auth v = (q, t)"
  shows "pulled (cli v) (trim reference) auth (\<exists>e. q = Inl e) (cli t) \<and>
    (\<forall>i. q = Inr (i, True) \<longrightarrow> cli t = cli v)"
proof -
  note pull = cli_log.post_pull [OF assms(1), of "cli v" reference auth]
  show ?thesis
    using post_Inr [OF pull refl] post_Inl [OF pull refl] assms(2) by (cases q) fastforce+
qed

theorem pull_command_lines_witness:
  "\<exists>q t. pullImage demo_sdk ''alpine'' (Some \<lparr>ra_server = ''r'', ra_username = ''u'', ra_password = ''p''\<rparr>) backend0 = (q, t) \<and>
     pulled [] ''alpine'' (Some \<lparr>ra_server = ''r'', ra_username = ''u'', ra_password = ''p''\<rparr>) (\<exists>e. q = Inl e) (be_cli t)"
proof -
  let ?a = "Some \<lparr>ra_server = ''r'', ra_username = ''u'', ra_password = ''p''\<rparr>"
  obtain q t where run: "pullImage demo_sdk ''alpine'' ?a backend0 = (q, t)" by fastforce
  have "trim ''alpine'' = ''alpine''" by code_simp
  with pull_command_lines [OF demo_sdk_cli run] run show ?thesis by (auto simp: backend0_def)
qed

end
