(* ===== verification/LeaseRace.thy ===== *)
theory LeaseRace
  imports Registry
begin

text \<open>
  Interleaved calls of \<open>leasePorts\<close> (runtime-registry/runtime-registry.service.ts). The method awaits
  the database at three places, and at each of them other calls may run. A call is cut there into
  steps; \<open>race_step\<close> lets any of the running calls take its next one. One call alone computes what
  \<open>leasePorts\<close> does (\<open>lone_call_refines\<close>), so the steps are the code's; together, calls for different
  runtimes never hold the same port, because the unique constraint of the table makes a lost race an
  error that the method answers by trying the next port, and every schedule ends.
\<close>

section \<open>One call, in steps\<close>

text \<open>
  A call is about to look at a port, about to take a port it found free, or about to drop its leases;
  or it has returned its ports or thrown.
\<close>

datatype leasePhase = Look int "int list" | Take int "int list" | DropAll | Returned "int list" | Thrown

record leaseCall =
  lc_runtimeId :: string
  lc_count :: int
  lc_phase :: leasePhase

definition lease_row :: "string \<Rightarrow> int \<Rightarrow> portLease" where
  "lease_row rid p = \<lparr>pl_id = [], pl_runtimeHostId = localHostId, pl_port = p, pl_runtimeId = rid, pl_leasedAt = 0\<rparr>"

definition lease_step ::
  "'v io \<Rightarrow> string \<Rightarrow> int \<Rightarrow> leasePhase \<Rightarrow> portLease list \<Rightarrow> (leasePhase \<times> portLease list) option" where
  "lease_step io rid count ph ls =
     (case ph of
        Look p ports \<Rightarrow>
          Some (if p \<le> portRangeEnd (io_config io) \<and> int (length ports) < count then
                  (case findOne (portLeaseRepo io) (\<lambda>l. pl_runtimeHostId l = localHostId \<and> pl_port l = p) ls of
                     Some _ \<Rightarrow> (Look (p + 1) ports, ls)
                   | None \<Rightarrow> (Take p ports, ls))
                else if int (length ports) \<noteq> count then (DropAll, ls)
                else (Returned ports, ls))
      | Take p ports \<Rightarrow>
          Some (case insertRow (portLeaseRepo io) (lease_row rid p) ls of
                  (Inr _, ls') \<Rightarrow> (Look (p + 1) (ports @ [p]), ls')
                | (Inl _, ls') \<Rightarrow> (Look (p + 1) ports, ls'))
      | DropAll \<Rightarrow> Some (Thrown, deleteRows (portLeaseRepo io) (\<lambda>l. pl_runtimeId l = rid) ls)
      | _ \<Rightarrow> None)"

definition new_call :: "'v io \<Rightarrow> string \<Rightarrow> int \<Rightarrow> leaseCall" where
  "new_call io rid count =
     \<lparr>lc_runtimeId = rid, lc_count = count, lc_phase = Look (portRangeStart (io_config io)) []\<rparr>"

text \<open>A call alone, for so many steps.\<close>

fun run_alone ::
  "'v io \<Rightarrow> string \<Rightarrow> int \<Rightarrow> nat \<Rightarrow> leasePhase \<times> portLease list \<Rightarrow> leasePhase \<times> portLease list" where
  "run_alone io rid count 0 st = st"
| "run_alone io rid count (Suc n) st =
     (case lease_step io rid count (fst st) (snd st) of None \<Rightarrow> st | Some st' \<Rightarrow> run_alone io rid count n st')"

section \<open>Interleaved calls\<close>

type_synonym race = "portLease list \<times> leaseCall list"

inductive race_step :: "'v io \<Rightarrow> race \<Rightarrow> race \<Rightarrow> bool" for io where
  race: "i < length cs \<Longrightarrow>
    lease_step io (lc_runtimeId (cs ! i)) (lc_count (cs ! i)) (lc_phase (cs ! i)) ls = Some (ph, ls') \<Longrightarrow>
    race_step io (ls, cs) (ls', cs[i := (cs ! i)\<lparr>lc_phase := ph\<rparr>])"

inductive_cases race_stepE [elim]: "race_step io (ls, cs) st"

inductive raced :: "'v io \<Rightarrow> race \<Rightarrow> nat \<Rightarrow> race \<Rightarrow> bool" for io where
  start: "raced io st 0 st"
| more: "raced io st n (ls, cs) \<Longrightarrow> race_step io (ls, cs) st' \<Longrightarrow> raced io st (Suc n) st'"

text \<open>The ports a call has been granted so far.\<close>

fun granted :: "leasePhase \<Rightarrow> int list" where
  "granted (Look p ports) = ports"
| "granted (Take p ports) = ports"
| "granted (Returned ports) = ports"
| "granted DropAll = []"
| "granted Thrown = []"

text \<open>The steps a call can still take, at most, when the range ends at \<open>hi\<close>.\<close>

fun steps_left :: "int \<Rightarrow> leasePhase \<Rightarrow> nat" where
  "steps_left hi (Look p ports) = 2 * nat (hi + 1 - p) + 2"
| "steps_left hi (Take p ports) = 2 * nat (hi - p) + 3"
| "steps_left hi DropAll = 1"
| "steps_left hi (Returned ports) = 0"
| "steps_left hi Thrown = 0"

section \<open>Safety\<close>

definition race_inv :: "race \<Rightarrow> bool" where
  "race_inv st \<longleftrightarrow>
     table_ok pl_id lease_clash (fst st) \<and> distinct (map lc_runtimeId (snd st)) \<and>
     (\<forall>c \<in> set (snd st). \<forall>p \<in> set (granted (lc_phase c)).
        \<exists>l \<in> set (fst st). pl_runtimeHostId l = localHostId \<and> pl_port l = p \<and> pl_runtimeId l = lc_runtimeId c)"

lemma lease_step_grants:
  assumes "database io" and "lease_step io rid count ph ls = Some (ph', ls')" and "table_ok pl_id lease_clash ls"
  shows "table_ok pl_id lease_clash ls' \<and> (\<forall>l \<in> set ls. pl_runtimeId l \<noteq> rid \<longrightarrow> l \<in> set ls') \<and>
    (granted ph' \<noteq> [] \<longrightarrow> set ls \<subseteq> set ls') \<and>
    (\<forall>p \<in> set (granted ph'). p \<in> set (granted ph) \<or>
       (\<exists>l \<in> set ls'. pl_runtimeHostId l = localHostId \<and> pl_port l = p \<and> pl_runtimeId l = rid))"
proof (cases ph)
  case (Look p ports)
  with assms show ?thesis
    by (auto simp: lease_step_def split: if_splits option.splits)
next
  case (Take p ports)
  note repo = database.lease_repo [OF assms(1)]
  show ?thesis
  proof (cases rule: repository.insert_cases [OF repo, of ls "lease_row rid p", case_names ok clash])
    case (ok i c)
    have "table_ok pl_id lease_clash ls'"
      using repository.insert_keeps_ok [OF repo assms(3) ok(2)] assms(2) ok(2) Take by (auto simp: lease_step_def)
    with assms(2) ok(2) Take show ?thesis
      by (auto simp: lease_step_def lease_row_def lease_stamp_def)
  next
    case (clash e)
    with assms(2,3) Take show ?thesis by (auto simp: lease_step_def)
  qed
next
  case DropAll
  note repo = database.lease_repo [OF assms(1)]
  from assms(2) DropAll have "ph' = Thrown" "ls' = deleteRows (portLeaseRepo io) (\<lambda>l. pl_runtimeId l = rid) ls"
    by (auto simp: lease_step_def)
  then show ?thesis
    using repository.delete_keeps_ok [OF repo assms(3)] repository.delete_rows [OF repo] by auto
qed (use assms(2) in \<open>simp_all add: lease_step_def\<close>)

lemma race_step_inv:
  assumes "database io" and "race_inv (ls, cs)" and "race_step io (ls, cs) st"
  shows "race_inv st"
  using assms(3)
proof cases
  case (race i ph ls')
  let ?c = "cs ! i"
  have ok: "table_ok pl_id lease_clash ls" and dist: "distinct (map lc_runtimeId cs)"
    and held: "\<And>c p. c \<in> set cs \<Longrightarrow> p \<in> set (granted (lc_phase c)) \<Longrightarrow>
      \<exists>l \<in> set ls. pl_runtimeHostId l = localHostId \<and> pl_port l = p \<and> pl_runtimeId l = lc_runtimeId c"
    using assms(2) by (auto simp: race_inv_def)
  note step = lease_step_grants [OF assms(1) race(3) ok]
  have ids: "map lc_runtimeId (cs[i := ?c\<lparr>lc_phase := ph\<rparr>]) = map lc_runtimeId cs"
    using list_update_id [of "map lc_runtimeId cs" i] race(2) by (simp add: map_update)
  have "\<exists>l \<in> set ls'. pl_runtimeHostId l = localHostId \<and> pl_port l = p \<and> pl_runtimeId l = lc_runtimeId c"
    if c: "c \<in> set (cs[i := ?c\<lparr>lc_phase := ph\<rparr>])" and p: "p \<in> set (granted (lc_phase c))" for c p
  proof -
    from c obtain j where j: "j < length cs" "c = (cs[i := ?c\<lparr>lc_phase := ph\<rparr>]) ! j"
      by (auto simp: in_set_conv_nth)
    show ?thesis
    proof (cases "j = i")
      case True
      with j p race(2) have "lc_runtimeId c = lc_runtimeId ?c" "p \<in> set (granted ph)" by simp_all
      with step held [OF nth_mem [OF race(2)], of p] show ?thesis by fastforce
    next
      case False
      with j have "c = cs ! j" by simp
      with dist j(1) race(2) False have "lc_runtimeId c \<noteq> lc_runtimeId ?c"
        by (simp add: distinct_conv_nth)
      with step held [OF nth_mem [OF j(1)], of p] p \<open>c = cs ! j\<close> show ?thesis by fastforce
    qed
  qed
  with step dist ids race(1) show ?thesis by (simp add: race_inv_def)
qed

lemma raced_inv: "raced io st n st' \<Longrightarrow> database io \<Longrightarrow> race_inv st \<Longrightarrow> race_inv st'"
  by (induction rule: raced.induct) (auto intro: race_step_inv)

lemma race_inv_disjoint:
  assumes "database io" and "race_inv (ls, cs)" and "i < length cs" and "j < length cs" and "i \<noteq> j"
  shows "set (granted (lc_phase (cs ! i))) \<inter> set (granted (lc_phase (cs ! j))) = {}"
proof (rule ccontr)
  assume "\<not> ?thesis"
  then obtain p where p: "p \<in> set (granted (lc_phase (cs ! i)))" "p \<in> set (granted (lc_phase (cs ! j)))" by blast
  from assms(2,3,4) p obtain k l where k: "k \<in> set ls" "pl_runtimeHostId k = localHostId" "pl_port k = p"
      "pl_runtimeId k = lc_runtimeId (cs ! i)"
    and l: "l \<in> set ls" "pl_runtimeHostId l = localHostId" "pl_port l = p" "pl_runtimeId l = lc_runtimeId (cs ! j)"
    by (auto simp: race_inv_def) (metis nth_mem)
  have "k = l"
    by (rule repository.row_by_clash [OF database.lease_repo [OF assms(1)] _ k(1) l(1)])
      (use assms(2) k l in \<open>simp_all add: race_inv_def lease_clash_def\<close>)
  with k l assms(2-5) show False by (simp add: race_inv_def distinct_conv_nth)
qed

section \<open>Every schedule ends\<close>

lemma lease_step_shrinks:
  "lease_step io rid count ph ls = Some (ph', ls') \<Longrightarrow>
   steps_left (portRangeEnd (io_config io)) ph' < steps_left (portRangeEnd (io_config io)) ph"
  by (cases ph) (auto simp: lease_step_def split: if_splits option.splits prod.splits sum.splits)

lemma sum_list_update_less:
  fixes f :: "'a \<Rightarrow> nat"
  shows "i < length xs \<Longrightarrow> f y < f (xs ! i) \<Longrightarrow> sum_list (map f (xs[i := y])) < sum_list (map f xs)"
  by (induction xs arbitrary: i) (auto split: nat.split)

definition race_left :: "'v io \<Rightarrow> leaseCall list \<Rightarrow> nat" where
  "race_left io cs = sum_list (map (\<lambda>c. steps_left (portRangeEnd (io_config io)) (lc_phase c)) cs)"

lemma race_step_shrinks: "race_step io (ls, cs) (ls', cs') \<Longrightarrow> race_left io cs' < race_left io cs"
  unfolding race_left_def
  by (erule race_stepE) (auto intro!: sum_list_update_less dest: lease_step_shrinks)

lemma raced_bound: "raced io st n st' \<Longrightarrow> n + race_left io (snd st') \<le> race_left io (snd st)"
proof (induction rule: raced.induct)
  case (more st n ls cs st')
  then show ?case using race_step_shrinks [of io ls cs "fst st'" "snd st'"] by simp
qed simp

text \<open>A state that no step leaves has only calls that returned or threw.\<close>

lemma race_stuck:
  "(\<forall>st. \<not> race_step io (ls, cs) st) \<Longrightarrow> c \<in> set cs \<Longrightarrow> (\<exists>ps. lc_phase c = Returned ps) \<or> lc_phase c = Thrown"
proof (rule ccontr)
  assume stuck: "\<forall>st. \<not> race_step io (ls, cs) st" and c: "c \<in> set cs"
    and busy: "\<not> ((\<exists>ps. lc_phase c = Returned ps) \<or> lc_phase c = Thrown)"
  from c obtain i where i: "i < length cs" "cs ! i = c" by (auto simp: in_set_conv_nth)
  from busy have "lease_step io (lc_runtimeId c) (lc_count c) (lc_phase c) ls \<noteq> None"
    by (cases "lc_phase c") (simp_all add: lease_step_def)
  then obtain ph ls' where "lease_step io (lc_runtimeId c) (lc_count c) (lc_phase c) ls = Some (ph, ls')" by auto
  with i stuck race [of i cs io ls ph ls'] show False by auto
qed

section \<open>One call alone\<close>

lemma run_alone_loop:
  fixes io :: "'v io"
  defines "hi \<equiv> portRangeEnd (io_config io)"
  shows "\<exists>k p' ports' t. k \<le> 2 * nat (hi + 1 - p) \<and> lease_loop io rid n p ports s = (Inr ports', t) \<and>
     \<not> (p' \<le> hi \<and> int (length ports') < n) \<and>
     (\<forall>m. run_alone io rid n (k + m) (Look p ports, leases s) = run_alone io rid n m (Look p' ports', leases t))"
proof (induction "nat (hi + 1 - p)" arbitrary: p ports s rule: less_induct)
  case less
  show ?case
  proof (cases "p \<le> hi \<and> int (length ports) < n")
    case False
    then have "lease_loop io rid n p ports s = (Inr ports, s)"
      by (subst lease_loop.simps) (auto simp: hi_def)
    with False show ?thesis
      by (intro exI conjI allI) (rule le0, assumption, assumption, simp)
  next
    case True
    then have d: "nat (hi + 1 - (p + 1)) < nat (hi + 1 - p)"
      and left: "2 * nat (hi + 1 - (p + 1)) + 2 = 2 * nat (hi + 1 - p)" by linarith+
    let ?q = "\<lambda>l. pl_runtimeHostId l = localHostId \<and> pl_port l = p"
    obtain j ports1 s1 where j: "j \<le> 2"
      and loop: "lease_loop io rid n p ports s = lease_loop io rid n (p + 1) ports1 s1"
      and run: "\<And>m. run_alone io rid n (j + m) (Look p ports, leases s) = run_alone io rid n m (Look (p + 1) ports1, leases s1)"
    proof (cases "findOne (portLeaseRepo io) ?q (leases s)")
      case (Some l)
      show thesis
        by (rule that [of 1 ports s]) (use True Some in \<open>simp_all add: lease_loop.simps [of io rid n p] bnd_run
            lease_findOne_def lease_step_def hi_def\<close>)
    next
      case None
      obtain r ls' where ins: "insertRow (portLeaseRepo io) (lease_row rid p) (leases s) = (r, ls')" by fastforce
      show thesis
        by (rule that [of 2 "case r of Inl _ \<Rightarrow> ports | Inr _ \<Rightarrow> ports @ [p]" "s\<lparr>leases := ls'\<rparr>"])
          (use True None ins in \<open>simp_all add: lease_loop.simps [of io rid n p] bnd_run catching_run
            lease_findOne_def lease_insert_def lease_step_def lease_row_def hi_def numeral_2_eq_2 split: sum.split\<close>)
    qed
    obtain k p' ports' t where k: "k \<le> 2 * nat (hi + 1 - (p + 1))"
      and done_: "lease_loop io rid n (p + 1) ports1 s1 = (Inr ports', t)" "\<not> (p' \<le> hi \<and> int (length ports') < n)"
      and run': "\<And>m. run_alone io rid n (k + m) (Look (p + 1) ports1, leases s1) = run_alone io rid n m (Look p' ports', leases t)"
      using less.hyps [OF d, of ports1 s1] by blast
    have "run_alone io rid n (j + k + m) (Look p ports, leases s) = run_alone io rid n m (Look p' ports', leases t)" for m
      using run [of "k + m"] run' [of m] by (simp add: add.assoc)
    then show ?thesis using j k left loop done_ by (intro exI [of _ "j + k"] exI [of _ p'] exI conjI) auto
  qed
qed

lemma run_alone_final:
  "run_alone io rid n m (Returned ps, ls) = (Returned ps, ls)" "run_alone io rid n m (Thrown, ls) = (Thrown, ls)"
  by (cases m; simp add: lease_step_def)+

text \<open>C7: the steps are those of \<open>leasePorts\<close>. A call that runs alone, for at most two steps per port
  of the range and two more, ends with the ports that \<open>leasePorts\<close> returns, or throws when it throws,
  and leaves the same leases.\<close>

theorem lone_call_refines:
  "run_alone io rid n (2 * nat (portRangeEnd (io_config io) + 1 - portRangeStart (io_config io)) + 2)
     (Look (portRangeStart (io_config io)) [], leases s) =
   (case leasePorts io rid n s of
      (Inr ps, t) \<Rightarrow> (Returned ps, leases t) | (Inl _, t) \<Rightarrow> (Thrown, leases t))"
proof -
  let ?lo = "portRangeStart (io_config io)" and ?hi = "portRangeEnd (io_config io)"
  obtain k p ports t where k: "k \<le> 2 * nat (?hi + 1 - ?lo)"
    and loop: "lease_loop io rid n ?lo [] s = (Inr ports, t)" "\<not> (p \<le> ?hi \<and> int (length ports) < n)"
    and run: "\<And>m. run_alone io rid n (k + m) (Look ?lo [], leases s) = run_alone io rid n m (Look p ports, leases t)"
    using run_alone_loop [of io ?lo rid n "[]" s] by blast
  obtain m where m: "2 * nat (?hi + 1 - ?lo) + 2 = k + Suc (Suc m)"
    using k by (metis add.assoc add_2_eq_Suc' le_add_diff_inverse)
  show ?thesis
    unfolding m run using loop
    by (auto simp: leasePorts_def bnd_run lease_step_def lease_delete_def run_alone_final)
qed

text \<open>C6: in every interleaving of calls for different runtimes, no port is granted twice, and each
  port a call has been granted is leased to its runtime.\<close>

theorem lease_race_disjoint:
  assumes "database io" and "table_ok pl_id lease_clash ls" and "distinct (map fst reqs)"
    and "raced io (ls, map (\<lambda>(rid, n). new_call io rid n) reqs) k (ls', cs)"
    and "i < length cs" and "j < length cs" and "i \<noteq> j"
  shows "set (granted (lc_phase (cs ! i))) \<inter> set (granted (lc_phase (cs ! j))) = {} \<and>
    (\<forall>p \<in> set (granted (lc_phase (cs ! i))). \<exists>l \<in> set ls'. pl_runtimeHostId l = localHostId \<and>
       pl_port l = p \<and> pl_runtimeId l = lc_runtimeId (cs ! i))"
proof -
  have "map lc_runtimeId (map (\<lambda>(rid, n). new_call io rid n) reqs) = map fst reqs"
    by (simp add: new_call_def case_prod_beta comp_def)
  with assms(2,3) have "race_inv (ls, map (\<lambda>(rid, n). new_call io rid n) reqs)"
    by (auto simp: race_inv_def new_call_def simp del: map_map)
  from raced_inv [OF assms(4,1) this] have inv: "race_inv (ls', cs)" .
  with race_inv_disjoint [OF assms(1) inv assms(5,6,7)] assms(5) show ?thesis by (simp add: race_inv_def)
qed

text \<open>C8: every schedule of interleaved calls ends. However the calls are scheduled, together they
  take at most two steps per port of the range and two more each, and when no step is left every
  call has returned or thrown.\<close>

theorem lease_race_ends:
  assumes "raced io (ls, map (\<lambda>(rid, n). new_call io rid n) reqs) k (ls', cs)"
  shows "k \<le> length reqs * (2 * nat (portRangeEnd (io_config io) + 1 - portRangeStart (io_config io)) + 2) \<and>
    ((\<exists>st. race_step io (ls', cs) st) \<or> (\<forall>c \<in> set cs. (\<exists>ps. lc_phase c = Returned ps) \<or> lc_phase c = Thrown))"
proof -
  have "race_left io (map (\<lambda>(rid, n). new_call io rid n) reqs) =
      length reqs * (2 * nat (portRangeEnd (io_config io) + 1 - portRangeStart (io_config io)) + 2)"
    by (induction reqs) (auto simp: race_left_def new_call_def)
  then show ?thesis using raced_bound [OF assms] race_stuck [of io ls' cs] by auto
qed

text \<open>Two calls look at port 5, both find it free, and the second loses it.\<close>

fun run_schedule :: "'v io \<Rightarrow> nat list \<Rightarrow> race \<Rightarrow> race option" where
  "run_schedule io [] st = Some st"
| "run_schedule io (i # is) (ls, cs) =
     (if i < length cs then
        (case lease_step io (lc_runtimeId (cs ! i)) (lc_count (cs ! i)) (lc_phase (cs ! i)) ls of
           None \<Rightarrow> None
         | Some (ph, ls') \<Rightarrow> run_schedule io is (ls', cs[i := (cs ! i)\<lparr>lc_phase := ph\<rparr>]))
      else None)"

lemma raced_trans: "raced io b n c \<Longrightarrow> raced io a m b \<Longrightarrow> raced io a (n + m) c"
  by (induction rule: raced.induct) (auto intro: raced.intros)

lemma raced_schedule: "run_schedule io is st = Some st' \<Longrightarrow> raced io st (length is) st'"
proof (induction io "is" st rule: run_schedule.induct)
  case (2 io i is' ls cs)
  then obtain ph ls' where i: "i < length cs"
    and st: "lease_step io (lc_runtimeId (cs ! i)) (lc_count (cs ! i)) (lc_phase (cs ! i)) ls = Some (ph, ls')"
    and run: "run_schedule io is' (ls', cs[i := (cs ! i)\<lparr>lc_phase := ph\<rparr>]) = Some st'"
    by (auto split: if_splits option.splits)
  note step = race [OF i st]
  have rest: "raced io (ls', cs[i := (cs ! i)\<lparr>lc_phase := ph\<rparr>]) (length is') st'"
    using "2.IH" [OF i st refl run] .
  have "raced io (ls, cs) 1 (ls', cs[i := (cs ! i)\<lparr>lc_phase := ph\<rparr>])"
    using more [OF start step] by simp
  from raced_trans [OF rest this] show ?case by simp
qed (auto intro: start)

definition demo_race :: race where
  "demo_race = ([], map (\<lambda>(rid, n). new_call (demo_io (range_config 5 6)) rid n) [(''a'', 1), (''b'', 1)])"

lemma close_race:
  "\<exists>ls cs. raced (demo_io (range_config 5 6)) demo_race 6 (ls, cs) \<and>
     map lc_phase cs = [Returned [5], Take 6 []]"
proof -
  have "\<exists>ls cs. run_schedule (demo_io (range_config 5 6)) [0, 1, 0, 1, 0, 1] demo_race = Some (ls, cs) \<and> map lc_phase cs = [Returned [5], Take 6 []]"
    by (simp add: demo_race_def lease_step_def new_call_def lease_table_def mem_repo_def mem_insert_def lease_row_def
        lease_clash_def lease_stamp_def Let_def)
  then obtain ls cs where run: "run_schedule (demo_io (range_config 5 6)) [0, 1, 0, 1, 0, 1] demo_race = Some (ls, cs)"
    and cs: "map lc_phase cs = [Returned [5], Take 6 []]"
    by (elim exE conjE) (rule that)
  have len: "length [0, 1, 0, 1, 0, 1 :: nat] = 6" by simp
  from raced_schedule [OF run, unfolded len] cs show ?thesis by (intro exI conjI)
qed

theorem lease_race_disjoint_witness:
  "\<exists>ls cs. raced (demo_io (range_config 5 6)) demo_race 6 (ls, cs) \<and> map lc_phase cs = [Returned [5], Take 6 []] \<and>
     (\<exists>l \<in> set ls. pl_port l = 5 \<and> pl_runtimeId l = lc_runtimeId (cs ! 0))"
proof -
  obtain ls cs where run: "raced (demo_io (range_config 5 6)) demo_race 6 (ls, cs)" and cs: "map lc_phase cs = [Returned [5], Take 6 []]"
    using close_race by (elim exE conjE) (rule that)
  have len: "length cs = 2" using arg_cong [OF cs, of length] by simp
  have "lc_phase (cs ! 0) = map lc_phase cs ! 0" using len by (simp add: nth_map)
  then have "granted (lc_phase (cs ! 0)) = [5]" by (simp add: cs)
  moreover have "table_ok pl_id lease_clash []" by (simp add: table_ok_def)
  ultimately have "\<exists>l \<in> set ls. pl_port l = 5 \<and> pl_runtimeId l = lc_runtimeId (cs ! 0)"
    using lease_race_disjoint [OF demo_database _ _ run [unfolded demo_race_def], of 0 1] len by auto
  with run cs show ?thesis by (intro exI conjI)
qed

theorem lease_race_ends_witness:
  "\<exists>ls cs. raced (demo_io (range_config 5 6)) demo_race 6 (ls, cs) \<and> (6::nat) \<le> 12 \<and> (\<exists>st. race_step (demo_io (range_config 5 6)) (ls, cs) st)"
proof -
  obtain ls cs where run: "raced (demo_io (range_config 5 6)) demo_race 6 (ls, cs)" and cs: "map lc_phase cs = [Returned [5], Take 6 []]"
    using close_race by (elim exE conjE) (rule that)
  have len: "length cs = 2" using arg_cong [OF cs, of length] by simp
  have "lc_phase (cs ! 1) = map lc_phase cs ! 1" using len by (simp add: nth_map)
  then have "lc_phase (cs ! 1) = Take 6 []" by (simp add: cs)
  moreover have "cs ! 1 \<in> set cs" using len by simp
  ultimately have "\<not> (\<forall>c \<in> set cs. (\<exists>ps. lc_phase c = Returned ps) \<or> lc_phase c = Thrown)" by (metis leasePhase.distinct(11) leasePhase.distinct(13))
  with lease_race_ends [OF run [unfolded demo_race_def]] run show ?thesis by auto
qed

end
