(* ===== verification/JsonParse.thy ===== *)
theory JsonParse
  imports JsUri
begin

text \<open>
  \<open>JSON.parse\<close> for the texts whose value lies in the type \<open>json\<close>: a number with a fraction or an
  exponent and an escape of a code unit from 256 on are outside the model and give \<open>None\<close>, as a
  malformed text does. \<open>parse_stringify\<close> shows that it reads back what \<open>JSON.stringify\<close> prints.
\<close>

section \<open>Tokens\<close>

definition json_space :: "char \<Rightarrow> bool" where
  "json_space c \<longleftrightarrow> (of_char c :: nat) \<in> {9, 10, 13, 32}"

definition skip :: "string \<Rightarrow> string" where
  "skip s = dropWhile json_space s"

fun hex4 :: "string \<Rightarrow> (nat \<times> string) option" where
  "hex4 (a # b # c # d # r) =
     (case (unhex2 a b, unhex2 c d) of (Some x, Some y) \<Rightarrow> Some (256 * x + y, r) | _ \<Rightarrow> None)"
| "hex4 _ = None"

text \<open>One character of a string literal, escaped or not.\<close>

fun json_char :: "string \<Rightarrow> (char \<times> string) option" where
  "json_char [] = None"
| "json_char (c # s) =
     (if c = CHR 0x5C then
        (case s of
           [] \<Rightarrow> None
         | x # t \<Rightarrow>
             if x = CHR 0x22 \<or> x = CHR 0x5C \<or> x = CHR ''/'' then Some (x, t)
             else if x = CHR ''b'' then Some (char_of (8::nat), t)
             else if x = CHR ''f'' then Some (char_of (12::nat), t)
             else if x = CHR ''n'' then Some (char_of (10::nat), t)
             else if x = CHR ''r'' then Some (char_of (13::nat), t)
             else if x = CHR ''t'' then Some (char_of (9::nat), t)
             else if x = CHR ''u'' then
               (case hex4 t of Some (n, r) \<Rightarrow> if n < 256 then Some (char_of n, r) else None | None \<Rightarrow> None)
             else None)
      else if (of_char c :: nat) < 32 then None
      else Some (c, s))"

lemma hex4_shorter: "hex4 s = Some (n, r) \<Longrightarrow> length r < length s"
  by (cases s rule: hex4.cases) (auto split: option.splits)

lemma json_char_shorter: "json_char s = Some (c, r) \<Longrightarrow> length r < length s"
  by (cases s) (auto split: if_splits list.splits option.splits dest: hex4_shorter)

text \<open>The rest of a string literal, after its opening quote.\<close>

function json_string :: "string \<Rightarrow> (string \<times> string) option" where
  "json_string s =
     (case s of
        [] \<Rightarrow> None
      | c # t \<Rightarrow>
          if c = CHR 0x22 then Some ([], t)
          else (case json_char s of
                  None \<Rightarrow> None
                | Some (x, r) \<Rightarrow>
                    (case json_string r of None \<Rightarrow> None | Some (xs, r') \<Rightarrow> Some (x # xs, r'))))"
  by pat_completeness auto
termination
  by (relation "measure length") (auto dest: json_char_shorter simp del: json_char.simps)

declare json_string.simps [simp del]

definition json_digits :: "string \<Rightarrow> (nat \<times> string) option" where
  "json_digits s =
     (let ds = takeWhile is_digit s; r = dropWhile is_digit s in
      if ds = [] \<or> (hd ds = CHR ''0'' \<and> length ds > 1) \<or> (r \<noteq> [] \<and> hd r \<in> {CHR ''.'', CHR ''e'', CHR ''E''})
      then None else Some (digits_val ds, r))"

definition json_number :: "string \<Rightarrow> (int \<times> string) option" where
  "json_number s =
     (case s of
        c # t \<Rightarrow>
          if c = CHR ''-'' then map_option (\<lambda>(n, r). (- int n, r)) (json_digits t)
          else map_option (\<lambda>(n, r). (int n, r)) (json_digits s)
      | [] \<Rightarrow> None)"

definition json_word :: "string \<Rightarrow> string \<Rightarrow> 'a \<Rightarrow> ('a \<times> string) option" where
  "json_word w s x = (if prefix w s then Some (x, drop (length w) s) else None)"

section \<open>Values\<close>

text \<open>
  The number bounds the nesting; the length of the text is enough. \<open>json_elems\<close> and \<open>json_props\<close>
  start at an element, after the opening bracket or a comma.
\<close>

fun json_value :: "nat \<Rightarrow> string \<Rightarrow> (json \<times> string) option"
  and json_elems :: "nat \<Rightarrow> string \<Rightarrow> (json list \<times> string) option"
  and json_props :: "nat \<Rightarrow> string \<Rightarrow> ((string \<times> json) list \<times> string) option" where
  "json_value 0 s = None"
| "json_value (Suc n) s =
     (case skip s of
        [] \<Rightarrow> None
      | c # t \<Rightarrow>
          if c = CHR 0x22 then map_option (\<lambda>(x, r). (JStr x, r)) (json_string t)
          else if c = CHR ''['' then
            (let u = skip t in
             if u \<noteq> [] \<and> hd u = CHR '']'' then Some (JArr [], tl u)
             else map_option (\<lambda>(xs, r). (JArr xs, r)) (json_elems n u))
          else if c = CHR ''{'' then
            (let u = skip t in
             if u \<noteq> [] \<and> hd u = CHR ''}'' then Some (JObj [], tl u)
             else map_option (\<lambda>(ps, r). (JObj ps, r)) (json_props n u))
          else if c = CHR ''n'' then json_word ''null'' (c # t) JNull
          else if c = CHR ''t'' then json_word ''true'' (c # t) (JBool True)
          else if c = CHR ''f'' then json_word ''false'' (c # t) (JBool False)
          else map_option (\<lambda>(i, r). (JNum i, r)) (json_number (c # t)))"
| "json_elems 0 s = None"
| "json_elems (Suc n) s =
     (case json_value n s of
        None \<Rightarrow> None
      | Some (x, r) \<Rightarrow>
          (case skip r of
             [] \<Rightarrow> None
           | c # t \<Rightarrow>
               if c = CHR '']'' then Some ([x], t)
               else if c = CHR '','' then map_option (\<lambda>(xs, r'). (x # xs, r')) (json_elems n t)
               else None))"
| "json_props 0 s = None"
| "json_props (Suc n) s =
     (case skip s of
        [] \<Rightarrow> None
      | q # s' \<Rightarrow>
          if q \<noteq> CHR 0x22 then None
          else (case json_string s' of
            None \<Rightarrow> None
          | Some (k, s'') \<Rightarrow>
              (case skip s'' of
                 [] \<Rightarrow> None
               | d # v \<Rightarrow>
                   if d \<noteq> CHR '':'' then None
                   else (case json_value n v of
                     None \<Rightarrow> None
                   | Some (x, r) \<Rightarrow>
                       (case skip r of
                          [] \<Rightarrow> None
                        | c # t \<Rightarrow>
                            if c = CHR ''}'' then Some ([(k, x)], t)
                            else if c = CHR '','' then map_option (\<lambda>(ps, r'). ((k, x) # ps, r')) (json_props n t)
                            else None)))))"

definition json_parse :: "string \<Rightarrow> json option" where
  "json_parse s =
     (case json_value (Suc (length s)) s of
        Some (x, r) \<Rightarrow> if skip r = [] then Some x else None
      | None \<Rightarrow> None)"

section \<open>Reading back what was printed\<close>

lemma unhex_hex_char: "d < 16 \<Longrightarrow> unhex (hex_char d) = Some d"
  by (auto simp: unhex_def hex_char_def Let_def)

lemma json_char_escape: "json_char (escape_char c @ r) = Some (c, r)"
proof -
  define n where "n = (of_char c :: nat)"
  have c: "c = char_of n" by (simp add: n_def)
  consider "n \<in> {34, 92, 8, 12, 10, 13, 9}" | "n \<notin> {34, 92, 8, 12, 10, 13, 9}" "n < 32"
    | "n \<notin> {34, 92}" "32 \<le> n" by fastforce
  then show ?thesis
  proof cases
    case 1
    moreover have "char_of (34::nat) = CHR 0x22" "char_of (92::nat) = CHR 0x5C"
      by (simp_all add: char_of_eq_iff)
    ultimately show ?thesis unfolding c by (auto simp: escape_char_def)
  next
    case 2
    then have "escape_char c =
        [CHR 0x5C, CHR ''u'', CHR ''0'', CHR ''0'', hex_char (n div 16), hex_char (n mod 16)]"
      by (simp add: escape_char_def n_def [symmetric] Let_def)
    moreover have "unhex2 (CHR ''0'') (CHR ''0'') = Some 0" by code_simp
    moreover have "unhex2 (hex_char (n div 16)) (hex_char (n mod 16)) = Some n"
      using 2 by (simp add: unhex2_def unhex_hex_char)
    ultimately show ?thesis using 2 by (simp add: c)
  next
    case 3
    then have "escape_char c = [c]" by (auto simp: escape_char_def n_def [symmetric] Let_def)
    moreover have "c \<noteq> CHR 0x5C" using 3 by (auto simp: n_def)
    ultimately show ?thesis using 3 by (simp add: n_def)
  qed
qed

lemma json_string_quote: "json_string (concat (map escape_char s) @ CHR 0x22 # r) = Some (s, r)"
proof (induction s)
  case Nil
  show ?case by (subst json_string.simps) simp
next
  case (Cons c s)
  let ?t = "concat (map escape_char s) @ CHR 0x22 # r"
  obtain d u where u: "escape_char c @ ?t = d # u" "d \<noteq> CHR 0x22"
    using escape_char_not_quote [of c ?t] by (cases "escape_char c @ ?t") (auto simp: escape_char_def Let_def)
  show ?case
    using json_char_escape [of c ?t] Cons u by (subst json_string.simps) simp
qed

lemma skip_id: "s = [] \<or> \<not> json_space (hd s) \<Longrightarrow> skip s = s"
  by (cases s) (auto simp: skip_def)

lemma first_tag_space: "json_space c \<Longrightarrow> first_tag c = 7"
proof (rule ccontr)
  assume space: "json_space c" and "first_tag c \<noteq> 7"
  then have "c \<in> {CHR ''n'', CHR ''t'', CHR ''f'', CHR ''['', CHR ''{'', CHR 0x22, CHR ''-''} \<or> is_digit c"
    by (auto simp: first_tag_def split: if_splits)
  moreover have "\<not> is_digit c" using space by (simp add: json_space_def is_digit_def) linarith
  ultimately show False using space by (elim disjE insertE) (simp_all add: json_space_def)
qed

lemma skip_stringify [simp]: "skip (stringify x @ r) = stringify x @ r"
proof (rule skip_id)
  have "json_tag x < 7" by (cases x) auto
  then show "stringify x @ r = [] \<or> \<not> json_space (hd (stringify x @ r))"
    using stringify_first(1) [of x r] first_tag_space by force
qed

lemma skip_delimiter [simp]:
  "skip (CHR '']'' # r) = CHR '']'' # r" "skip (CHR ''}'' # r) = CHR ''}'' # r"
  "skip (CHR '','' # r) = CHR '','' # r" "skip (CHR '':'' # r) = CHR '':'' # r"
  "skip (CHR 0x22 # r) = CHR 0x22 # r" "skip [] = []"
  by (simp_all add: skip_def json_space_def)

lemma nat_digits_first: "nat_digits n = CHR ''0'' # t \<Longrightarrow> t = []"
proof (induction n arbitrary: t rule: nat_digits.induct)
  case (1 n)
  show ?case
  proof (cases "n < 10")
    case True
    then have "nat_digits n = [digit_char n]" by (subst nat_digits.simps) simp
    with 1(2) show ?thesis by simp
  next
    case False
    then have eq: "nat_digits n = nat_digits (n div 10) @ [digit_char (n mod 10)]" by (subst nat_digits.simps) simp
    with 1(2) obtain u where u: "nat_digits (n div 10) = CHR ''0'' # u" by (cases "nat_digits (n div 10)") auto
    from 1(1) [OF False u] u have "digits_val (nat_digits (n div 10)) = 0"
      by (simp add: digits_val_def digit_val_def)
    with False show ?thesis by simp
  qed
qed

lemma json_digits_nat: "delimited r \<Longrightarrow> json_digits (nat_digits n @ r) = Some (n, r)"
proof -
  assume r: "delimited r"
  have "takeWhile is_digit (nat_digits n @ r) = nat_digits n"
    using r by (simp add: takeWhile_append_stop nat_digits_all delimited_not_digit)
  moreover from this have "dropWhile is_digit (nat_digits n @ r) = r"
    by (metis append_same_eq same_append_eq takeWhile_dropWhile_id)
  moreover have "\<not> (hd (nat_digits n) = CHR ''0'' \<and> length (nat_digits n) > 1)"
    using nat_digits_first [of n "tl (nat_digits n)"] by (cases "nat_digits n") auto
  ultimately show ?thesis using r by (auto simp: json_digits_def Let_def delimited_def)
qed

lemma json_number_int: "delimited r \<Longrightarrow> json_number (int_digits i @ r) = Some (i, r)"
proof (cases "i < 0")
  case True
  assume "delimited r"
  with True show ?thesis by (simp add: json_number_def int_digits_def json_digits_nat)
next
  case False
  assume r: "delimited r"
  obtain c t where c: "nat_digits (nat i) @ r = c # t" "c \<noteq> CHR ''-''"
    using dash_not_digits [of _ "nat i" r] by (cases "nat_digits (nat i) @ r") auto
  from r json_digits_nat [OF r, of "nat i"] False c show ?thesis
    by (simp add: json_number_def int_digits_def)
qed

lemma json_value_number:
  assumes "first_tag c = 6" and "json_number (c # t) = Some (i, r)"
  shows "json_value (Suc n) (c # t) = Some (JNum i, r)"
proof -
  have "\<not> json_space c" "c \<noteq> CHR 0x22" "c \<noteq> CHR ''[''" "c \<noteq> CHR ''{''" "c \<noteq> CHR ''n''" "c \<noteq> CHR ''t''" "c \<noteq> CHR ''f''"
    using assms(1) first_tag_space [of c] by (auto simp: first_tag_def)
  with assms(2) show ?thesis by (simp add: skip_id)
qed

lemma json_value_list:
  assumes "json_elems n (stringify x @ u) = Some (xs, r)"
  shows "json_value (Suc n) (CHR ''['' # stringify x @ u) = Some (JArr xs, r)"
proof -
  have "hd (stringify x @ u) \<noteq> CHR '']''"
    using stringify_no_bracket [of x u] stringify_first(2) [of x] by (cases "stringify x @ u") auto
  with assms show ?thesis by (simp add: skip_id json_space_def Let_def)
qed

text \<open>One element or property more.\<close>

abbreviation value_back :: "json \<Rightarrow> bool" where
  "value_back x \<equiv> (\<forall>n r. delimited r \<longrightarrow> length (stringify x) \<le> n \<longrightarrow> json_value n (stringify x @ r) = Some (x, r))"

abbreviation elems_back :: "json list \<Rightarrow> bool" where
  "elems_back xs \<equiv> (\<forall>n r. xs \<noteq> [] \<longrightarrow> length (stringify_elems xs) \<le> Suc n \<longrightarrow>
     json_elems n (tl (stringify_elems xs) @ r) = Some (xs, r))"

abbreviation props_back :: "(string \<times> json) list \<Rightarrow> bool" where
  "props_back ps \<equiv> (\<forall>n r. ps \<noteq> [] \<longrightarrow> length (stringify_props ps) \<le> Suc n \<longrightarrow>
     json_props n (tl (stringify_props ps) @ r) = Some (ps, r))"

lemma elems_step:
  assumes "value_back x" and "elems_back xs"
  shows "elems_back (x # xs)"
proof (intro allI impI)
  fix n r assume len: "length (stringify_elems (x # xs)) \<le> Suc n"
  then obtain m where n: "n = Suc m" using stringify_first(2) [of x] by (cases n) auto
  have "length (stringify x) \<le> m" using len n by (cases xs) auto
  then have x: "json_value m (stringify x @ stringify_elems xs @ r) = Some (x, stringify_elems xs @ r)"
    using assms(1) delimited_elems [of xs r] by blast
  show "json_elems n (tl (stringify_elems (x # xs)) @ r) = Some (x # xs, r)"
  proof (cases xs)
    case Nil
    with x n show ?thesis by simp
  next
    case (Cons y ys)
    then have "json_elems m (tl (stringify_elems xs) @ r) = Some (xs, r)"
      using assms(2) len n by auto
    with x n Cons show ?thesis by simp
  qed
qed

lemma props_step:
  assumes "value_back x" and "props_back ps"
  shows "props_back ((k, x) # ps)"
proof (intro allI impI)
  fix n r assume len: "length (stringify_props ((k, x) # ps)) \<le> Suc n"
  then obtain m where n: "n = Suc m" using stringify_first(2) [of x] by (cases n) auto
  have "length (stringify x) \<le> m" using len n by (cases ps) auto
  then have x: "json_value m (stringify x @ stringify_props ps @ r) = Some (x, stringify_props ps @ r)"
    using assms(1) delimited_props [of ps r] by blast
  show "json_props n (tl (stringify_props ((k, x) # ps)) @ r) = Some ((k, x) # ps, r)"
  proof (cases ps)
    case Nil
    with x n show ?thesis by (simp add: quote_def json_string_quote)
  next
    case (Cons q qs)
    obtain l y where q: "q = (l, y)" by fastforce
    have "json_props m (tl (stringify_props ps) @ r) = Some (ps, r)"
      using assms(2) len n Cons q by auto
    with x n Cons q show ?thesis by (simp add: quote_def json_string_quote)
  qed
qed

lemma json_value_object:
  assumes "json_props n (quote k @ u) = Some (ps, r)"
  shows "json_value (Suc n) (CHR ''{'' # quote k @ u) = Some (JObj ps, r)"
  using assms by (simp add: skip_id json_space_def Let_def quote_def)

lemma all_back: "value_back x" "elems_back xs" "props_back ps"
proof (induction x and xs and ps rule: stringify_stringify_elems_stringify_props.induct)
  case (3 i)
  show ?case
  proof (intro allI impI)
    fix n r assume "delimited r" and len: "length (stringify (JNum i)) \<le> n"
    moreover obtain c t where ct: "int_digits i @ r = c # t"
      using int_digits_first(2) [of i] by (cases "int_digits i @ r") auto
    moreover have "first_tag c = 6" using int_digits_first(1) [of i r] ct by simp
    moreover obtain m where "n = Suc m" using len int_digits_first(2) [of i] by (cases n) auto
    ultimately show "json_value n (stringify (JNum i) @ r) = Some (JNum i, r)"
      using json_value_number [of c t i r m] json_number_int [of r i] by simp
  qed
next
  case (6 x xs)
  from elems_step [OF 6] have rb: "elems_back (x # xs)" .
  show ?case
  proof (intro allI impI)
    fix n r assume len: "length (stringify (JArr (x # xs))) \<le> n"
    then obtain m where n: "n = Suc m" by (cases n) auto
    have "json_elems m (tl (stringify_elems (x # xs)) @ r) = Some (x # xs, r)"
      by (rule rb [rule_format]) (use len n in simp_all)
    then show "json_value n (stringify (JArr (x # xs)) @ r) = Some (JArr (x # xs), r)"
      using json_value_list [of m x "stringify_elems xs @ r"] n by simp
  qed
next
  case (8 k x ps)
  from props_step [OF 8] have rb: "props_back ((k, x) # ps)" .
  show ?case
  proof (intro allI impI)
    fix n r assume len: "length (stringify (JObj ((k, x) # ps))) \<le> n"
    then obtain m where n: "n = Suc m" by (cases n) auto
    have "json_props m (tl (stringify_props ((k, x) # ps)) @ r) = Some ((k, x) # ps, r)"
      by (rule rb [rule_format]) (use len n in simp_all)
    then show "json_value n (stringify (JObj ((k, x) # ps)) @ r) = Some (JObj ((k, x) # ps), r)"
      using json_value_object [of m k "'':'' @ stringify x @ stringify_props ps @ r"] n by simp
  qed
next
  case (10 x xs)
  then show ?case by (rule elems_step)
next
  case (12 k x ps)
  then show ?case by (rule props_step)
next
  case (4 s)
  show ?case
  proof (intro allI impI)
    fix n r assume "length (stringify (JStr s)) \<le> n"
    then obtain m where "n = Suc m" by (cases n) (auto simp: quote_def)
    then show "json_value n (stringify (JStr s) @ r) = Some (JStr s, r)"
      by (simp add: quote_def json_string_quote)
  qed
qed (auto simp: skip_id json_space_def json_word_def Let_def dest!: Suc_le_D split: if_splits)

lemma parse_stringify [simp]: "json_parse (stringify x) = Some x"
proof -
  have "json_value (Suc (length (stringify x))) (stringify x @ []) = Some (x, [])"
    by (rule all_back(1) [rule_format]) (simp_all add: delimited_def)
  then show ?thesis by (simp add: json_parse_def del: json_value.simps)
qed

end
