(* ===== verification/ProxyToken.thy ===== *)
theory ProxyToken
  imports Control PosixPath JsonParse
begin

text \<open>
  \<open>ProxyTokenService\<close> (auth/proxy-token.service.ts): signed tokens of the form payload, dot,
  signature, both base64url. HMAC-SHA256 is a parameter that maps a secret and a text to bytes.
  Base64url and its lenient decoder are modelled; decoded bytes that are no UTF-8 text of code units
  below 256 count as a text that does not parse. The message of a JSON syntax error is a parameter.
  The theorems show that a signed token verifies until it expires, that acceptance needs the
  signature, and that parts after the second dot are not looked at.
\<close>

section \<open>Base64url\<close>

definition b64_char :: "nat \<Rightarrow> char" where
  "b64_char v =
     (if v < 26 then char_of (v + 65) else if v < 52 then char_of (v + 71)
      else if v < 62 then char_of (v - 4) else if v = 62 then CHR ''-'' else CHR ''_'')"

text \<open>The decoder takes both alphabets and skips every other character.\<close>

definition b64_val :: "char \<Rightarrow> nat option" where
  "b64_val c =
     (let n = of_char c in
      if 65 \<le> n \<and> n \<le> 90 then Some (n - 65)
      else if 97 \<le> n \<and> n \<le> 122 then Some (n - 71)
      else if 48 \<le> n \<and> n \<le> 57 then Some (n + 4)
      else if n = 45 \<or> n = 43 then Some 62
      else if n = 95 \<or> n = 47 then Some 63 else None)"

fun sextets :: "nat list \<Rightarrow> nat list" where
  "sextets [] = []"
| "sextets [a] = [a div 4, a mod 4 * 16]"
| "sextets [a, b] = [a div 4, a mod 4 * 16 + b div 16, b mod 16 * 4]"
| "sextets (a # b # c # r) =
     [a div 4, a mod 4 * 16 + b div 16, b mod 16 * 4 + c div 64, c mod 64] @ sextets r"

fun octets :: "nat list \<Rightarrow> nat list" where
  "octets (a # b # c # d # r) = [a * 4 + b div 16, b mod 16 * 16 + c div 4, c mod 4 * 64 + d] @ octets r"
| "octets [a, b, c] = [a * 4 + b div 16, b mod 16 * 16 + c div 4]"
| "octets [a, b] = [a * 4 + b div 16]"
| "octets _ = []"

definition b64_encode :: "nat list \<Rightarrow> string" where
  "b64_encode bs = map b64_char (sextets bs)"

definition b64_decode :: "string \<Rightarrow> nat list" where
  "b64_decode s = octets (List.map_filter b64_val s)"

definition utf8_text :: "nat list \<Rightarrow> string option" where
  "utf8_text bs = decode_parts (map Byte bs)"

section \<open>The service\<close>

record proxyTokenPayload =
  pt_sub :: string
  pt_aud :: string
  pt_sandboxId :: string
  pt_sandbox :: string
  pt_runtimeId :: string
  pt_exp :: int

definition payload_json :: "proxyTokenPayload \<Rightarrow> json" where
  "payload_json p =
     JObj [(''sub'', JStr (pt_sub p)), (''aud'', JStr (pt_aud p)), (''sandboxId'', JStr (pt_sandboxId p)),
           (''sandbox'', JStr (pt_sandbox p)), (''runtimeId'', JStr (pt_runtimeId p)), (''exp'', JNum (pt_exp p))]"

definition base64Url :: "string \<Rightarrow> string" where
  "base64Url s = b64_encode (utf8 s)"

definition signPayload :: "config \<Rightarrow> (string \<Rightarrow> string \<Rightarrow> nat list) \<Rightarrow> string \<Rightarrow> string" where
  "signPayload cfg hmac payload = b64_encode (hmac (proxyTokenSecret cfg) payload)"

definition signatureEquals :: "string \<Rightarrow> string \<Rightarrow> bool" where
  "signatureEquals actual expected =
     (let a = utf8 actual; e = utf8 expected in length a = length e \<and> a = e)"

definition proxy_sign ::
  "'v io \<Rightarrow> (string \<Rightarrow> string \<Rightarrow> nat list) \<Rightarrow> string \<Rightarrow> string \<Rightarrow> string \<Rightarrow> ('v sys, string \<times> string) eff" where
  "proxy_sign io hmac sandboxId runtimeId sandbox =
     bnd (dateNow io) (\<lambda>now.
     let expiresAt = now + connectionTtlSeconds (io_config io) * 1000;
         payload = \<lparr>pt_sub = sandboxId, pt_aud = ''microsandbox-cloud-proxy'', pt_sandboxId = sandboxId,
                    pt_sandbox = sandbox, pt_runtimeId = runtimeId, pt_exp = expiresAt div 1000\<rparr>;
         encodedPayload = base64Url (stringify (payload_json payload));
         signature = signPayload (io_config io) hmac encodedPayload
     in if \<not> valid_date expiresAt then throw (JsError ''Invalid time value'')
        else ret (encodedPayload @ ''.'' @ signature, toISOString expiresAt))"

text \<open>\<open>payload.key\<close> on a parsed value: the last of several entries counts.\<close>

definition prop_of :: "json \<Rightarrow> string \<Rightarrow> exn + json option" where
  "prop_of j key =
     (case j of
        JObj ps \<Rightarrow> Inr (map_of (rev ps) key)
      | JNull \<Rightarrow> Inl (JsError (''Cannot read properties of null (reading '' @ [CHR 0x27] @ key @ [CHR 0x27] @ '')''))
      | _ \<Rightarrow> Inr None)"

definition check_payload :: "'v io \<Rightarrow> string \<Rightarrow> json \<Rightarrow> ('v sys, json) eff" where
  "check_payload io sandboxId payload =
     bnd (lift_sum (prop_of payload ''aud'')) (\<lambda>aud.
     if aud \<noteq> Some (JStr ''microsandbox-cloud-proxy'') then throw (JsError ''audience_mismatch'')
     else bnd (lift_sum (prop_of payload ''sandboxId'')) (\<lambda>sid.
     bnd (lift_sum (prop_of payload ''sub'')) (\<lambda>sub.
     if sid \<noteq> Some (JStr sandboxId) \<or> sub \<noteq> Some (JStr sandboxId) then throw (JsError ''sandbox_id_mismatch'')
     else bnd (lift_sum (prop_of payload ''exp'')) (\<lambda>exp.
     case exp of
       Some (JNum n) \<Rightarrow>
         bnd (dateNow io) (\<lambda>now. if n \<le> now div 1000 then throw (JsError ''expired_token'') else ret payload)
     | _ \<Rightarrow> throw (JsError ''expired_token'')))))"

definition proxy_verify ::
  "'v io \<Rightarrow> (string \<Rightarrow> string \<Rightarrow> nat list) \<Rightarrow> (string \<Rightarrow> string) \<Rightarrow> string \<Rightarrow> string \<Rightarrow> ('v sys, json) eff" where
  "proxy_verify io hmac syntax_error token sandboxId =
     catching
       (case split_on CHR ''.'' token of
          encodedPayload # signature # _ \<Rightarrow>
            if encodedPayload = [] \<or> signature = [] then throw (JsError ''malformed_token'')
            else
              (let expected = signPayload (io_config io) hmac encodedPayload in
               if \<not> signatureEquals signature expected then throw (JsError ''bad_signature'')
               else
                 (case utf8_text (b64_decode encodedPayload) of
                    None \<Rightarrow> throw (JsError (syntax_error encodedPayload))
                  | Some txt \<Rightarrow>
                      (case json_parse txt of
                         None \<Rightarrow> throw (JsError (syntax_error txt))
                       | Some payload \<Rightarrow> check_payload io sandboxId payload)))
        | _ \<Rightarrow> throw (JsError ''malformed_token''))
       (\<lambda>error. throw (UnauthorizedException (''Invalid proxy token: '' @ errorMessage error)))"

section \<open>Base64url round trip\<close>

lemma b64_val_char: "v < 64 \<Longrightarrow> b64_val (b64_char v) = Some v"
proof -
  assume v: "v < 64"
  consider "v < 26" | "26 \<le> v" "v < 52" | "52 \<le> v" "v < 62" | "v = 62" | "v = 63" using v by linarith
  then show ?thesis
  proof cases
    case 3
    define w where "w = v - 4"
    from 3 have w: "v = w + 4" "48 \<le> w" "w \<le> 57" by (simp_all add: w_def)
    then have "of_char (b64_char v) = w" by (simp add: b64_char_def)
    with w show ?thesis by (simp add: b64_val_def Let_def)
  qed (simp_all add: b64_val_def b64_char_def Let_def)
qed

lemma sextets_small: "\<forall>b \<in> set bs. b < 256 \<Longrightarrow> \<forall>v \<in> set (sextets bs). v < 64"
  by (induction bs rule: sextets.induct) (auto; linarith)+

lemma pack: "y < k \<Longrightarrow> (x * k + y) div k = x \<and> (x * k + y) mod k = (y::nat)"
  by simp

lemma regroup:
  fixes a b c :: nat
  shows "b < 256 \<Longrightarrow> a div 4 * 4 + (a mod 4 * 16 + b div 16) div 16 = a"
    and "b < 256 \<Longrightarrow> c < 256 \<Longrightarrow> (a mod 4 * 16 + b div 16) mod 16 * 16 + (b mod 16 * 4 + c div 64) div 4 = b"
    and "c < 256 \<Longrightarrow> (b mod 16 * 4 + c div 64) mod 4 * 64 + c mod 64 = c"
proof -
  have b: "b div 16 < 16" if "b < 256" using that by (simp add: less_mult_imp_div_less)
  have c: "c div 64 < 4" if "c < 256" using that by (simp add: less_mult_imp_div_less)
  show "b < 256 \<Longrightarrow> a div 4 * 4 + (a mod 4 * 16 + b div 16) div 16 = a"
    using pack [OF b, of "a mod 4"] by (simp del: div_mult_self3 div_mult_self4)
  show "b < 256 \<Longrightarrow> c < 256 \<Longrightarrow> (a mod 4 * 16 + b div 16) mod 16 * 16 + (b mod 16 * 4 + c div 64) div 4 = b"
    using pack [OF b, of "a mod 4"] pack [OF c, of "b mod 16"] by simp
  show "c < 256 \<Longrightarrow> (b mod 16 * 4 + c div 64) mod 4 * 64 + c mod 64 = c"
    using pack [OF c, of "b mod 16"] by simp
qed

lemma octets_sextets: "\<forall>b \<in> set bs. b < 256 \<Longrightarrow> octets (sextets bs) = bs"
proof (induction bs rule: sextets.induct)
  case (4 a b c r)
  then show ?case using regroup(1) [of b a] regroup(2) [of b c a] regroup(3) [of c b] by simp
next
  case (3 a b)
  then show ?case using regroup(1) [of b a] regroup(2) [of b 0 a] by simp
next
  case (2 a)
  then show ?case using regroup(1) [of 0 a] by simp
qed simp

lemma decode_encode_b64: "\<forall>b \<in> set bs. b < 256 \<Longrightarrow> b64_decode (b64_encode bs) = bs"
proof -
  assume bs: "\<forall>b \<in> set bs. b < 256"
  have "List.map_filter b64_val (map b64_char vs) = vs" if "\<forall>v \<in> set vs. v < 64" for vs
    using that by (induction vs) (simp_all add: List.map_filter_simps b64_val_char)
  from this [OF sextets_small [OF bs]] show ?thesis
    by (simp add: b64_decode_def b64_encode_def octets_sextets [OF bs])
qed

lemma utf8_bytes: "\<forall>b \<in> set (utf8 s). b < 256"
  using utf8_char_bytes by (auto simp: utf8_def)

lemma utf8_text_utf8: "utf8_text (utf8 s) = Some s"
proof -
  have "decode_parts (map Byte (utf8_char c) @ ps) = map_option (Cons c) (decode_parts ps)" for c ps
  proof (cases "uri_unreserved c")
    case False
    then show ?thesis using decode_parts_of [of c ps] by (simp add: parts_of_def)
  next
    case True
    then have "(of_char c :: nat) < 128"
      by (auto simp: uri_unreserved_def is_lower_az_def is_upper_az_def is_digit_def)
    then show ?thesis by (simp add: utf8_char_def Let_def)
  qed
  then show ?thesis by (induction s) (simp_all add: utf8_text_def utf8_def)
qed

lemma base64Url_back: "utf8_text (b64_decode (base64Url s)) = Some s"
  by (simp add: base64Url_def decode_encode_b64 [OF utf8_bytes] utf8_text_utf8)

lemma b64_no_dot: "\<forall>b \<in> set bs. b < 256 \<Longrightarrow> CHR ''.'' \<notin> set (b64_encode bs)"
proof
  assume bs: "\<forall>b \<in> set bs. b < 256" and dot: "CHR ''.'' \<in> set (b64_encode bs)"
  then obtain v where "v \<in> set (sextets bs)" "b64_char v = CHR ''.''" by (auto simp: b64_encode_def)
  moreover have "b64_val (CHR ''.'') = None" by code_simp
  ultimately show False using sextets_small [OF bs] b64_val_char [of v] by simp
qed

lemma b64_encode_Nil: "b64_encode bs = [] \<longleftrightarrow> bs = []"
  by (cases bs rule: sextets.cases) (simp_all add: b64_encode_def)

lemma signatureEquals_iff [simp]: "signatureEquals a b \<longleftrightarrow> a = b"
  by (auto simp: signatureEquals_def Let_def)

section \<open>Properties\<close>

text \<open>The body of \<open>verify\<close> on the two parts it looks at.\<close>

definition verify_parts ::
  "'v io \<Rightarrow> (string \<Rightarrow> string \<Rightarrow> nat list) \<Rightarrow> (string \<Rightarrow> string) \<Rightarrow> string \<Rightarrow> string \<Rightarrow> string \<Rightarrow> ('v sys, json) eff" where
  "verify_parts io hmac syntax_error enc sig sandboxId =
     (if enc = [] \<or> sig = [] then throw (JsError ''malformed_token'')
      else if sig \<noteq> signPayload (io_config io) hmac enc then throw (JsError ''bad_signature'')
      else (case utf8_text (b64_decode enc) of
              None \<Rightarrow> throw (JsError (syntax_error enc))
            | Some txt \<Rightarrow>
                (case json_parse txt of
                   None \<Rightarrow> throw (JsError (syntax_error txt))
                 | Some payload \<Rightarrow> check_payload io sandboxId payload)))"

lemma verify_split:
  assumes "split_on CHR ''.'' token = enc # sig # rest"
  shows "proxy_verify io hmac se token sid =
    catching (verify_parts io hmac se enc sig sid)
      (\<lambda>error. throw (UnauthorizedException (''Invalid proxy token: '' @ errorMessage error)))"
  by (simp add: proxy_verify_def assms verify_parts_def Let_def)

lemma verify_Inr:
  assumes "proxy_verify io hmac se token sid s = (Inr payload, t)"
  obtains enc sig rest where "split_on CHR ''.'' token = enc # sig # rest"
    and "verify_parts io hmac se enc sig sid s = (Inr payload, t)"
proof -
  consider "split_on CHR ''.'' token = []" | w where "split_on CHR ''.'' token = [w]"
    | enc sig rest where "split_on CHR ''.'' token = enc # sig # rest"
    by (metis neq_Nil_conv)
  then show thesis
  proof cases
    case 3
    with assms that show thesis
      by (auto simp: verify_split [OF 3] catching_run split: prod.splits sum.splits)
  qed (use assms in \<open>simp_all add: proxy_verify_def catching_run\<close>)
qed

lemma guard_Inr: "(if c then throw e else m) s = (Inr x, t) \<longleftrightarrow> \<not> c \<and> m s = (Inr x, t)"
  by simp

lemma case_num_Inr:
  "(case e of Some (JNum n) \<Rightarrow> f n | _ \<Rightarrow> throw err) s = (Inr x, t) \<longleftrightarrow>
   (\<exists>n. e = Some (JNum n) \<and> f n s = (Inr x, t))"
  by (cases e) (auto split: json.splits)

lemma dateNow_Inr: "dateNow io s = (q, t) \<longleftrightarrow> q = Inr (fst (io_now io (ext s))) \<and> t = s\<lparr>ext := snd (io_now io (ext s))\<rparr>"
  by (auto simp: dateNow_def outside_pure_def split: prod.split)

lemma check_payload_Inr:
  "check_payload io sid payload s = (Inr x, t) \<longleftrightarrow>
    x = payload \<and> prop_of payload ''aud'' = Inr (Some (JStr ''microsandbox-cloud-proxy'')) \<and>
    prop_of payload ''sandboxId'' = Inr (Some (JStr sid)) \<and> prop_of payload ''sub'' = Inr (Some (JStr sid)) \<and>
    (\<exists>n. prop_of payload ''exp'' = Inr (Some (JNum n)) \<and> fst (io_now io (ext s)) div 1000 < n) \<and>
    t = s\<lparr>ext := snd (io_now io (ext s))\<rparr>"
  unfolding check_payload_def bnd_Inr lift_sum_run guard_Inr case_num_Inr dateNow_Inr
  by auto

text \<open>C28: a signed token verifies for its sandbox until it expires. The token that \<open>sign\<close> gives is
  accepted for the sandbox it was signed for at every later reading of the clock whose second lies
  before that of the expiry, and the payload is the one that was signed.\<close>

theorem proxy_token_roundtrip:
  assumes "proxy_sign io hmac sandboxId runtimeId sandbox s = (Inr (token, expires), t)"
    and "\<And>k m. hmac k m \<noteq> [] \<and> (\<forall>b \<in> set (hmac k m). b < 256)"
    and "fst (io_now io (ext u)) div 1000 < (fst (io_now io (ext s)) + connectionTtlSeconds (io_config io) * 1000) div 1000"
  shows "proxy_verify io hmac syntax_error token sandboxId u =
    (Inr (payload_json \<lparr>pt_sub = sandboxId, pt_aud = ''microsandbox-cloud-proxy'', pt_sandboxId = sandboxId,
        pt_sandbox = sandbox, pt_runtimeId = runtimeId,
        pt_exp = (fst (io_now io (ext s)) + connectionTtlSeconds (io_config io) * 1000) div 1000\<rparr>),
     u\<lparr>ext := snd (io_now io (ext u))\<rparr>)"
proof -
  define payload where "payload = payload_json \<lparr>pt_sub = sandboxId, pt_aud = ''microsandbox-cloud-proxy'',
    pt_sandboxId = sandboxId, pt_sandbox = sandbox, pt_runtimeId = runtimeId,
    pt_exp = (fst (io_now io (ext s)) + connectionTtlSeconds (io_config io) * 1000) div 1000\<rparr>"
  let ?enc = "base64Url (stringify payload)"
  let ?sig = "signPayload (io_config io) hmac ?enc"
  have "utf8 (stringify payload) \<noteq> []"
    using stringify_first(2) [of payload] utf8_inj [of "stringify payload" "[]"] by (simp add: utf8_def)
  then have enc: "?enc \<noteq> []" "CHR ''.'' \<notin> set ?enc"
    by (simp_all add: base64Url_def b64_encode_Nil b64_no_dot [OF utf8_bytes])
  have sig: "?sig \<noteq> []" "CHR ''.'' \<notin> set ?sig"
    using assms(2) by (simp_all add: signPayload_def b64_encode_Nil b64_no_dot)
  have "token = ?enc @ CHR ''.'' # ?sig"
    using assms(1) by (auto simp: proxy_sign_def bnd_run dateNow_def outside_pure_def Let_def payload_def
        split: prod.splits if_splits)
  then have split: "split_on CHR ''.'' token = ?enc # ?sig # []"
    by (simp add: split_on_append [OF enc(2)] split_on_no_sep [OF sig(2)])
  have "check_payload io sandboxId payload u = (Inr payload, u\<lparr>ext := snd (io_now io (ext u))\<rparr>)"
    unfolding check_payload_Inr using assms(3) by (simp add: payload_def payload_json_def prop_of_def)
  then have "verify_parts io hmac syntax_error ?enc ?sig sandboxId u =
      (Inr payload, u\<lparr>ext := snd (io_now io (ext u))\<rparr>)"
    using enc sig by (simp add: verify_parts_def base64Url_back)
  then show ?thesis
    unfolding verify_split [OF split] payload_def [symmetric] by (simp add: catching_run)
qed

lemma default_ttl: "connectionTtlSeconds empty_config = 600"
  by code_simp

theorem proxy_token_roundtrip_witness:
  "\<exists>token expires payload. fst (proxy_sign (demo_io empty_config) (\<lambda>_ _. [1]) ''box'' ''r1'' ''b'' sys0) = Inr (token, expires) \<and>
     fst (proxy_verify (demo_io empty_config) (\<lambda>_ _. [1]) id token ''box'' sys0) = Inr payload \<and>
     prop_of payload ''exp'' = Inr (Some (JNum 601))"
proof -
  have now: "w_now (ext sys0) = 1000" by (simp add: sys0_def world0_def)
  obtain token expires t where sign: "proxy_sign (demo_io empty_config) (\<lambda>_ _. [1]) ''box'' ''r1'' ''b'' sys0 =
      (Inr (token, expires), t)"
    by (simp add: proxy_sign_def bnd_run dateNow_def outside_pure_def Let_def now default_ttl valid_date_def)
  show ?thesis
    using proxy_token_roundtrip [OF sign, of sys0 id] sign
    by (simp add: now default_ttl payload_json_def prop_of_def)
qed

text \<open>C29: no token is accepted without the signature of its payload under the secret. When \<open>verify\<close>
  accepts, the second part of the token is the signature of the first, the first decodes to the
  payload that is returned, and that payload names the audience and the sandbox and has not
  expired; every refusal is a 401.\<close>

theorem proxy_verify_sound:
  "case proxy_verify io hmac syntax_error token sandboxId s of
     (Inr payload, t) \<Rightarrow>
       (\<exists>enc sig more txt. split_on CHR ''.'' token = enc # sig # more \<and>
          sig = signPayload (io_config io) hmac enc \<and> utf8_text (b64_decode enc) = Some txt \<and>
          json_parse txt = Some payload) \<and>
       prop_of payload ''aud'' = Inr (Some (JStr ''microsandbox-cloud-proxy'')) \<and>
       prop_of payload ''sandboxId'' = Inr (Some (JStr sandboxId)) \<and>
       (\<exists>n. prop_of payload ''exp'' = Inr (Some (JNum n)) \<and> fst (io_now io (ext s)) div 1000 < n)
   | (Inl e, t) \<Rightarrow> \<exists>m. e = UnauthorizedException (''Invalid proxy token: '' @ m)"
proof (cases "proxy_verify io hmac syntax_error token sandboxId s")
  case (Pair q t)
  show ?thesis
  proof (cases q)
    case (Inl e)
    with Pair show ?thesis
      by (auto simp: proxy_verify_def catching_run split: prod.splits sum.splits)
  next
    case (Inr payload)
    with Pair have run: "proxy_verify io hmac syntax_error token sandboxId s = (Inr payload, t)" by simp
    obtain enc sig rest where token: "split_on CHR ''.'' token = enc # sig # rest"
      and parts: "verify_parts io hmac syntax_error enc sig sandboxId s = (Inr payload, t)"
      by (rule verify_Inr [OF run])
    then obtain plain p where "sig = signPayload (io_config io) hmac enc" "utf8_text (b64_decode enc) = Some plain"
      "json_parse plain = Some p" "check_payload io sandboxId p s = (Inr payload, t)"
      by (auto simp: verify_parts_def split: if_splits option.splits)
    with token Pair Inr show ?thesis by (auto simp: check_payload_Inr)
  qed
qed

lemma split_on_parts: "w \<in> set (split_on d s) \<Longrightarrow> d \<notin> set w"
  by (induction s arbitrary: w) (auto split: if_splits list.splits)

text \<open>Parts after the second are not looked at, so a valid token has many spellings: a token with
  at least one dot verifies exactly as its first two parts alone.\<close>

theorem proxy_verify_ignores_tail:
  assumes "split_on CHR ''.'' token = enc # sig # rest"
  shows "proxy_verify io hmac syntax_error token sandboxId =
    proxy_verify io hmac syntax_error (enc @ CHR ''.'' # sig) sandboxId"
proof -
  have "CHR ''.'' \<notin> set enc" "CHR ''.'' \<notin> set sig" using split_on_parts [of _ "CHR ''.''" token] assms by simp_all
  then have "split_on CHR ''.'' (enc @ CHR ''.'' # sig) = enc # sig # []"
    by (simp add: split_on_append split_on_no_sep)
  then show ?thesis by (simp only: verify_split [OF assms] verify_split)
qed

theorem proxy_verify_ignores_tail_witness:
  "proxy_verify (demo_io empty_config) (\<lambda>_ _. [1]) id ''a.b.c.d'' ''box'' = proxy_verify (demo_io empty_config) (\<lambda>_ _. [1]) id ''a.b'' ''box''"
  using proxy_verify_ignores_tail [of "''a.b.c.d''" "''a''" "''b''" "[''c'', ''d'']"] by simp

end
