(* ===== verification/Bounds_Safety.thy ===== *)
theory Bounds_Safety
  imports Controller
begin

text \<open>
  The bounds of the request classes hold for every stored sandbox: at least one CPU, 128 MiB of
  memory, 1 GiB of disk, container ports from 1 on, and an auto-stop time that is positive when there
  is one. A request out of bounds is refused by the validation pipe; the theorem shows that no
  request that is let through brings a row out of bounds, when the configured defaults are in them.
\<close>

section \<open>Values in bounds\<close>

definition defaults_in_bounds :: "config \<Rightarrow> bool" where
  "defaults_in_bounds cfg \<longleftrightarrow>
     1 \<le> defaultCpu cfg \<and> 128 \<le> defaultMemoryMiB cfg \<and> 1 \<le> defaultDiskGiB cfg \<and> 1 \<le> defaultExposedPort cfg"

definition ports_in_bounds :: "portBinding list \<Rightarrow> bool" where
  "ports_in_bounds bs \<longleftrightarrow> (\<forall>b \<in> set bs. 1 \<le> pb_containerPort b)"

definition spec_in_bounds :: "runtimeSpec \<Rightarrow> bool" where
  "spec_in_bounds spec \<longleftrightarrow>
     1 \<le> re_cpu (rs_resources spec) \<and> 128 \<le> re_memoryMiB (rs_resources spec) \<and>
     1 \<le> re_diskGiB (rs_resources spec) \<and> ports_in_bounds (rs_ports spec) \<and> at_least 1 (rs_autoStopMinutes spec)"

definition row_in_bounds :: "runtimeEntity \<Rightarrow> bool" where
  "row_in_bounds r \<longleftrightarrow>
     1 \<le> rt_cpu r \<and> 128 \<le> rt_memoryMiB r \<and> 1 \<le> rt_diskGiB r \<and>
     ports_in_bounds (rt_portBindings r) \<and> at_least 1 (rt_autoStopMinutes r)"

definition rows_inv :: "'v sys \<Rightarrow> bool" where
  "rows_inv s \<longleftrightarrow> tables_ok s \<and> (\<forall>r \<in> set (runtimes s). row_in_bounds r)"

lemma row_in_bounds_simps [simp]:
  "row_in_bounds (r\<lparr>rt_name := n\<rparr>) = row_in_bounds r" "row_in_bounds (r\<lparr>rt_status := st\<rparr>) = row_in_bounds r"
  "row_in_bounds (r\<lparr>rt_statusReason := sr\<rparr>) = row_in_bounds r"
  "row_in_bounds (r\<lparr>rt_lastActiveAt := la\<rparr>) = row_in_bounds r"
  "row_in_bounds (runtime_touch c r) = row_in_bounds r" "row_in_bounds (runtime_stamp i c r) = row_in_bounds r"
  by (simp_all add: row_in_bounds_def runtime_touch_def runtime_stamp_def)

lemma merge_ports_bounds: "ports_in_bounds (merge_ports es ls bs) = ports_in_bounds bs"
  by (induction es ls bs rule: merge_ports.induct) (simp_all add: ports_in_bounds_def)

lemma copy_spec_bounds:
  "spec_in_bounds spec \<Longrightarrow> ports_in_bounds (rt_portBindings r) \<Longrightarrow> row_in_bounds (copy_spec spec r)"
  by (simp add: spec_in_bounds_def row_in_bounds_def copy_spec_def)

lemma new_row_bounds: "spec_in_bounds spec \<Longrightarrow> row_in_bounds (new_row sid name vm spec p tok now)"
  by (simp add: spec_in_bounds_def row_in_bounds_def new_row_def ports_in_bounds_def)

lemma buildSpec_bounds:
  assumes "buildSpec io input s = (Inr spec, t)" and "valid_spec input" and "defaults_in_bounds (io_config io)"
  shows "spec_in_bounds spec"
proof -
  have ports: "ports_in_bounds (resolvePorts (io_config io) (in_ports input) (in_primaryPort input))"
    using assms(2,3) unfolding ports_in_bounds_def resolvePorts_def valid_spec_def defaults_in_bounds_def
    by (auto simp: list_all_iff valid_port_def or_else_def split: option.splits)
  have "ports_in_bounds (rs_ports spec) \<and> at_least 1 (rs_autoStopMinutes spec)"
    by (rule buildSpec_run [OF assms(1)])
      (use ports in \<open>auto simp: ports_in_bounds_def Let_def ssh_binding_def at_least_def split: option.splits\<close>)
  moreover have "rs_resources spec =
     (let cfg = io_config io; res = in_resources input in
            \<lparr>re_cpu = or_else (case res of None \<Rightarrow> None | Some x \<Rightarrow> rd_cpu x) (defaultCpu cfg),
             re_memoryMiB = or_else (case res of None \<Rightarrow> None | Some x \<Rightarrow> rd_memoryMiB x) (defaultMemoryMiB cfg),
             re_diskGiB = or_else (case res of None \<Rightarrow> None | Some x \<Rightarrow> rd_diskGiB x) (defaultDiskGiB cfg)\<rparr>)"
    using assms(1) unfolding buildSpec_def Let_def by (elim bnd_InrE) (auto split: prod.splits)
  moreover have "1 \<le> re_cpu (rs_resources spec) \<and> 128 \<le> re_memoryMiB (rs_resources spec) \<and>
      1 \<le> re_diskGiB (rs_resources spec)"
    if "rs_resources spec =
      \<lparr>re_cpu = or_else (case in_resources input of None \<Rightarrow> None | Some x \<Rightarrow> rd_cpu x) (defaultCpu (io_config io)),
       re_memoryMiB = or_else (case in_resources input of None \<Rightarrow> None | Some x \<Rightarrow> rd_memoryMiB x) (defaultMemoryMiB (io_config io)),
       re_diskGiB = or_else (case in_resources input of None \<Rightarrow> None | Some x \<Rightarrow> rd_diskGiB x) (defaultDiskGiB (io_config io))\<rparr>"
    unfolding that
    by (cases "in_resources input") (use assms(2,3) in \<open>simp_all add: valid_spec_def valid_resources_def
      at_least_def defaults_in_bounds_def or_else_def split: option.splits\<close>)
  ultimately show ?thesis by (simp add: spec_in_bounds_def Let_def)
qed

lemma at_least_or: "at_least n (or_opt a b) \<longleftrightarrow> (case a of None \<Rightarrow> at_least n b | Some k \<Rightarrow> n \<le> k)"
  by (simp add: at_least_def or_opt_def split: option.split)

lemma update_input_valid:
  assumes "row_in_bounds r" and "valid_spec input"
  shows "valid_spec (buildUpdateInput r input)"
proof -
  let ?u = "buildUpdateInput r input"
  have "in_primaryPort ?u = None" by (simp add: buildUpdateInput_def)
  moreover have "list_all valid_port (or_nil (in_ports ?u))"
    using assms by (cases "in_ports input")
      (auto simp: buildUpdateInput_def list_all_iff valid_port_def valid_spec_def row_in_bounds_def ports_in_bounds_def)
  moreover have "\<exists>q. in_resources ?u = Some q \<and> valid_resources q"
  proof -
    have "at_least k (Some (or_else (case in_resources input of None \<Rightarrow> None | Some x \<Rightarrow> f x) d))"
      if "k \<le> d" "\<And>q. in_resources input = Some q \<Longrightarrow> at_least k (f q)" for k d f
      using that by (auto simp: at_least_def or_else_def split: option.splits)
    moreover have "at_least 1 (rd_cpu q) \<and> at_least 128 (rd_memoryMiB q) \<and> at_least 1 (rd_diskGiB q)"
      if "in_resources input = Some q" for q
      using assms(2) that by (simp add: valid_spec_def valid_resources_def)
    ultimately show ?thesis
      using assms(1) by (simp add: buildUpdateInput_def Let_def valid_resources_def row_in_bounds_def)
  qed
  moreover have "at_least 0 (in_autoStopMinutes ?u)"
    using assms by (auto simp: buildUpdateInput_def at_least_or valid_spec_def row_in_bounds_def at_least_def split: option.splits)
  ultimately show ?thesis by (auto simp: valid_spec_def)
qed

section \<open>Methods that keep the bounds\<close>

text \<open>\<open>sized Q m\<close>: the method keeps the rows in bounds, and its result has \<open>Q\<close>.\<close>

definition sized :: "('a \<Rightarrow> bool) \<Rightarrow> ('v sys, 'a) eff \<Rightarrow> bool" where
  "sized Q m \<longleftrightarrow> post rows_inv m (\<lambda>x s. rows_inv s \<and> Q x) (\<lambda>_. rows_inv)"

named_theorems sized_intros \<open>rules that carry the bounds through a method\<close>

lemma sized_bnd:
  assumes "sized R m" and "\<And>x. R x \<Longrightarrow> sized Q (f x)"
  shows "sized Q (bnd m f)"
  unfolding sized_def
proof (rule post_bnd [OF assms(1) [unfolded sized_def]])
  fix x
  show "post (\<lambda>s. rows_inv s \<and> R x) (f x) (\<lambda>x s. rows_inv s \<and> Q x) (\<lambda>_. rows_inv)"
    using assms(2) [of x] by (cases "R x") (simp_all add: sized_def post_def)
qed

lemma sized_any: "sized R m \<Longrightarrow> (\<And>x. sized Q (f x)) \<Longrightarrow> sized Q (bnd m f)"
  by (rule sized_bnd)

lemma sized_weaken: "sized Q m \<Longrightarrow> (\<And>x. Q x \<Longrightarrow> Q' x) \<Longrightarrow> sized Q' m"
  unfolding sized_def by (erule post_weaken) auto

lemma sized_ret: "Q x \<Longrightarrow> sized Q (ret x)"
  by (simp add: sized_def post_ret)

lemma sized_throw: "sized Q (throw e)"
  by (simp add: sized_def post_throw)

lemma sized_lift: "(\<And>x. r = Inr x \<Longrightarrow> Q x) \<Longrightarrow> sized Q (lift_sum r)"
  by (auto simp: sized_def intro: post_lift_sum)

lemma sized_catching: "sized Q m \<Longrightarrow> (\<And>e. sized Q (h e)) \<Longrightarrow> sized Q (catching m h)"
  unfolding sized_def by (rule post_catching)

lemma sized_if: "(b \<Longrightarrow> sized Q m) \<Longrightarrow> (\<not> b \<Longrightarrow> sized Q n) \<Longrightarrow> sized Q (if b then m else n)"
  by simp

lemma sized_option:
  "(x = None \<Longrightarrow> sized Q m) \<Longrightarrow> (\<And>y. x = Some y \<Longrightarrow> sized Q (f y)) \<Longrightarrow>
   sized Q (case x of None \<Rightarrow> m | Some y \<Rightarrow> f y)"
  by (cases x) auto

lemma sized_prod: "(\<And>a b. x = (a, b) \<Longrightarrow> sized Q (f a b)) \<Longrightarrow> sized Q (case x of (a, b) \<Rightarrow> f a b)"
  by (cases x) auto

lemma sized_when: "(b \<Longrightarrow> sized Q m) \<Longrightarrow> Q () \<Longrightarrow> sized Q (when_eff b m)"
  by (auto simp: when_eff_def sized_ret)

text \<open>A method that leaves the runtimes and leases alone.\<close>

lemma sized_frame:
  fixes m :: "('v sys, 'a) eff"
  assumes "\<And>R L. keeps (ports_frame R L) m"
  shows "sized (\<lambda>_. True) m"
proof -
  have "keeps rows_inv m"
  proof (rule keepsI)
    fix s r t assume s: "rows_inv s" and run: "m s = (r, t)"
    have "ports_frame (runtimes s) (leases s) s" using s by (simp add: ports_frame_def rows_inv_def)
    from keepsD [OF assms this run] s show "rows_inv t" by (simp add: ports_frame_def rows_inv_def)
  qed
  from post_keeps [OF this] show ?thesis by (simp add: sized_def)
qed

context database begin

lemma sized_find: "sized (\<lambda>r. \<forall>x. r = Some x \<longrightarrow> row_in_bounds x) (runtime_findOne io p)"
  unfolding sized_def
  by (rule postI) (auto simp: runtime_findOne_def rows_inv_def dest!: rt.findOne_Some)

lemma sized_save: "row_in_bounds r \<Longrightarrow> sized row_in_bounds (runtime_save io r)"
  unfolding sized_def
proof (rule postI)
  fix s x t assume r: "row_in_bounds r" and s: "rows_inv s" and run: "runtime_save io r s = (Inr x, t)"
  have ok: "tables_ok t" using keepsD [OF keeps_tables_insert(2) _ run] s by (simp add: rows_inv_def)
  show "rows_inv t \<and> row_in_bounds x"
  proof (cases rule: rt.save_cases [of "runtimes s" r])
    case (ok c)
    then show ?thesis using run r s \<open>tables_ok t\<close>
      by (auto simp: runtime_save_def rows_inv_def replace_row_def)
  next
    case (absent c)
    then show ?thesis using run r s \<open>tables_ok t\<close> by (auto simp: runtime_save_def rows_inv_def)
  next
    case (clash e)
    with run show ?thesis by (simp add: runtime_save_def)
  qed
next
  fix s e t assume s: "rows_inv s" and run: "runtime_save io r s = (Inl e, t)"
  then show "rows_inv t"
    by (cases rule: rt.save_cases [of "runtimes s" r]) (auto simp: runtime_save_def)
qed

lemma sized_insert: "row_in_bounds r \<Longrightarrow> sized row_in_bounds (runtime_insert io r)"
  unfolding sized_def
proof (rule postI)
  fix s x t assume r: "row_in_bounds r" and s: "rows_inv s" and run: "runtime_insert io r s = (Inr x, t)"
  have ok: "tables_ok t" using keepsD [OF keeps_tables_insert(1) _ run] s by (simp add: rows_inv_def)
  show "rows_inv t \<and> row_in_bounds x"
    by (cases rule: rt.insert_cases [of "runtimes s" r])
      (use run r s ok in \<open>auto simp: runtime_insert_def rows_inv_def\<close>)
next
  fix s e t assume s: "rows_inv s" and run: "runtime_insert io r s = (Inl e, t)"
  then show "rows_inv t"
    by (cases rule: rt.insert_cases [of "runtimes s" r]) (auto simp: runtime_insert_def)
qed

text \<open>Methods that only remove rows, or change the leases alone.\<close>

lemma sized_subset:
  fixes m :: "('v sys, 'a) eff"
  assumes "keeps tables_ok m" and "\<And>s r t. m s = (r, t) \<Longrightarrow> set (runtimes t) \<subseteq> set (runtimes s)"
  shows "sized (\<lambda>_. True) m"
proof -
  have "keeps rows_inv m"
    by (rule keepsI) (use assms in \<open>fastforce simp: rows_inv_def dest: keepsD\<close>)
  from post_keeps [OF this] show ?thesis by (simp add: sized_def)
qed

lemma sized_leases:
  "sized (\<lambda>_. True) (lease_delete io p)" "sized (\<lambda>_. True) (releasePorts io rid)"
  "sized (\<lambda>_. True) (deleteRuntime io r)"
proof -
  show "sized (\<lambda>_. True) (lease_delete io p)"
    by (rule sized_subset, intro keeps_intros) (auto simp: lease_delete_def)
  then show "sized (\<lambda>_. True) (releasePorts io rid)"
    by (rule_tac sized_subset, unfold releasePorts_def, intro keeps_intros) (auto simp: lease_delete_def)
  show "sized (\<lambda>_. True) (deleteRuntime io r)"
    by (rule sized_subset, intro keeps_intros) (auto simp: deleteRuntime_run)
qed

lemma sized_leasePorts: "sized (\<lambda>_. True) (leasePorts io rid n)"
proof (rule sized_subset)
  show "keeps tables_ok (leasePorts io rid n)" by (intro keeps_intros)
  fix s r t assume run: "leasePorts io rid n s = (r, t)"
  obtain new where "lease_loop io rid n (portRangeStart (io_config io)) [] s =
      (Inr (take (nat n - length ([]::int list)) (free_from (leases s) (portRangeStart (io_config io)) (portRangeEnd (io_config io)))),
       s\<lparr>leases := leases s @ new\<rparr>)"
    using lease_loop_run [of rid n "[]" s "portRangeStart (io_config io)"] by auto
  with run show "set (runtimes t) \<subseteq> set (runtimes s)"
    by (auto simp: leasePorts_def bnd_run lease_delete_def split: if_splits)
qed

text \<open>Steps whose result does not matter.\<close>

lemma sized_step:
  fixes m :: "('v sys, 'a) eff"
  assumes "\<And>R L. keeps (ports_frame R L) m" and "\<And>x. sized Q (f x)"
  shows "sized Q (bnd m f)"
  by (rule sized_bnd [OF sized_frame [OF assms(1)] assms(2)])

lemma sized_check: "(\<And>x. r = Inr x \<Longrightarrow> sized Q (f x)) \<Longrightarrow> sized Q (bnd (lift_sum r) f)"
  by (rule sized_bnd [OF sized_lift]) auto

text \<open>The registry and the look-ups of the service.\<close>

lemma sized_update: "row_in_bounds (f r) \<Longrightarrow> sized row_in_bounds (updateRuntime io r f)"
  unfolding updateRuntime_def by (rule sized_save)

lemma sized_findId: "sized (\<lambda>r. \<forall>x. r = Some x \<longrightarrow> row_in_bounds x) (findRuntimeBySandboxId io x)"
  unfolding findRuntimeBySandboxId_def by (rule sized_check) (rule sized_find)

lemma sized_require: "sized row_in_bounds (requireRuntime io x)"
  unfolding requireRuntime_def findRuntimeBySandboxIdOrName_def
  by (rule sized_bnd [OF sized_check [OF sized_find]]) (auto split: option.split intro: sized_ret sized_throw)

lemma sized_sync: "row_in_bounds r \<Longrightarrow> sized row_in_bounds (syncStatus io r)"
  unfolding syncStatus_def Let_def
  by (rule sized_step, intro keeps_intros) (auto intro!: sized_if sized_update sized_ret)

lemma sized_running: "sized row_in_bounds (requireRunningRuntime io x)"
  unfolding requireRunningRuntime_def
  by (rule sized_bnd [OF sized_bnd [OF sized_require sized_sync]]) (auto intro!: sized_if sized_throw sized_ret)

lemma sized_previewable: "sized row_in_bounds (ensurePreviewable io x p)"
  unfolding ensurePreviewable_def
  by (rule sized_bnd [OF sized_running]) (auto intro: sized_check sized_ret)

lemma sized_touch: "row_in_bounds r \<Longrightarrow> sized row_in_bounds (touchActivity io r)"
  unfolding touchActivity_def by (rule sized_step, intro keeps_intros) (auto intro: sized_update)

lemma sized_status: "row_in_bounds r \<Longrightarrow> sized row_in_bounds (setRuntimeStatus io r st rs)"
  unfolding setRuntimeStatus_def by (rule sized_step, intro keeps_intros) (auto intro: sized_update)

section \<open>Provisioning\<close>

lemma sized_assign:
  "ports_in_bounds ports \<Longrightarrow> sized ports_in_bounds (assign_ports io r ports)"
  unfolding assign_ports_def Let_def
  by (intro sized_if sized_bnd [OF sized_leasePorts] sized_bnd [where R = "\<lambda>_. True"] sized_leasePorts sized_ret)
    (simp_all add: merge_ports_bounds)

lemma sized_start:
  assumes spec: "spec_in_bounds spec" and ports: "ports_in_bounds ports"
  shows "sized (\<lambda>_. True) (provision_start io input name spec r ports)"
proof -
  have upd: "sized row_in_bounds (updateRuntime io r (\<lambda>r. copy_spec spec (r
      \<lparr>rt_name := n, rt_portBindings := ports, rt_primaryPort := pp, rt_hostPort := hp,
       rt_primaryPortProtocol := pr, rt_public := pub, rt_status := st, rt_statusReason := sr,
       rt_lastActiveAt := la\<rparr>)))" for n pp hp pr pub st sr la
    by (rule sized_update, rule copy_spec_bounds [OF spec]) (simp add: ports)
  show ?thesis
    unfolding provision_start_def Let_def
    by (rule sized_step sized_check, (intro keeps_intros)[1] | rule sized_check)+
      (rule sized_bnd [OF upd], (rule sized_step, (intro keeps_intros)[1])+, rule sized_ret, rule TrueI)
qed

lemma sized_new:
  assumes "spec_in_bounds spec"
  shows "sized (\<lambda>(r, ports). ports_in_bounds ports) (provision_new io sid name spec primary)"
proof -
  have save: "sized row_in_bounds (saveRuntime io (new_row sid name vm spec primary tok now))" for vm tok now
    unfolding saveRuntime_def by (rule sized_insert [OF new_row_bounds [OF assms]])
  have lease: "sized (\<lambda>(r, ports). ports_in_bounds ports)
      (bnd (leasePorts io (rt_id r) n) (\<lambda>hps. ret (r, merge_ports [] hps (rs_ports spec))))" for r n
    by (rule sized_bnd [OF sized_leasePorts])
      (use assms in \<open>auto intro: sized_ret simp: merge_ports_bounds spec_in_bounds_def\<close>)
  have undo: "sized Q (bnd (deleteRuntime io r) (\<lambda>_. throw e))" for Q :: "runtimeEntity \<times> portBinding list \<Rightarrow> bool" and r e
    by (rule sized_bnd [OF sized_leases(3)]) (rule sized_throw)
  show ?thesis
    unfolding provision_new_def
    by (rule sized_step, (intro keeps_intros)[1], rule sized_check, rule sized_step, (intro keeps_intros)[1],
        rule sized_bnd [OF save], rule sized_catching [OF lease undo])
qed

lemma sized_existing:
  assumes "row_in_bounds r"
  shows "sized (\<lambda>_. True) (provision_existing io input name spec r)"
proof -
  have upd: "sized row_in_bounds (updateRuntime io r (\<lambda>r. r\<lparr>rt_name := n, rt_status := st, rt_statusReason := sr,
      rt_lastActiveAt := la\<rparr>))" for n st sr la
    by (rule sized_update) (simp add: assms)
  show ?thesis
    unfolding provision_existing_def Let_def
    by (rule sized_step sized_if sized_bnd [OF upd] | (intro keeps_intros)[1] | rule sized_ret, rule TrueI)+
qed

lemma sized_provision:
  assumes valid: "valid_spec input" and defaults: "defaults_in_bounds (io_config io)"
  shows "sized (\<lambda>_. True) (provision io input)"
proof -
  have spec: "sized spec_in_bounds (buildSpec io input)"
  proof -
    have frame: "post rows_inv (buildSpec io input) (\<lambda>x s. rows_inv s \<and> True) (\<lambda>_. rows_inv)"
      using sized_frame [of "buildSpec io input"] by (simp add: sized_def keeps_intros)
    show ?thesis
      unfolding sized_def
      by (rule postI) (blast dest: post_Inr [OF frame] post_Inl [OF frame] buildSpec_bounds [OF _ valid defaults])+
  qed
  have place: "sized (\<lambda>_. True) (bnd (assign_ports io r ports) (provision_start io input name spec r))"
    if "spec_in_bounds spec" "ports_in_bounds ports" for r ports name spec
    by (rule sized_bnd [OF sized_assign [OF that(2)] sized_start [OF that(1)]])
  have new: "sized (\<lambda>_. True) (bnd (provision_new io sid name spec primary) (\<lambda>(r, ports).
       bnd (assign_ports io r ports) (provision_start io input name spec r)))"
    if "spec_in_bounds spec" for sid name spec primary
    by (rule sized_bnd [OF sized_new [OF that]]) (auto split: prod.split intro: place [OF that])
  have replace: "sized (\<lambda>_. True) (bnd (provision_replace io input name spec r) (\<lambda>r'.
       bnd (assign_ports io r' (rs_ports spec)) (provision_start io input name spec r')))"
    if "spec_in_bounds spec" "row_in_bounds r" for r name spec
    unfolding provision_replace_def
  proof (rule sized_bnd [OF sized_update])
    show "row_in_bounds (copy_spec spec (r\<lparr>rt_name := name, rt_status := Provisioning,
        rt_statusReason := Some (if en_forceRecreate input = Some True then ''replacing_forced''
                                 else ''replacing_spec_changed'')\<rparr>))"
      by (rule copy_spec_bounds [OF that(1)]) (use that(2) in \<open>simp add: row_in_bounds_def\<close>)
    show "sized (\<lambda>_. True) (bnd (assign_ports io x (rs_ports spec)) (provision_start io input name spec x))" for x
      by (rule place [OF that(1)]) (use that(1) in \<open>simp add: spec_in_bounds_def\<close>)
  qed
  have existing: "sized (\<lambda>_. True) (bnd (provision_existing io input name spec r) (\<lambda>early. case early of
          Some z \<Rightarrow> ret z
        | None \<Rightarrow> bnd (assign_ports io r (rs_ports spec)) (provision_start io input name spec r)))"
    if "spec_in_bounds spec" "row_in_bounds r" for r name spec
    by (rule sized_bnd [OF sized_existing [OF that(2)]])
      (use that(1) in \<open>auto split: option.split intro: place sized_ret simp: spec_in_bounds_def\<close>)
  show ?thesis
    unfolding provision_def Let_def
  proof (rule sized_step, (intro keeps_intros)[1], rule sized_check, rule sized_step, (intro keeps_intros)[1],
      rule sized_bnd [OF sized_findId], rule sized_step, (intro keeps_intros)[1], rule sized_bnd [OF spec],
      rule sized_step, (intro keeps_intros)[1], rule sized_check, goal_cases)
    case (1 _ name _ found _ sp _ primary)
    then show ?case by (cases found) (simp_all add: new replace existing)
  qed
qed

section \<open>Every request\<close>

lemma sized_true: "sized (\<lambda>_. True) (ret x)"
  by (rule sized_ret) simp

lemma sized_methods:
  "sized (\<lambda>_. True) (control_get io x)"
  "sized (\<lambda>_. True) (control_start io x)" "sized (\<lambda>_. True) (control_stop io x)"
  "sized (\<lambda>_. True) (control_exec io x cmd args)" "sized (\<lambda>_. True) (control_refreshActivity io x)"
  "sized (\<lambda>_. True) (control_writeFiles io x files)" "sized (\<lambda>_. True) (control_downloadFiles io x args)"
  "sized (\<lambda>_. True) (getPreviewUrl io x p)" "sized (\<lambda>_. True) (getSignedPreviewUrl io x p)"
  "sized (\<lambda>_. True) (control_delete io x)"
proof -
  show "sized (\<lambda>_. True) (control_get io x)"
    unfolding control_get_def
    by (rule sized_bnd [OF sized_require], rule sized_bnd [OF sized_sync], assumption, rule sized_true)
  show "sized (\<lambda>_. True) (control_start io x)" "sized (\<lambda>_. True) (control_stop io x)"
    unfolding control_start_def control_stop_def
    by (rule sized_bnd [OF sized_require], rule sized_step, (intro keeps_intros)[1],
        rule sized_bnd [OF sized_status], assumption, rule sized_true)+
  show "sized (\<lambda>_. True) (control_exec io x cmd args)" "sized (\<lambda>_. True) (control_refreshActivity io x)"
    "sized (\<lambda>_. True) (control_writeFiles io x files)" "sized (\<lambda>_. True) (control_downloadFiles io x args)"
    unfolding control_exec_def control_refreshActivity_def control_writeFiles_def control_downloadFiles_def
    by (rule sized_bnd [OF sized_running], rule sized_step, (intro keeps_intros)[1],
        rule sized_bnd [OF sized_touch], assumption, rule sized_true)+
  show "sized (\<lambda>_. True) (getPreviewUrl io x p)"
    unfolding getPreviewUrl_def Let_def by (rule sized_bnd [OF sized_previewable]) (rule sized_true)
  show "sized (\<lambda>_. True) (getSignedPreviewUrl io x p)"
    unfolding getSignedPreviewUrl_def Let_def
    by (rule sized_bnd [OF sized_previewable], rule sized_step, (intro keeps_intros)[1], rule sized_true)
  show "sized (\<lambda>_. True) (control_delete io x)"
    unfolding control_delete_def
    by (rule sized_bnd [OF sized_require], rule sized_bnd [OF sized_status], assumption, rule sized_step,
        (intro keeps_intros)[1], rule sized_bnd [OF sized_leases(2)], rule sized_bnd [OF sized_leases(3)], rule sized_true)
qed

lemma sized_provisioning:
  assumes "defaults_in_bounds (io_config io)"
  shows "valid_spec c \<Longrightarrow> sized (\<lambda>_. True) (control_create io c)"
    and "valid_spec i \<Longrightarrow> sized (\<lambda>_. True) (control_ensure io i)"
    and "valid_spec u \<Longrightarrow> sized (\<lambda>_. True) (control_update io x u)"
proof -
  have valid: "valid_spec (sandboxSpecDto.extend c (ensureRuntimeDto.fields a b d)) = valid_spec c"
    "valid_spec (i\<lparr>en_sandboxId := a\<rparr>) = valid_spec i" for a b d and i :: ensureRuntimeDto
    by (simp_all add: valid_spec_def sandboxSpecDto.defs ensureRuntimeDto.defs)
  show "valid_spec c \<Longrightarrow> sized (\<lambda>_. True) (control_create io c)"
    unfolding control_create_def
    by (rule sized_check, rule sized_step, (intro keeps_intros)[1], rule sized_step, (intro keeps_intros)[1],
        rule sized_provision [OF _ assms]) (simp add: valid)
  show "valid_spec i \<Longrightarrow> sized (\<lambda>_. True) (control_ensure io i)"
    unfolding control_ensure_def
    by (rule sized_step, (intro keeps_intros)[1], rule sized_provision [OF _ assms]) (simp add: valid)
  show "valid_spec u \<Longrightarrow> sized (\<lambda>_. True) (control_update io x u)"
    unfolding control_update_def
    by (rule sized_bnd [OF sized_findId])
      (auto split: option.split intro: sized_throw sized_provision [OF _ assms] update_input_valid)
qed

lemma sized_handle:
  assumes "defaults_in_bounds (io_config io)"
  shows "sized (\<lambda>_. True) (handle io auth req)"
proof -
  have out: "sized (\<lambda>_. True) (responds f m)" if "sized (\<lambda>_. True) m" for m :: "('v sys, 'y) eff" and f
    unfolding responds_def by (rule sized_bnd [OF that]) (rule sized_ret, rule TrueI)
  have "sized (\<lambda>_. True) (route io req)" if "valid_request req"
    using that
    by (cases req)
      (simp_all only: route.simps sandbox_methods valid_request.simps, (rule out, (rule sized_methods | rule sized_provisioning [OF assms], assumption
        | (rule sized_frame, (intro keeps_intros)[1])))+)
  then show ?thesis
    unfolding handle_def validated_def by (intro sized_if sized_check sized_throw)
qed

end

section \<open>Properties\<close>

text \<open>C9: no request brings a stored sandbox out of bounds. With configured defaults in bounds, whatever
  request is handled and however it ends, every stored sandbox keeps at least one CPU, 128 MiB of
  memory and 1 GiB of disk, container ports from 1 on and an auto-stop time that is positive or
  absent.\<close>

theorem rows_stay_in_bounds:
  assumes "database io" and "defaults_in_bounds (io_config io)"
    and "tables_ok s" and "\<forall>r \<in> set (runtimes s). row_in_bounds r" and "handle io auth req s = (q, t)"
  shows "\<forall>r \<in> set (runtimes t). row_in_bounds r"
proof -
  note sized = database.sized_handle [OF assms(1,2), of auth req, unfolded sized_def]
  have s: "rows_inv s" using assms(3,4) by (simp add: rows_inv_def)
  have "rows_inv t"
  proof (cases q)
    case (Inl e)
    then show ?thesis using post_Inl [OF sized s, of e t] assms(5) by blast
  next
    case (Inr x)
    then show ?thesis using post_Inr [OF sized s, of x t] assms(5) by blast
  qed
  then show ?thesis by (simp add: rows_inv_def)
qed

lemma empty_defaults: "defaults_in_bounds empty_config"
  by code_simp

theorem rows_stay_in_bounds_witness:
  "list_all row_in_bounds
     (runtimes (snd (handle (demo_io empty_config) None (EnsureSandbox (plain_ensure ''box'')) demo_sys)))"
proof -
  have defaults: "defaults_in_bounds (io_config (demo_io empty_config))" by (simp only: demo_config empty_defaults)
  have "row_in_bounds demo_runtime"
    by (simp add: demo_runtime_def row_in_bounds_def ports_in_bounds_def at_least_def)
  then have rows: "\<forall>r \<in> set (runtimes demo_sys). row_in_bounds r" by (simp add: demo_sys_def)
  show ?thesis unfolding list_all_iff
    by (rule rows_stay_in_bounds [OF demo_database defaults tables_ok_demo rows prod.collapse [symmetric]])
qed

end
