(* ===== verification/Setup.thy ===== *)
theory Setup
  imports Entities Config "HOL-Library.AList"
begin

text \<open>
  What the service sets up before it serves: the database of app.module.ts, and the database and the
  migration of the command line (database/data-source.ts, database/migrations/). TypeORM and SQLite
  are not part of the repository: the model has the options they are given, and for the migration
  the tables it asks for, as a list of named tables.
\<close>

section \<open>Databases\<close>

text \<open>The entity classes, by the names of their tables.\<close>

definition entity_tables :: "string list" where
  "entity_tables = [''runtime_hosts'', ''runtimes'', ''port_leases'', ''volumes'', ''signed_preview_tokens'',
     ''revoked_sessions'']"

record databaseOptions =
  db_directory :: string
  db_path :: string
  db_entities :: "string list"
  db_synchronize :: bool

text \<open>The factory of the module: the directory is made first; no migrations are named.\<close>

definition app_database :: "config \<Rightarrow> databaseOptions" where
  "app_database cfg =
     \<lparr>db_directory = path_dirname (sqlitePath cfg), db_path = sqlitePath cfg, db_entities = entity_tables,
      db_synchronize = (process_env cfg ''NODE_ENV'' \<noteq> Some ''production'')\<rparr>"

text \<open>\<open>process.env.X?.trim() || process.env.Y || d\<close>: the second variable is not trimmed.\<close>

definition dataSource_path :: "config \<Rightarrow> string" where
  "dataSource_path cfg =
     (case opt_trim (process_env cfg ''MICROSANDBOX_CLOUD_SQLITE_PATH'') of
        Some v \<Rightarrow> v
      | None \<Rightarrow> (case Option.bind (process_env cfg ''SQLITE_PATH'') non_empty of
            Some v \<Rightarrow> v
          | None \<Rightarrow> ''data/microsandbox-cloud.db''))"

section \<open>The migration\<close>

record tableDef =
  td_columns :: "string list"
  td_primary :: string
  td_unique :: "string list"

text \<open>The tables of a database, by name.\<close>

type_synonym schema = "(string \<times> tableDef) list"

definition revokedSessionsTable :: tableDef where
  "revokedSessionsTable =
     \<lparr>td_columns = [''id'', ''tokenHash'', ''revokedAt''], td_primary = ''id'', td_unique = [''tokenHash'']\<rparr>"

definition createRevokedSessions_up :: "schema \<Rightarrow> schema" where
  "createRevokedSessions_up db =
     (if map_of db ''revoked_sessions'' = None then db @ [(''revoked_sessions'', revokedSessionsTable)] else db)"

definition createRevokedSessions_down :: "schema \<Rightarrow> schema" where
  "createRevokedSessions_down db = AList.delete ''revoked_sessions'' db"

section \<open>Lemmas\<close>

lemma path_normalize_root: "p \<noteq> [] \<Longrightarrow> hd p = slash \<Longrightarrow> path_normalize p \<noteq> [] \<and> hd (path_normalize p) = slash"
  by (simp add: path_normalize_def Let_def)

lemma path_join_root: "p \<noteq> [] \<Longrightarrow> hd p = slash \<Longrightarrow> path_join (p # ps) \<noteq> [] \<and> hd (path_join (p # ps)) = slash"
  by (cases "filter (\<lambda>p. p \<noteq> []) ps") (simp_all add: path_join_def Let_def path_normalize_root)

lemma path_dirname_root_path:
  "p \<noteq> [] \<Longrightarrow> hd p = slash \<Longrightarrow> path_dirname p \<noteq> [] \<and> hd (path_dirname p) = slash"
  by (cases p) (auto simp: path_dirname_def Let_def hd_take)

lemma cwd_root: "process_cwd cfg \<noteq> [] \<Longrightarrow> hd (process_cwd cfg) = slash \<Longrightarrow> cwd cfg \<noteq> [] \<and> hd (cwd cfg) = slash"
  by (auto simp: cwd_def Let_def path_join_root path_dirname_root_path)

text \<open>
  The migrations run on the database of the service when its variable is set, and on another file
  when neither variable is.
\<close>

lemma migrations_database:
  assumes "process_cwd cfg \<noteq> []" and "hd (process_cwd cfg) = slash"
  shows "opt_trim (process_env cfg ''MICROSANDBOX_CLOUD_SQLITE_PATH'') \<noteq> None \<Longrightarrow>
      dataSource_path cfg = db_path (app_database cfg)"
    and "opt_trim (process_env cfg ''MICROSANDBOX_CLOUD_SQLITE_PATH'') = None \<Longrightarrow> process_env cfg ''SQLITE_PATH'' = None \<Longrightarrow>
      dataSource_path cfg \<noteq> db_path (app_database cfg)"
proof -
  show "opt_trim (process_env cfg ''MICROSANDBOX_CLOUD_SQLITE_PATH'') \<noteq> None \<Longrightarrow>
      dataSource_path cfg = db_path (app_database cfg)"
    by (auto simp: dataSource_path_def app_database_def sqlitePath_def envOr_def)
next
  assume "opt_trim (process_env cfg ''MICROSANDBOX_CLOUD_SQLITE_PATH'') = None" "process_env cfg ''SQLITE_PATH'' = None"
  moreover have "path_join [cwd cfg, ''data'', ''microsandbox-cloud.sqlite''] \<noteq> ''data/microsandbox-cloud.db''"
    using path_join_root [of "cwd cfg" "[''data'', ''microsandbox-cloud.sqlite'']"] cwd_root [OF assms] by auto
  ultimately show "dataSource_path cfg \<noteq> db_path (app_database cfg)"
    by (simp add: dataSource_path_def app_database_def sqlitePath_def envOr_def)
qed

text \<open>Whether the tables are made at start depends on one variable, the environment of the service on another.\<close>

lemma synchronize_in_production:
  "process_env cfg ''NODE_ENV'' = None \<Longrightarrow> isProd cfg \<Longrightarrow> db_synchronize (app_database cfg)"
  by (simp add: app_database_def)

lemma migration_tables:
  "dom (map_of (createRevokedSessions_up db)) = insert ''revoked_sessions'' (dom (map_of db))"
  "createRevokedSessions_up (createRevokedSessions_up db) = createRevokedSessions_up db"
  "''revoked_sessions'' \<notin> dom (map_of db) \<Longrightarrow> createRevokedSessions_down (createRevokedSessions_up db) = db"
proof -
  show "dom (map_of (createRevokedSessions_up db)) = insert ''revoked_sessions'' (dom (map_of db))"
    by (auto simp: createRevokedSessions_up_def)
  show "createRevokedSessions_up (createRevokedSessions_up db) = createRevokedSessions_up db"
    by (simp add: createRevokedSessions_up_def map_add_def split: option.split)
  show "createRevokedSessions_down (createRevokedSessions_up db) = db" if "''revoked_sessions'' \<notin> dom (map_of db)"
  proof -
    have "''revoked_sessions'' \<notin> fst ` set db" using that by (simp add: dom_map_of_conv_image_fst)
    then have "filter (\<lambda>(k, _). ''revoked_sessions'' \<noteq> k) db = db"
      by (intro filter_True) force
    with that show ?thesis
      by (simp add: createRevokedSessions_up_def createRevokedSessions_down_def AList.delete_eq domIff)
  qed
qed

text \<open>The one migration makes one of the six tables the service needs, with its unique column.\<close>

lemma migration_covers_one_table:
  "filter (\<lambda>t. map_of (createRevokedSessions_up []) t = None) entity_tables =
     [''runtime_hosts'', ''runtimes'', ''port_leases'', ''volumes'', ''signed_preview_tokens'']"
  by (simp add: createRevokedSessions_up_def entity_tables_def)

end
