(* ===== verification/SshApi.thy ===== *)
theory SshApi
  imports Controller
begin

text \<open>
  The routes of \<open>SshController\<close> (ssh/ssh.controller.ts) as requests: the guard, the validation of the
  body, the method. The sandbox API leaves the sessions alone, so what happens to a sandbox has
  no effect on a session that was made for it; the theorems state this for every sequence of
  requests.
\<close>

section \<open>Requests\<close>

datatype ssh_request =
    CreateSshSession string "int option"
  | RevokeSshSession string
  | ValidateSshToken string

datatype ssh_response =
    SessionCreated string string string string
  | SessionRevoked string bool
  | TokenValid sshValidateResult

text \<open>\<open>CreateSessionBody\<close>: a session lasts at least one minute, when a time is given.\<close>

fun valid_ssh_request :: "ssh_request \<Rightarrow> bool" where
  "valid_ssh_request (CreateSshSession _ expiryMinutes) = at_least 1 expiryMinutes"
| "valid_ssh_request _ = True"

fun ssh_route :: "'v io \<Rightarrow> (string \<Rightarrow> string option) \<Rightarrow> ssh_request \<Rightarrow> ('v sys, ssh_response) eff" where
  "ssh_route io url_hostname (CreateSshSession x m) =
     bnd (route_createSession io url_hostname x m) (\<lambda>(a, b, c, d). ret (SessionCreated a b c d))"
| "ssh_route io url_hostname (RevokeSshSession token) =
     bnd (route_revokeSession io token) (\<lambda>(a, b). ret (SessionRevoked a b))"
| "ssh_route io url_hostname (ValidateSshToken token) =
     bnd (route_validateToken io token) (\<lambda>v. ret (TokenValid v))"

text \<open>All three routes have the guard.\<close>

definition ssh_handle ::
  "'v io \<Rightarrow> (string \<Rightarrow> string option) \<Rightarrow> header option \<Rightarrow> ssh_request \<Rightarrow> ('v sys, ssh_response) eff" where
  "ssh_handle io url_hostname authorization req =
     bnd (lift_sum (internalAuth_canActivate (io_config io) authorization)) (\<lambda>_.
     if valid_ssh_request req then ssh_route io url_hostname req
     else throw (BadRequestException ''Bad Request Exception''))"

text \<open>The state after a sequence of requests to the sandbox API, each with its header.\<close>

fun after_requests :: "'v io \<Rightarrow> (header option \<times> request) list \<Rightarrow> 'v sys \<Rightarrow> 'v sys" where
  "after_requests io [] s = s"
| "after_requests io ((auth, req) # rs) s = after_requests io rs (snd (handle io auth req s))"

section \<open>The sandbox API leaves the sessions alone\<close>

definition sessions_frame :: "(string \<times> sessionEntry) list \<Rightarrow> revokedSession list \<Rightarrow> 'v sys \<Rightarrow> bool" where
  "sessions_frame m R t \<longleftrightarrow> sessions t = m \<and> revoked t = R"

lemma keeps_sessions_outside [keeps_intros]:
  "keeps (sessions_frame m R) (outside a)" "keeps (sessions_frame m R) (outside_pure f)"
  "keeps (sessions_frame m R) (dateNow io)" "keeps (sessions_frame m R) (setTimeoutMs io ms)"
  by (rule keeps_outside keeps_outside_pure keeps_clock; simp add: sessions_frame_def)+

lemma keeps_sessions_tables [keeps_intros]:
  "keeps (sessions_frame m R) (runtime_insert io r)" "keeps (sessions_frame m R) (runtime_save io r)"
  "keeps (sessions_frame m R) (lease_insert io l)" "keeps (sessions_frame m R) (volume_insert io w)"
  "keeps (sessions_frame m R) (preview_insert io k)" "keeps (sessions_frame m R) (host_save io h)"
  "keeps (sessions_frame m R) (runtime_delete io p)" "keeps (sessions_frame m R) (lease_delete io q)"
  "keeps (sessions_frame m R) (volume_delete io u)" "keeps (sessions_frame m R) (preview_delete io v)"
  unfolding table_ops by (rule keeps_write keeps_modify, simp add: sessions_frame_def)+

lemma keeps_sessions_find [keeps_intros]:
  "keeps (sessions_frame m R) (runtime_findOne io p)" "keeps (sessions_frame m R) (lease_findOne io q)"
  "keeps (sessions_frame m R) (volume_findOne io u)" "keeps (sessions_frame m R) (preview_findOne io v)"
  "keeps (sessions_frame m R) (host_findOne io h)" "keeps (sessions_frame m R) (runtime_findDesc io c)"
  "keeps (sessions_frame m R) (volume_findDesc io d)"
  unfolding table_ops by (rule keeps_gets)+

lemma keeps_sessions_leases [keeps_intros]: "keeps (sessions_frame m R) (leasePorts io rid n)"
  "keeps (sessions_frame m R) (releasePorts io rid)"
proof -
  have "keeps (sessions_frame m R) (lease_loop io rid n p ps)" for p ps
  proof (induction "nat (portRangeEnd (io_config io) + 1 - p)" arbitrary: p ps)
    case 0
    then show ?case by (subst lease_loop.simps) (auto intro!: keeps_intros)
  next
    case (Suc k)
    then have k: "k = nat (portRangeEnd (io_config io) + 1 - (p + 1))" by simp
    show ?case by (subst lease_loop.simps) (intro keeps_intros Suc.hyps(1) [OF k])
  qed
  then show "keeps (sessions_frame m R) (leasePorts io rid n)" "keeps (sessions_frame m R) (releasePorts io rid)"
    by (auto simp: leasePorts_def releasePorts_def intro!: keeps_intros)
qed

lemma keeps_sessions_registry [keeps_intros]:
  "keeps (sessions_frame m R) (deleteRuntime io r)" "keeps (sessions_frame m R) (updateRuntime io r f)"
  "keeps (sessions_frame m R) (saveRuntime io r)" "keeps (sessions_frame m R) (findRuntimeBySandboxId io x)"
  "keeps (sessions_frame m R) (findRuntimeBySandboxIdOrName io x)"
  "keeps (sessions_frame m R) (setRuntimeStatus io r st rs)"
  "keeps (sessions_frame m R) (createSandboxId io sd)" "keeps (sessions_frame m R) (listRuntimes io)"
  "keeps (sessions_frame m R) (findVolumeByIdOrName io x)" "keeps (sessions_frame m R) (saveVolume io w)"
  "keeps (sessions_frame m R) (reg_deleteVolume io w)" "keeps (sessions_frame m R) (reg_listVolumes io)"
  "keeps (sessions_frame m R) (createSignedPreviewToken io x n ttl)"
  "keeps (sessions_frame m R) (getSignedPreviewToken io x n)"
  "keeps (sessions_frame m R) (expireSignedPreviewToken io x n)"
  "keeps (sessions_frame m R) (hasSignedPreviewTokenExpired io rec)"
  unfolding deleteRuntime_def updateRuntime_def saveRuntime_def findRuntimeBySandboxId_def
    findRuntimeBySandboxIdOrName_def setRuntimeStatus_def createSandboxId_def listRuntimes_def
    findVolumeByIdOrName_def saveVolume_def reg_deleteVolume_def reg_listVolumes_def
    createSignedPreviewToken_def getSignedPreviewToken_def expireSignedPreviewToken_def
    hasSignedPreviewTokenExpired_def
  by (intro keeps_intros)+

lemma keeps_sessions_wait [keeps_intros]: "keeps (sessions_frame m R) (wait_loop io p d n)"
  by (induction n) (simp_all only: wait_loop.simps, (intro keeps_intros | assumption)+)

lemma keeps_sessions_volumes [keeps_intros]: "keeps (sessions_frame m R) (resolveVolumes io ms)"
  by (induction ms) (simp_all only: resolveVolumes.simps requireVolume_def, (intro keeps_intros | assumption)+)

lemma keeps_sessions_helpers [keeps_intros]:
  "keeps (sessions_frame m R) (provision io i)" "keeps (sessions_frame m R) (requireRuntime io x)"
  "keeps (sessions_frame m R) (requireRunningRuntime io x)" "keeps (sessions_frame m R) (ensurePreviewable io x p)"
  "keeps (sessions_frame m R) (requireVolume io x)" "keeps (sessions_frame m R) (syncStatus io r)"
  "keeps (sessions_frame m R) (touchActivity io r)"
  unfolding control_helpers by (intro keeps_intros)+

lemma keeps_sessions_handle: "keeps (sessions_frame m R) (handle io auth req)"
proof -
  have "keeps (sessions_frame m R) (route io req)"
    by (cases req) (simp_all only: route.simps sandbox_methods responds_def control_methods, (intro keeps_intros)+)
  then show ?thesis unfolding handle_def validated_def by (intro keeps_intros)
qed

lemma after_requests_sessions:
  "sessions (after_requests io rs s) = sessions s \<and> revoked (after_requests io rs s) = revoked s"
proof (induction io rs s rule: after_requests.induct)
  case (2 io auth req rs s)
  have "sessions_frame (sessions s) (revoked s) (snd (handle io auth req s))"
    by (rule keepsD [OF keeps_sessions_handle _ prod.collapse [symmetric]]) (simp add: sessions_frame_def)
  with 2 show ?case by (simp add: sessions_frame_def)
qed simp

text \<open>Without the bearer token no SSH route has an effect, and no request out of bounds has one.\<close>

lemma unauthorized_ssh_no_effect:
  assumes "internalApiToken (io_config io) = Some k" and "firstHeader auth \<noteq> Some (''Bearer '' @ k)"
  shows "ssh_handle io url auth req s = (Inl (UnauthorizedException ''Invalid internal API token''), s)"
  using assms by (simp add: ssh_handle_def bnd_run internalAuth_canActivate_def)

lemma ssh_handle_admitted:
  "ssh_handle io url auth req s = (Inr y, t) \<longleftrightarrow>
     internalAuth_canActivate (io_config io) auth = Inr True \<and> valid_ssh_request req \<and> ssh_route io url req s = (Inr y, t)"
  by (auto simp: ssh_handle_def bnd_run internalAuth_canActivate_def split: option.splits)

text \<open>What a session that was made through the route was made for.\<close>

lemma create_route_run:
  assumes db: "database io"
    and "ssh_handle io url auth (CreateSshSession x m) s = (Inr (SessionCreated token sid expires cmd), t)"
  obtains r b y where "r \<in> set (runtimes s)" and "normalizeSandboxId x = Inr (rt_sandboxId r)"
    and "b \<in> set (rt_portBindings r)" and "pb_name b = Some ''ssh'' \<or> pb_containerPort b = 22"
    and "createSession io url x (pb_hostPort b) m s = (Inr y, t)"
    and "sr_token y = token" and "sr_sandboxId y = sid" and "sr_expiresAt y = expires" and "at_least 1 m"
proof -
  from assms(2) have valid: "at_least 1 m"
    and run: "route_createSession io url x m s = (Inr (token, sid, expires, cmd), t)"
    by (auto simp: ssh_handle_admitted bnd_Inr)
  from run obtain found u where found: "findRuntimeBySandboxId io x s = (Inr found, u)"
    unfolding route_createSession_def by (rule bnd_InrE)
  then obtain n where n: "normalizeSandboxId x = Inr n" and u: "u = s"
    and row: "found = findOne (runtimeRepo io) (\<lambda>r. rt_sandboxId r = n) (runtimes s)"
    by (auto simp: findRuntimeBySandboxId_def bnd_Inr runtime_findOne_def)
  from run found obtain r where r: "found = Some r"
    by (cases found) (auto simp: route_createSession_def bnd_run)
  with row have "r \<in> set (runtimes s)" "rt_sandboxId r = n"
    using repository.findOne_Some [OF database.runtime_repo [OF db], of _ "runtimes s" r] by metis+
  moreover from run found r obtain b
    where b: "find (\<lambda>b. pb_name b = Some ''ssh'' \<or> pb_containerPort b = 22) (rt_portBindings r) = Some b"
    by (cases "find (\<lambda>b. pb_name b = Some ''ssh'' \<or> pb_containerPort b = 22) (rt_portBindings r)")
      (auto simp: route_createSession_def bnd_run)
  moreover from run found r b u obtain y where "createSession io url x (pb_hostPort b) m s = (Inr y, t)"
    and "sr_token y = token" "sr_sandboxId y = sid" "sr_expiresAt y = expires"
    by (auto simp: route_createSession_def bnd_run split: prod.splits sum.splits)
  ultimately show thesis using valid n find_Some_set [OF b] by (intro that [of r b y]) auto
qed

section \<open>Properties\<close>

text \<open>C32: an SSH session that was made through the API is bound to the host port of the SSH binding that
  the sandbox had at that moment, and whatever requests to the sandbox API follow, the deletion
  of the sandbox included, its token is validated to that sandbox and that port until it
  expires.\<close>

theorem session_outlives_sandbox:
  assumes "database io" and "\<not> is_revoked io token t"
    and "ssh_handle io url auth (CreateSshSession x m) s = (Inr (SessionCreated token sid expires cmd), t)"
  shows "\<exists>r b.
    r \<in> set (runtimes s) \<and> normalizeSandboxId x = Inr (rt_sandboxId r) \<and>
    b \<in> set (rt_portBindings r) \<and> (pb_name b = Some ''ssh'' \<or> pb_containerPort b = 22) \<and>
    at_least 1 m \<and>
    (let expiry = created_at io s + session_ttl io m
     in expires = toISOString expiry \<and>
        (\<forall>reqs. fst (io_now io (ext (after_requests io reqs t))) \<le> expiry \<longrightarrow>
           fst (ssh_handle io url auth (ValidateSshToken token) (after_requests io reqs t)) =
             Inr (TokenValid \<lparr>va_sandboxId = x, va_hostPort = pb_hostPort b, va_expiresAt = expires\<rparr>)))"
proof (rule create_route_run [OF assms(1,3)])
  fix r b y
  assume made: "r \<in> set (runtimes s)" "normalizeSandboxId x = Inr (rt_sandboxId r)"
      "b \<in> set (rt_portBindings r)" "pb_name b = Some ''ssh'' \<or> pb_containerPort b = 22" "at_least 1 m"
    and run: "createSession io url x (pb_hostPort b) m s = (Inr y, t)"
    and y: "sr_token y = token" "sr_sandboxId y = sid" "sr_expiresAt y = expires"
  let ?expiry = "created_at io s + session_ttl io m"
  have entry: "map_of (sessions t) (ssh_hash io token) = Some \<lparr>se_sandboxId = x, se_hostPort = pb_hostPort b,
        se_expiresAt = ?expiry\<rparr>" and expires: "expires = toISOString ?expiry" and "valid_date ?expiry"
    using createSession_run(1,5,6) [OF run] y by simp_all
  have admitted: "internalAuth_canActivate (io_config io) auth = Inr True"
    using assms(3) by (simp add: ssh_handle_admitted)
  have "fst (ssh_handle io url auth (ValidateSshToken token) u) =
      Inr (TokenValid \<lparr>va_sandboxId = x, va_hostPort = pb_hostPort b, va_expiresAt = expires\<rparr>)"
    if "fst (io_now io (ext u)) \<le> ?expiry" "u = after_requests io reqs t" for u reqs
  proof -
    have "sessions u = sessions t" "\<not> is_revoked io token u"
      using after_requests_sessions [of io reqs t] assms(2) that(2) by (simp_all add: is_revoked_def)
    then have "fst (validateSession io token u) =
        Inr (Some \<lparr>va_sandboxId = x, va_hostPort = pb_hostPort b, va_expiresAt = expires\<rparr>)"
      using that(1) entry \<open>valid_date ?expiry\<close> by (simp add: database.validateSession_run [OF assms(1)] expires split_beta)
    then show ?thesis
      by (cases "validateSession io token u")
        (simp add: ssh_handle_def bnd_run admitted route_validateToken_def)
  qed
  then show ?thesis using made expires
    by (intro exI [of _ r] exI [of _ b] ) (auto simp: Let_def)
qed

text \<open>A sandbox with an SSH binding on host port 5 is deleted: its row and its lease are gone, the port
  may be leased to another sandbox, and the token is still validated to it.\<close>

definition ssh_sys :: "world sys" where
  "ssh_sys = demo_sys\<lparr>runtimes := [demo_runtime\<lparr>rt_portBindings := [\<lparr>pb_name = Some ''ssh'', pb_containerPort = 22,
     pb_hostPort = 5, pb_protocol = Tcp, pb_nameLast = True\<rparr>]\<rparr>]\<rparr>"

lemma ssh_sys_create:
  "\<exists>token sid expires cmd t.
     ssh_handle (demo_io (range_config 5 9)) (\<lambda>_. Some ''localhost'') None (CreateSshSession ''box'' None) ssh_sys =
       (Inr (SessionCreated token sid expires cmd), t) \<and>
     revoked t = [] \<and> w_now (ext t) = w_now world0 \<and> runtimes t = runtimes ssh_sys \<and> leases t = leases ssh_sys \<and> previews t = []"
  by (simp add: ssh_handle_def bnd_run internalAuth_canActivate_def internalApiToken_def opt_trim_def range_config_def
      at_least_def route_createSession_def findRuntimeBySandboxId_def normalize_box runtime_findOne_def
      runtime_table_def mem_repo_def ssh_sys_def demo_sys_def demo_runtime_def sys0_def world0_def
      createSession_def pruneExpired_def dateNow_def outside_pure_def set_session_def demo_random_def Let_def
      valid_date_def connectionTtlSeconds_def readInt_def)

lemma ssh_sys_delete:
  assumes "runtimes t = runtimes ssh_sys" and "leases t = leases ssh_sys" and "previews t = []" and "w_now (ext t) = w_now world0"
  shows "let u = after_requests (demo_io (range_config 5 9)) [(None, DeleteSandbox ''box'')] t in
    runtimes u = [] \<and> leases u = [] \<and> w_now (ext u) = w_now world0"
  using assms
  by (simp add: handle_def bnd_run internalAuth_canActivate_def internalApiToken_def opt_trim_def range_config_def
      validated_def sandbox_delete_def responds_def control_delete_def requireRuntime_def
      findRuntimeBySandboxIdOrName_def normalize_box runtime_findOne_def runtime_table_def mem_repo_def
      ssh_sys_def demo_sys_def demo_runtime_def sys0_def world0_def setRuntimeStatus_def
      updateRuntime_def runtime_save_def mem_save_def replace_row_def runtime_touch_def outside_def demo_adapter_def releasePorts_def
      lease_delete_def lease_table_def deleteRuntime_def runtime_delete_def preview_delete_def preview_table_def Let_def)

theorem session_outlives_sandbox_witness:
  "\<exists>token sid expires cmd t u.
     ssh_handle (demo_io (range_config 5 9)) (\<lambda>_. Some ''localhost'') None (CreateSshSession ''box'' None) ssh_sys =
       (Inr (SessionCreated token sid expires cmd), t) \<and>
     u = after_requests (demo_io (range_config 5 9)) [(None, DeleteSandbox ''box'')] t \<and>
     runtimes u = [] \<and> 5 \<in> set (free_ports (range_config 5 9) (leases u)) \<and>
     fst (ssh_handle (demo_io (range_config 5 9)) (\<lambda>_. Some ''localhost'') None (ValidateSshToken token) u) =
       Inr (TokenValid \<lparr>va_sandboxId = ''box'', va_hostPort = 5, va_expiresAt = expires\<rparr>)"
proof -
  let ?io = "demo_io (range_config 5 9)"
  obtain token sid expires cmd t where
    run: "ssh_handle ?io (\<lambda>_. Some ''localhost'') None (CreateSshSession ''box'' None) ssh_sys =
       (Inr (SessionCreated token sid expires cmd), t)"
    and t: "revoked t = []" "w_now (ext t) = w_now world0" "runtimes t = runtimes ssh_sys"
      "leases t = leases ssh_sys" "previews t = []"
    using ssh_sys_create by blast
  define u where "u = after_requests ?io [(None, DeleteSandbox ''box'')] t"
  have u: "runtimes u = []" "leases u = []" "w_now (ext u) = w_now world0"
    using ssh_sys_delete [OF t(3,4,5,2)] by (simp_all add: u_def Let_def del: after_requests.simps)
  have "\<not> is_revoked ?io token t" using t by (simp add: is_revoked_def)
  from session_outlives_sandbox [OF demo_database this run] obtain r b where
    rb: "r \<in> set (runtimes ssh_sys)" "b \<in> set (rt_portBindings r)"
    and later: "let expiry = created_at ?io ssh_sys + session_ttl ?io None in expires = toISOString expiry \<and>
      (\<forall>reqs. fst (io_now ?io (ext (after_requests ?io reqs t))) \<le> expiry \<longrightarrow>
        fst (ssh_handle ?io (\<lambda>_. Some ''localhost'') None (ValidateSshToken token) (after_requests ?io reqs t)) =
          Inr (TokenValid \<lparr>va_sandboxId = ''box'', va_hostPort = pb_hostPort b, va_expiresAt = expires\<rparr>))"
    by blast
  have "fst (io_now ?io (ext u)) \<le> created_at ?io ssh_sys + session_ttl ?io None"
    by (simp add: u created_at_def session_ttl_def ssh_sys_def demo_sys_def sys0_def connectionTtlSeconds_def
        readInt_def range_config_def)
  with later have "fst (ssh_handle ?io (\<lambda>_. Some ''localhost'') None (ValidateSshToken token) u) =
        Inr (TokenValid \<lparr>va_sandboxId = ''box'', va_hostPort = pb_hostPort b, va_expiresAt = expires\<rparr>)"
    unfolding u_def Let_def by blast
  moreover have "pb_hostPort b = 5" using rb by (simp add: ssh_sys_def)
  moreover have "5 \<in> set (free_ports (range_config 5 9) (leases u))"
    by (simp add: u free_ports_def set_free_from leased_def)
  ultimately show ?thesis using run u by (auto simp: u_def simp del: after_requests.simps)
qed

end
