(* ===== verification/Service.thy ===== *)
theory Service
  imports SshApi Proxy Bounds_Safety
begin

text \<open>
  The running service as a state machine: it starts on empty tables, and then takes one step after the
  other, each a request to the sandbox API, an SSH route, a request or an upgrade at the preview
  proxy, a health check, a restart (main.ts, which loses the session map and registers the host
  again), or a change of the outside world between requests (virtual machines that stop, time that
  passes). Requests are taken one after the other; calls that overlap are the subject of LeaseRace.
\<close>

section \<open>Steps\<close>

record 'v service =
  sv_io :: "'v io"
  sv_hostname :: "string \<Rightarrow> string option"
  sv_parse :: "string \<Rightarrow> urlParts option"

datatype call =
    Api "header option" request
  | Ssh "header option" ssh_request
  | Preview string "header option"
  | PreviewUpgrade "string option" "header option"
  | HealthCheck
  | Restart
  | Elsewhere

text \<open>\<open>onModuleInit\<close> of the registry, with the empty map a new \<open>SshSessionService\<close> has.\<close>

definition restart :: "'v io \<Rightarrow> ('v sys, unit) eff" where
  "restart io = bnd (modify (\<lambda>s. s\<lparr>sessions := []\<rparr>)) (\<lambda>_. bnd (ensureLocalHost io) (\<lambda>_. ret ()))"

definition forget :: "('s, 'a) eff \<Rightarrow> ('s, unit) eff" where
  "forget m = bnd m (\<lambda>_. ret ())"

text \<open>What the service does on a call; \<open>Elsewhere\<close> is not its own.\<close>

fun on_call :: "'v service \<Rightarrow> call \<Rightarrow> ('v sys, unit) eff" where
  "on_call sv (Api auth req) = forget (handle (sv_io sv) auth req)"
| "on_call sv (Ssh auth req) = forget (ssh_handle (sv_io sv) (sv_hostname sv) auth req)"
| "on_call sv (Preview url h) = forget (serve_http (sv_io sv) (sv_parse sv) url h)"
| "on_call sv (PreviewUpgrade url h) = forget (serve_upgrade (sv_io sv) (sv_parse sv) url h)"
| "on_call sv HealthCheck = forget (health (sv_io sv))"
| "on_call sv Restart = restart (sv_io sv)"
| "on_call sv Elsewhere = ret ()"

text \<open>A history is a list of calls, the last one first, each with the exception it ended in, if any.\<close>

type_synonym history = "(call \<times> exn option) list"

inductive service_step :: "'v service \<Rightarrow> 'v sys \<Rightarrow> call \<times> exn option \<Rightarrow> 'v sys \<Rightarrow> bool" for sv where
  returns: "on_call sv c s = (Inr (), t) \<Longrightarrow> service_step sv s (c, None) t"
| throws: "on_call sv c s = (Inl e, t) \<Longrightarrow> service_step sv s (c, Some e) t"
| elsewhere: "service_step sv s (Elsewhere, None) (s\<lparr>ext := v\<rparr>)"

inductive_cases service_stepE: "service_step sv s l t"

inductive history_of :: "'v service \<Rightarrow> 'v sys \<Rightarrow> history \<Rightarrow> 'v sys \<Rightarrow> bool" for sv s where
  here: "history_of sv s [] s"
| further: "history_of sv s h t \<Longrightarrow> service_step sv t l u \<Longrightarrow> history_of sv s (l # h) u"

definition empty_tables :: "'v \<Rightarrow> 'v sys" where
  "empty_tables v = \<lparr>hosts = [], runtimes = [], leases = [], volumes = [], previews = [], revoked = [],
     sessions = [], ext = v\<rparr>"

text \<open>The calls of a history that failed for want of ports.\<close>

definition shortage :: exn where
  "shortage = JsError ''No free runtime ports available''"

definition shortages :: "history \<Rightarrow> nat" where
  "shortages h = length (filter (\<lambda>l. snd l = Some shortage) h)"

section \<open>Steps that leave runtimes and leases alone\<close>

lemma keeps_forget [keeps_intros]: "keeps I m \<Longrightarrow> keeps I (forget m)"
  unfolding forget_def by (intro keeps_intros)

context database begin

lemma keeps_frame_revoked [keeps_intros]: "keeps (ports_frame R L) (revoked_insert io x)"
  "keeps (ports_frame R L) (revoked_findOne io p)" "keeps (ports_frame R L) (host_findOne io h)"
  "keeps (ports_frame R L) (host_save io y)" "keeps (ports_frame R L) (modify (\<lambda>s. s\<lparr>sessions := f s\<rparr>))"
proof -
  have frame: "keeps (ports_frame R L) m" if "keeps tables_ok m"
      "\<And>s r t. m s = (r, t) \<Longrightarrow> runtimes t = runtimes s \<and> leases t = leases s"
    for m :: "('v sys, 'y) eff"
    by (rule keepsI) (use that in \<open>auto simp: ports_frame_def dest: keepsD\<close>)
  show "keeps (ports_frame R L) (revoked_insert io x)" "keeps (ports_frame R L) (host_save io y)"
    by (rule frame, rule keeps_tables_insert, (auto simp: table_ops split: prod.splits)[1])+
  show "keeps (ports_frame R L) (revoked_findOne io p)" "keeps (ports_frame R L) (host_findOne io h)"
    unfolding table_ops by (rule keeps_gets)+
  show "keeps (ports_frame R L) (modify (\<lambda>s. s\<lparr>sessions := f s\<rparr>))"
    by (rule keeps_modify) (simp add: ports_frame_def)
qed

lemma keeps_frame_calls [keeps_intros]:
  "keeps (ports_frame R L) (ssh_handle io url auth req)" "keeps (ports_frame R L) (restart io)"
  "keeps (ports_frame R L) (health io)" "keeps (ports_frame R L) (serve_http io parse u h)"
  "keeps (ports_frame R L) (serve_upgrade io parse w h)"
proof -
  show "keeps (ports_frame R L) (ssh_handle io url auth req)"
    unfolding ssh_handle_def
    by (cases req) (simp_all only: ssh_route.simps route_createSession_def createSession_def pruneExpired_def
        set_session_def route_revokeSession_def revokeSession_def drop_session_def route_validateToken_def
        validateSession_def isRevoked_def Let_def, (intro keeps_intros)+)
  show "keeps (ports_frame R L) (restart io)" "keeps (ports_frame R L) (health io)"
    unfolding restart_def health_def ensureLocalHost_def Let_def by (intro keeps_intros)+
  have "keeps (ports_frame R L) (proxy_target io m)" for m
    unfolding proxy_target_def validateProxyAccessBySandbox_def validateProxyAccessBySignedToken_def resolveProxyTarget_def
    by (cases m) (simp_all only: proxyMatch.case Let_def, (intro keeps_intros)+)
  then show "keeps (ports_frame R L) (serve_http io parse u h)" "keeps (ports_frame R L) (serve_upgrade io parse w h)"
    unfolding serve_http_def handleHttp_def serve_upgrade_def handleUpgrade_def by (intro keeps_intros | assumption)+
qed

end

section \<open>Invariants of the running service\<close>

lemma step_cases:
  assumes "service_step sv s (c, q) t"
  obtains (call) r where "on_call sv c s = (r, t)" and "q = (case r of Inl e \<Rightarrow> Some e | Inr _ \<Rightarrow> None)"
    | (world) v where "t = s\<lparr>ext := v\<rparr>" and "c = Elsewhere" and "q = None"
  using assms
proof (cases rule: service_step.cases)
  case returns
  then show thesis by (intro call [of "Inr ()"]) simp_all
next
  case (throws e)
  then show thesis by (intro call [of "Inl e"]) simp_all
next
  case (elsewhere v)
  then show thesis by (intro world [of v]) simp_all
qed

lemma forget_run: "forget m s = (r, t) \<Longrightarrow> \<exists>q. m s = (q, t) \<and> (case r of Inl e \<Rightarrow> q = Inl e | Inr _ \<Rightarrow> \<exists>x. q = Inr x)"
  by (cases "m s"; cases "fst (m s)") (auto simp: forget_def bnd_run)

text \<open>Every call but one to the sandbox API leaves the runtimes and the leases alone.\<close>

lemma call_frame:
  assumes "database (sv_io sv)" and "\<And>auth req. c \<noteq> Api auth req"
  shows "keeps (ports_frame R L) (on_call sv c)"
proof (cases c)
  case (Api auth req)
  with assms(2) show ?thesis by blast
next
  case (Ssh auth req)
  show ?thesis unfolding Ssh on_call.simps by (intro keeps_forget database.keeps_frame_calls [OF assms(1)])
next
  case (Preview url h)
  show ?thesis unfolding Preview on_call.simps by (intro keeps_forget database.keeps_frame_calls [OF assms(1)])
next
  case (PreviewUpgrade url h)
  show ?thesis unfolding PreviewUpgrade on_call.simps by (intro keeps_forget database.keeps_frame_calls [OF assms(1)])
next
  case HealthCheck
  show ?thesis unfolding HealthCheck on_call.simps by (intro keeps_forget database.keeps_frame_calls [OF assms(1)])
next
  case Restart
  show ?thesis unfolding Restart on_call.simps by (rule database.keeps_frame_calls [OF assms(1)])
next
  case Elsewhere
  show ?thesis unfolding Elsewhere on_call.simps by (rule keeps_ret)
qed

lemma call_rows:
  assumes db: "database (sv_io sv)" and "defaults_in_bounds (io_config (sv_io sv))"
    and "rows_inv s" and run: "on_call sv c s = (r, t)"
  shows "rows_inv t"
proof (cases "\<exists>auth req. c = Api auth req")
  case True
  then obtain auth req where "c = Api auth req" by blast
  with run have "forget (handle (sv_io sv) auth req) s = (r, t)" by simp
  from forget_run [OF this] obtain q where q: "handle (sv_io sv) auth req s = (q, t)" by blast
  note sized = database.sized_handle [OF db assms(2), of auth req, unfolded sized_def]
  show ?thesis
  proof (cases q)
    case (Inl e)
    then show ?thesis using post_Inl [OF sized assms(3), of e t] q by blast
  next
    case (Inr x)
    then show ?thesis using post_Inr [OF sized assms(3), of x t] q by blast
  qed
next
  case False
  then have "keeps (ports_frame (runtimes s) (leases s)) (on_call sv c)" by (intro call_frame [OF db]) blast
  from keepsD [OF this _ run] assms(3) show ?thesis by (simp add: ports_frame_def rows_inv_def)
qed

lemma call_ports:
  assumes db: "database (sv_io sv)" and "ports_inv_except X s" and run: "on_call sv c s = (r, t)"
  shows "case r of Inr _ \<Rightarrow> ports_inv_except X t | Inl e \<Rightarrow> inv_err X e t"
proof (cases "\<exists>auth req. c = Api auth req")
  case True
  then obtain auth req where "c = Api auth req" by blast
  with run have "forget (handle (sv_io sv) auth req) s = (r, t)" by simp
  from forget_run [OF this] obtain q where q: "handle (sv_io sv) auth req s = (q, t)"
    "case r of Inl e \<Rightarrow> q = Inl e | Inr _ \<Rightarrow> \<exists>x. q = Inr x" by blast
  note post = database.post_handle [OF db, of X auth req]
  show ?thesis
  proof (cases q)
    case (Inr x)
    then have "ports_inv_except X t" using post_Inr [OF post assms(2)] q by blast
    with q Inr show ?thesis by (cases r) simp_all
  next
    case (Inl e)
    then have "inv_err X e t" using post_Inl [OF post assms(2)] q by blast
    with q Inl show ?thesis by (cases r) simp_all
  qed
next
  case False
  then have "keeps (ports_inv_except X) (on_call sv c)"
    by (intro database.keeps_inv_frame [OF db] call_frame [OF db]) blast
  from keepsD [OF this assms(2) run] show ?thesis by (simp add: inv_err_def split: sum.split)
qed

lemma history_rows:
  assumes "history_of sv s h t" and "database (sv_io sv)" and "defaults_in_bounds (io_config (sv_io sv))" and "rows_inv s"
  shows "rows_inv t"
  using assms(1)
proof induction
  case (further h t l u)
  obtain c q where "l = (c, q)" by (cases l)
  with further.hyps(2) have "service_step sv t (c, q) u" by simp
  then show ?case
    by (cases rule: step_cases) (use call_rows [OF assms(2,3) further.IH] further.IH in \<open>auto simp: rows_inv_def\<close>)
qed (rule assms(4))

lemma ports_inv_except_ext [simp]: "ports_inv_except X (s\<lparr>ext := v\<rparr>) = ports_inv_except X s"
  by (simp add: ports_inv_except_def owned_def bound_ports_def held_ports_def)

text \<open>Each failed allocation costs at most one sandbox its ports.\<close>

lemma history_ports:
  assumes "history_of sv s h t" and "database (sv_io sv)" and "ports_inv s"
  shows "\<exists>X. finite X \<and> card X \<le> shortages h \<and> ports_inv_except X t"
  using assms(1)
proof induction
  case here
  show ?case by (intro exI [of _ "{}"]) (simp add: assms(3))
next
  case (further h t l u)
  then obtain X where X: "finite X" "card X \<le> shortages h" "ports_inv_except X t" by blast
  obtain c q where l: "l = (c, q)" by (cases l)
  with further.hyps(2) have "service_step sv t (c, q) u" by simp
  then show ?case
  proof (cases rule: step_cases)
    case (call r)
    have "case r of Inr _ \<Rightarrow> ports_inv_except X u | Inl e \<Rightarrow> inv_err X e u"
      by (rule call_ports [OF assms(2) X(3) call(1)])
    then consider (same) "ports_inv_except X u"
      | (lost) rid where "q = Some shortage" and "ports_inv_except (insert rid X) u"
      using call(2) by (auto simp: inv_err_def shortage_def split: sum.splits)
    then show ?thesis
    proof cases
      case same
      moreover have "card X \<le> shortages (l # h)" using X(2) by (simp add: shortages_def)
      ultimately show ?thesis using X(1) by blast
    next
      case (lost rid)
      have "card (insert rid X) \<le> Suc (card X)" by (simp add: card_insert_if X(1))
      also have "\<dots> \<le> shortages (l # h)" using X(2) lost(1) l by (simp add: shortages_def)
      finally show ?thesis using X(1) lost(2) by blast
    qed
  next
    case (world v)
    with X l show ?thesis by (auto simp: shortages_def)
  qed
qed

lemma empty_tables_inv: "rows_inv (empty_tables v)" "ports_inv (empty_tables v)"
  by (simp_all add: empty_tables_def rows_inv_def ports_inv_except_def owned_def tables_ok_def table_ok_def)

section \<open>Revocations stay\<close>

lemma keeps_revoked_frame:
  assumes "\<And>m R. keeps (sessions_frame m R) x"
  shows "keeps (is_revoked io token) x"
proof (rule keepsI)
  fix s r t assume s: "is_revoked io token s" and run: "x s = (r, t)"
  have "sessions_frame (sessions s) (revoked s) t"
    by (rule keepsD [OF assms _ run]) (simp add: sessions_frame_def)
  with s show "is_revoked io token t" by (simp add: sessions_frame_def is_revoked_def)
qed

lemma keeps_sessions_proxy [keeps_intros]:
  "keeps (sessions_frame m R) (serve_http io parse u h)" "keeps (sessions_frame m R) (serve_upgrade io parse w h)"
  "keeps (sessions_frame m R) (health io)"
proof -
  have "keeps (sessions_frame m R) (proxy_target io p)" for p
    unfolding proxy_target_def validateProxyAccessBySandbox_def validateProxyAccessBySignedToken_def
      resolveProxyTarget_def resolveSignedPreviewToken_def
    by (cases p) (simp_all only: proxyMatch.case Let_def, (intro keeps_intros)+)
  then show "keeps (sessions_frame m R) (serve_http io parse u h)"
    "keeps (sessions_frame m R) (serve_upgrade io parse w h)"
    unfolding serve_http_def handleHttp_def serve_upgrade_def handleUpgrade_def by (intro keeps_intros | assumption)+
  show "keeps (sessions_frame m R) (health io)"
    unfolding health_def ensureLocalHost_def Let_def by (intro keeps_intros)
qed

lemma keeps_revoked_sessions [keeps_intros]:
  "keeps (is_revoked io token) (modify (\<lambda>s. s\<lparr>sessions := f s\<rparr>))"
  "keeps (is_revoked io token) (outside_pure g)" "keeps (is_revoked io token) (dateNow io')"
  "keeps (is_revoked io token) (revoked_findOne io' p)"
proof -
  have e: "is_revoked io token (s\<lparr>ext := v\<rparr>)" if "is_revoked io token s" for s v
    using that by (simp add: is_revoked_def)
  show "keeps (is_revoked io token) (outside_pure g)" "keeps (is_revoked io token) (dateNow io')"
    by (rule keeps_outside_pure keeps_clock(1), erule e)+
  show "keeps (is_revoked io token) (modify (\<lambda>s. s\<lparr>sessions := f s\<rparr>))"
    by (rule keeps_modify) (simp add: is_revoked_def)
  show "keeps (is_revoked io token) (revoked_findOne io' p)"
    unfolding revoked_findOne_def by (rule keeps_gets)
qed

context database begin

lemma keeps_revoked_insert [keeps_intros]: "keeps (is_revoked io token) (revoked_insert io r)"
proof (rule keepsI)
  fix s q t assume s: "is_revoked io token s" and run: "revoked_insert io r s = (q, t)"
  have "set (revoked s) \<subseteq> set (revoked t)"
    by (rule rv.insert_cases [of "revoked s" r]) (use run in \<open>auto simp: revoked_insert_def\<close>)
  with s show "is_revoked io token t" by (auto simp: is_revoked_def)
qed

lemma keeps_revoked_ssh: "keeps (is_revoked io token) (ssh_handle io url auth req)"
  unfolding ssh_handle_def
  by (cases req) (simp_all only: ssh_route.simps route_createSession_def createSession_def pruneExpired_def
      set_session_def route_revokeSession_def revokeSession_def drop_session_def route_validateToken_def
      validateSession_def isRevoked_def findRuntimeBySandboxId_def runtime_findOne_def Let_def, (intro keeps_intros)+)

lemma revoked_refused:
  assumes "is_revoked io token u"
  shows "ssh_handle io url auth (ValidateSshToken token) u \<noteq> (Inr v, w)"
  using assms by (auto simp: ssh_handle_admitted bnd_Inr route_validateToken_def validateSession_run)

lemma revoke_handled:
  assumes "ssh_handle io url auth (RevokeSshSession token) s = (Inr y, t)"
  shows "is_revoked io token t"
proof -
  have "route_revokeSession io token s = (Inr (token, True), t)"
    using assms by (auto simp: ssh_handle_admitted bnd_Inr route_revokeSession_def split: if_splits)
  then obtain x u where x: "revokeSession io token s = (Inr x, u)"
      "(if \<not> x then throw (BadRequestException ''Session token not found or already revoked'') else ret (token, True)) u =
        (Inr (token, True), t)"
    unfolding route_revokeSession_def by (rule bnd_InrE)
  then have run: "revokeSession io token s = (Inr True, t)" by (cases x) simp_all
  show ?thesis
    by (rule revokeSession_run [of token s]) (use run in \<open>auto simp: is_revoked_def ssh_hash_def\<close>)
qed

end

lemma history_revoked:
  assumes "history_of sv s h t" and db: "database (sv_io sv)" and "is_revoked (sv_io sv) token s"
  shows "is_revoked (sv_io sv) token t"
  using assms(1)
proof induction
  case (further h t l u)
  obtain c q where "l = (c, q)" by (cases l)
  with further.hyps(2) have "service_step sv t (c, q) u" by simp
  then show ?case
  proof (cases rule: step_cases)
    case (call r)
    have "keeps (is_revoked (sv_io sv) token) (on_call sv c)"
    proof (cases c)
      case Restart
      show ?thesis unfolding Restart on_call.simps restart_def ensureLocalHost_def Let_def
        by (intro keeps_intros keeps_revoked_frame)
    qed (simp_all only: on_call.simps, (intro keeps_forget database.keeps_revoked_ssh [OF db] keeps_ret
        keeps_revoked_frame keeps_sessions_handle keeps_sessions_proxy)+)
    from keepsD [OF this further.IH call(1)] show ?thesis .
  next
    case (world v)
    with further.IH show ?thesis by (simp add: is_revoked_def)
  qed
qed (rule assms(3))

section \<open>Properties\<close>

text \<open>C1: however the service is used and whatever happens around it, sandboxes do not share host ports.
  After any history of requests, SSH calls, proxy requests, health checks, restarts and outside
  events that started in a safe state, such as the empty one, all tables have their keys and
  constraints, and but for at most as many sandboxes as allocations have failed for want of ports,
  every host port a sandbox is bound to is leased to it, and no two are bound to the same one.\<close>

theorem service_ports_safe:
  assumes "database (sv_io sv)" and "ports_inv s" and "history_of sv s h t"
  shows "tables_ok t \<and>
    (\<exists>X. finite X \<and> card X \<le> shortages h \<and>
      (\<forall>a \<in> set (runtimes t). rt_id a \<notin> X \<longrightarrow>
         pb_hostPort ` set (rt_portBindings a) \<subseteq> held_ports t (rt_id a) \<and>
         (\<forall>b \<in> set (runtimes t). rt_id b \<notin> X \<longrightarrow> a \<noteq> b \<longrightarrow>
            pb_hostPort ` set (rt_portBindings a) \<inter> pb_hostPort ` set (rt_portBindings b) = {})))"
proof -
  obtain X where X: "finite X" "card X \<le> shortages h" and inv: "ports_inv_except X t"
    using history_ports [OF assms(3,1,2)] by blast
  have same: "a = b" if "a \<in> set (runtimes t)" "b \<in> set (runtimes t)" "rt_id a \<notin> X" "rt_id b \<notin> X"
      "p \<in> pb_hostPort ` set (rt_portBindings a)" "p \<in> pb_hostPort ` set (rt_portBindings b)" for a b p
    by (rule host_port_owner_except [OF inv that assms(1)])
  show ?thesis
  proof (intro conjI exI [of _ X] ballI impI X)
    show "tables_ok t" using inv by (simp add: ports_inv_except_def)
    fix a assume a: "a \<in> set (runtimes t)" "rt_id a \<notin> X"
    then show "pb_hostPort ` set (rt_portBindings a) \<subseteq> held_ports t (rt_id a)"
      using inv by (simp add: ports_inv_except_def bound_ports_def)
    fix b assume "b \<in> set (runtimes t)" and "rt_id b \<notin> X" and "a \<noteq> b"
    then show "pb_hostPort ` set (rt_portBindings a) \<inter> pb_hostPort ` set (rt_portBindings b) = {}"
      using same [OF a(1) _ a(2)] by blast
  qed
qed

definition demo_service :: "world service" where
  "demo_service = \<lparr>sv_io = demo_io empty_config, sv_hostname = (\<lambda>_. Some ''localhost''), sv_parse = (\<lambda>_. None)\<rparr>"

lemma demo_health: "\<exists>t. on_call demo_service HealthCheck demo_sys = (Inr (), t) \<and> runtimes t = [demo_runtime]"
  by (simp add: demo_service_def forget_def health_def ensureLocalHost_def bnd_run host_findOne_def host_save_def
      dateNow_def outside_pure_def host_table_def mem_repo_def mem_save_def demo_sys_def sys0_def Let_def)

theorem service_ports_safe_witness:
  "\<exists>t. history_of demo_service demo_sys [(HealthCheck, None)] t \<and> runtimes t = [demo_runtime] \<and>
     5 \<in> held_ports t ''r1''"
proof -
  obtain t where run: "on_call demo_service HealthCheck demo_sys = (Inr (), t)" and t: "runtimes t = [demo_runtime]"
    using demo_health by blast
  have hist: "history_of demo_service demo_sys [(HealthCheck, None)] t"
    by (rule history_of.further [OF history_of.here service_step.returns [OF run]])
  have db: "database (sv_io demo_service)" by (simp add: demo_service_def)
  have none: "shortages [(HealthCheck, None)] = 0" by (simp add: shortages_def)
  from service_ports_safe [OF db ports_inv_demo hist, unfolded none] t have "5 \<in> held_ports t ''r1''"
    by (auto simp: demo_runtime_def)
  with hist t show ?thesis by blast
qed

text \<open>C12: however the service was used before, the proxy forwards only to the sandbox that the request
  proves a right to. When a request is forwarded to a host port after any history, the port is
  the host port of a binding of a stored sandbox, and the sandbox is public, or the request carried its
  token, or it carried a stored signed token for the binding's container port that names the
  sandbox and has not expired; but for at most as many sandboxes as allocations have failed, no
  other sandbox has a binding with that port.\<close>

theorem proxy_forwards_safely:
  assumes "database (sv_io sv)" and "ports_inv s" and "history_of sv s h t"
  shows "\<exists>X. finite X \<and> card X \<le> shortages h \<and>
    (\<forall>url header path hp u. serve_http (sv_io sv) (sv_parse sv) url header t = (Inr (Forward path hp), u) \<longrightarrow>
      (\<exists>r b. r \<in> set (runtimes t) \<and> b \<in> set (rt_portBindings r) \<and> pb_hostPort b = hp \<and>
        (\<forall>r' \<in> set (runtimes t). rt_id r \<notin> X \<longrightarrow> rt_id r' \<notin> X \<longrightarrow>
           hp \<in> pb_hostPort ` set (rt_portBindings r') \<longrightarrow> r' = r) \<and>
        (rt_public r \<or>
         (\<exists>sid p q. proxy_extract (sv_parse sv) url header = Inr (Some (StandardMatch sid p q (Some (rt_authToken r))))) \<or>
         (\<exists>k \<in> set (previews t). sp_port k = pb_containerPort b \<and>
            fst (io_now (sv_io sv) (ext t)) < sp_expiresAt k \<and>
            (\<exists>q. proxy_extract (sv_parse sv) url header = Inr (Some (SignedMatch (sp_token k) (sp_port k) q))) \<and>
            (\<exists>n. normalizeSandboxId (sp_sandboxId k) = Inr n \<and> (rt_sandboxId r = n \<or> rt_name r = Some n))))))"
proof -
  obtain X where X: "finite X" "card X \<le> shortages h" and inv: "ports_inv_except X t"
    using history_ports [OF assms(3,1,2)] by blast
  show ?thesis
  proof (intro exI [of _ X] conjI X allI impI)
    fix url header path hp u
    assume run: "serve_http (sv_io sv) (sv_parse sv) url header t = (Inr (Forward path hp), u)"
    show "\<exists>r b. r \<in> set (runtimes t) \<and> b \<in> set (rt_portBindings r) \<and>
        pb_hostPort b = hp \<and>
        (\<forall>r' \<in> set (runtimes t). rt_id r \<notin> X \<longrightarrow> rt_id r' \<notin> X \<longrightarrow>
           hp \<in> pb_hostPort ` set (rt_portBindings r') \<longrightarrow> r' = r) \<and>
        (rt_public r \<or>
         (\<exists>sid p q. proxy_extract (sv_parse sv) url header = Inr (Some (StandardMatch sid p q (Some (rt_authToken r))))) \<or>
         (\<exists>k \<in> set (previews t). sp_port k = pb_containerPort b \<and>
            fst (io_now (sv_io sv) (ext t)) < sp_expiresAt k \<and>
            (\<exists>q. proxy_extract (sv_parse sv) url header = Inr (Some (SignedMatch (sp_token k) (sp_port k) q))) \<and>
            (\<exists>n. normalizeSandboxId (sp_sandboxId k) = Inr n \<and> (rt_sandboxId r = n \<or> rt_name r = Some n))))"
      by (rule forward_access [OF assms(1) inv run], intro exI conjI; assumption)
  qed
qed

definition live_service :: "world service" where
  "live_service = \<lparr>sv_io = demo_io empty_config, sv_hostname = (\<lambda>_. Some ''localhost''),
     sv_parse = one_url ''/proxy/box/ports/8080''\<rparr>"

theorem proxy_forwards_safely_witness:
  "\<exists>r b. r \<in> set (runtimes live_sys) \<and> b \<in> set (rt_portBindings r) \<and> pb_hostPort b = 5"
proof -
  have db: "database (sv_io live_service)" by (simp add: live_service_def)
  have "serve_http (sv_io live_service) (sv_parse live_service) ''/proxy/box/ports/8080'' (Some (HeaderOne ''secret''))
      live_sys = (Inr (Forward ''/'' 5), live_sys)"
    using live_forward by (simp add: live_service_def)
  with proxy_forwards_safely [OF db live_safe history_of.here] show ?thesis by blast
qed

text \<open>C31: a revoked SSH token is dead for good: after a revocation through the API no history of calls,
  restarts and outside events makes the service validate it again.\<close>

theorem revoked_for_good:
  assumes "database (sv_io sv)"
    and "ssh_handle (sv_io sv) (sv_hostname sv) auth (RevokeSshSession token) s = (Inr y, t)"
    and "history_of sv t h u"
  shows "\<nexists>v w. ssh_handle (sv_io sv) (sv_hostname sv) auth' (ValidateSshToken token) u = (Inr v, w)"
  using database.revoked_refused [OF assms(1) history_revoked [OF assms(3,1) database.revoke_handled [OF assms(1,2)]]]
  by blast

lemma demo_revoke:
  "\<exists>y t. ssh_handle (sv_io demo_service) (sv_hostname demo_service) None (RevokeSshSession ''tok'') sys0 = (Inr y, t)"
  by (simp add: demo_service_def ssh_handle_def bnd_run internalAuth_canActivate_def internalApiToken_def opt_trim_def
      empty_config_def route_revokeSession_def revokeSession_def drop_session_def catching_run revoked_insert_def
      revoked_table_def mem_repo_def mem_insert_def sys0_def Let_def)

theorem revoked_for_good_witness:
  "\<exists>y t h u. ssh_handle (sv_io demo_service) (sv_hostname demo_service) None (RevokeSshSession ''tok'') sys0 = (Inr y, t) \<and>
     h = [(Restart, None)] \<and> history_of demo_service t h u \<and>
     (\<nexists>v w. ssh_handle (sv_io demo_service) (sv_hostname demo_service) None (ValidateSshToken ''tok'') u = (Inr v, w))"
proof -
  obtain y t where run: "ssh_handle (sv_io demo_service) (sv_hostname demo_service) None (RevokeSshSession ''tok'') sys0 = (Inr y, t)"
    using demo_revoke by blast
  have "hosts t = []"
    using run by (auto simp: demo_service_def ssh_handle_def bnd_run internalAuth_canActivate_def internalApiToken_def
        opt_trim_def empty_config_def route_revokeSession_def revokeSession_def drop_session_def catching_run
        revoked_insert_def revoked_table_def mem_repo_def mem_insert_def sys0_def Let_def)
  then have "\<exists>u. on_call demo_service Restart t = (Inr (), u)"
    by (simp add: demo_service_def restart_def ensureLocalHost_def bnd_run host_findOne_def host_save_def
        dateNow_def outside_pure_def host_table_def mem_repo_def mem_save_def Let_def)
  then obtain u where "on_call demo_service Restart t = (Inr (), u)" by blast
  then have hist: "history_of demo_service t [(Restart, None)] u"
    by (intro history_of.further [OF history_of.here] service_step.returns)
  have db: "database (sv_io demo_service)" by (simp add: demo_service_def)
  show ?thesis using revoked_for_good [OF db run hist] run hist by blast
qed

end
