(* ===== verification/Routes.thy ===== *)
theory Routes
  imports SshApi
begin

text \<open>
  The routes that the decorators of the controllers declare (runtime-control/sandbox.controller.ts,
  ssh/ssh.controller.ts, health/health.controller.ts): a method and a path of fixed segments and
  parameters, with or without the guard. The framework splits the path, decodes its segments, tells
  whether they fit a declared path, reads a number in a path and the body for the class of the
  parameter. It is not part of the repository: a \<open>router\<close> is an argument of the definitions, and the
  locale \<open>routing\<close> has what its documentation promises; a request has the segments and, for every
  class, what the framework made of the body. The first route that fits serves a request: the
  guard comes first, then the pipes of the parameters, then the method.
\<close>

section \<open>Declared routes\<close>

datatype http_method = Get | Post | Put | Delete

datatype segment = Lit string | Param

text \<open>One name per method of the three controllers.\<close>

datatype endpoint =
    E_list | E_create | E_ensure | E_update | E_get | E_start | E_stop | E_delete
  | E_previewUrl | E_signedPreviewUrl | E_expireSignedPreviewUrl
  | E_exec | E_refreshActivity | E_writeFiles | E_downloadFiles
  | E_listVolumes | E_createVolume | E_getVolume | E_deleteVolume | E_listImages | E_pullImage
  | E_previewPublic | E_previewValidate | E_previewResolve
  | E_createSession | E_revokeSession | E_validateToken | E_health

record declared =
  de_method :: http_method
  de_path :: "segment list"
  de_guarded :: bool
  de_endpoint :: endpoint

definition decl :: "http_method \<Rightarrow> segment list \<Rightarrow> bool \<Rightarrow> endpoint \<Rightarrow> declared" where
  "decl m p g e = \<lparr>de_method = m, de_path = p, de_guarded = g, de_endpoint = e\<rparr>"

definition sandbox_routes :: "declared list" where
  "sandbox_routes =
     [decl Get [Lit ''sandboxes''] True E_list,
      decl Post [Lit ''sandboxes''] True E_create,
      decl Post [Lit ''sandboxes'', Lit ''ensure''] True E_ensure,
      decl Put [Lit ''sandboxes'', Param] True E_update,
      decl Get [Lit ''sandboxes'', Param] True E_get,
      decl Post [Lit ''sandboxes'', Param, Lit ''start''] True E_start,
      decl Post [Lit ''sandboxes'', Param, Lit ''stop''] True E_stop,
      decl Delete [Lit ''sandboxes'', Param] True E_delete,
      decl Get [Lit ''sandboxes'', Param, Lit ''ports'', Param, Lit ''preview-url''] True E_previewUrl,
      decl Get [Lit ''sandboxes'', Param, Lit ''ports'', Param, Lit ''signed-preview-url''] True E_signedPreviewUrl,
      decl Post [Lit ''sandboxes'', Param, Lit ''ports'', Param, Lit ''signed-preview-url'', Param, Lit ''expire'']
        True E_expireSignedPreviewUrl]"

definition access_routes :: "declared list" where
  "access_routes =
     [decl Post [Lit ''runtime-access'', Param, Lit ''exec''] True E_exec,
      decl Post [Lit ''internal'', Lit ''runtimes'', Param, Lit ''refresh-activity''] True E_refreshActivity,
      decl Post [Lit ''runtime-access'', Param, Lit ''files''] True E_writeFiles,
      decl Post [Lit ''runtime-access'', Param, Lit ''files'', Lit ''download''] True E_downloadFiles]"

definition store_routes :: "declared list" where
  "store_routes =
     [decl Get [Lit ''volumes''] True E_listVolumes,
      decl Post [Lit ''volumes''] True E_createVolume,
      decl Get [Lit ''volumes'', Param] True E_getVolume,
      decl Delete [Lit ''volumes'', Param] True E_deleteVolume,
      decl Get [Lit ''images''] True E_listImages,
      decl Post [Lit ''images'', Lit ''pull''] True E_pullImage]"

definition preview_routes :: "declared list" where
  "preview_routes =
     [decl Get [Lit ''preview'', Param, Lit ''public''] False E_previewPublic,
      decl Get [Lit ''preview'', Param, Lit ''validate'', Param] False E_previewValidate,
      decl Get [Lit ''preview'', Param, Param, Lit ''sandbox-id''] False E_previewResolve]"

definition ssh_routes :: "declared list" where
  "ssh_routes =
     [decl Post [Lit ''ssh-session''] True E_createSession,
      decl Delete [Lit ''ssh-session'', Param] True E_revokeSession,
      decl Get [Lit ''ssh'', Lit ''validate''] True E_validateToken]"

definition health_routes :: "declared list" where
  "health_routes = [decl Get [Lit ''health''] False E_health]"

text \<open>
  The controllers of the module in their order, then those of the module it imports; routes of
  different controllers never overlap (see \<open>routes_unambiguous\<close>).
\<close>

definition all_routes :: "declared list" where
  "all_routes = health_routes @ sandbox_routes @ access_routes @ store_routes @ preview_routes @ ssh_routes"

section \<open>The router of the framework\<close>

text \<open>
  Whether the segments of a path fit a declared path, with the values of its parameters, and the
  pipe that reads a number.
\<close>

record router =
  ro_match :: "segment list \<Rightarrow> string list \<Rightarrow> string list option"
  ro_parseInt :: "string \<Rightarrow> exn + int"

fun find_route ::
  "router \<Rightarrow> declared list \<Rightarrow> http_method \<Rightarrow> string list \<Rightarrow> (declared \<times> string list) option" where
  "find_route ro [] m path = None"
| "find_route ro (d # ds) m path =
     (if de_method d \<noteq> m then find_route ro ds m path
      else (case ro_match ro (de_path d) path of
              None \<Rightarrow> find_route ro ds m path
            | Some params \<Rightarrow> Some (d, params)))"

text \<open>The segments are those of the declared path, up to the case of letters where \<open>loose\<close>.\<close>

fun seg_fits :: "bool \<Rightarrow> segment \<Rightarrow> string \<Rightarrow> bool" where
  "seg_fits loose (Lit l) s \<longleftrightarrow> (if loose then toLowerCase l = toLowerCase s else l = s)"
| "seg_fits loose Param s \<longleftrightarrow> True"

fun param_values :: "segment list \<Rightarrow> string list \<Rightarrow> string list" where
  "param_values (Lit l # ps) (s # ss) = param_values ps ss"
| "param_values (Param # ps) (s # ss) = s # param_values ps ss"
| "param_values _ _ = []"

text \<open>The numbers that a double holds exactly.\<close>

definition safe_int :: "int \<Rightarrow> bool" where
  "safe_int i \<longleftrightarrow> \<bar>i\<bar> \<le> 9007199254740991"

text \<open>
  What the routes rely on, for paths without empty segments: the declared path with values for its
  parameters fits and yields the values; what fits has as many segments, and the fixed ones up to
  the case of letters (the router ignores it unless told otherwise); a written number is read.
\<close>

locale routing =
  fixes ro :: router
  assumes match_exact: "list_all (\<lambda>s. s \<noteq> []) path \<Longrightarrow> list_all2 (seg_fits False) p path \<Longrightarrow>
      ro_match ro p path = Some (param_values p path)"
    and match_loose: "list_all (\<lambda>s. s \<noteq> []) path \<Longrightarrow> ro_match ro p path \<noteq> None \<Longrightarrow>
      list_all2 (seg_fits True) p path"
    and parse_written: "safe_int i \<Longrightarrow> ro_parseInt ro (int_digits i) = Inr i"

section \<open>Parameters and bodies\<close>

record createSessionBody =
  cb_sandboxId :: string
  cb_expiryMinutes :: "int option"

text \<open>What the framework makes of the body, for a parameter of each class.\<close>

record bodies =
  as_create :: "exn + sandboxSpecDto"
  as_ensure :: "exn + ensureRuntimeDto"
  as_update :: "exn + updateSandboxDto"
  as_exec :: "exn + execRuntimeDto"
  as_write :: "exn + writeFilesDto"
  as_download :: "exn + downloadFilesDto"
  as_volume :: "exn + createVolumeDto"
  as_pull :: "exn + pullImageBody"
  as_session :: "exn + createSessionBody"

datatype target = ToApi request | ToSsh ssh_request | ToHealth

definition with_body :: "exn + 'b \<Rightarrow> ('b \<Rightarrow> request) \<Rightarrow> exn + target" where
  "with_body b f = (case b of Inl e \<Rightarrow> Inl e | Inr x \<Rightarrow> Inr (ToApi (f x)))"

definition with_port :: "router \<Rightarrow> string \<Rightarrow> (int \<Rightarrow> request) \<Rightarrow> exn + target" where
  "with_port ro s f = (case ro_parseInt ro s of Inl e \<Rightarrow> Inl e | Inr p \<Rightarrow> Inr (ToApi (f p)))"

text \<open>The arguments of a method, in the order of the path's parameters; \<open>q\<close> is the query's token.\<close>

definition par :: "string list \<Rightarrow> nat \<Rightarrow> string" where
  "par ps n = (case drop n ps of [] \<Rightarrow> [] | x # _ \<Rightarrow> x)"

fun arguments :: "router \<Rightarrow> endpoint \<Rightarrow> string list \<Rightarrow> string \<Rightarrow> bodies \<Rightarrow> exn + target" where
  "arguments ro E_list ps q b = Inr (ToApi ListSandboxes)"
| "arguments ro E_create ps q b = with_body (as_create b) CreateSandbox"
| "arguments ro E_ensure ps q b = with_body (as_ensure b) EnsureSandbox"
| "arguments ro E_update ps q b = with_body (as_update b) (UpdateSandbox (par ps 0))"
| "arguments ro E_get ps q b = Inr (ToApi (GetSandbox (par ps 0)))"
| "arguments ro E_start ps q b = Inr (ToApi (StartSandbox (par ps 0)))"
| "arguments ro E_stop ps q b = Inr (ToApi (StopSandbox (par ps 0)))"
| "arguments ro E_delete ps q b = Inr (ToApi (DeleteSandbox (par ps 0)))"
| "arguments ro E_previewUrl ps q b = with_port ro (par ps 1) (PreviewUrl (par ps 0))"
| "arguments ro E_signedPreviewUrl ps q b = with_port ro (par ps 1) (SignedPreviewUrl (par ps 0))"
| "arguments ro E_expireSignedPreviewUrl ps q b = with_port ro (par ps 1) (\<lambda>n. ExpireSignedPreviewUrl (par ps 0) n (par ps 2))"
| "arguments ro E_exec ps q b = with_body (as_exec b) (ExecCommand (par ps 0))"
| "arguments ro E_refreshActivity ps q b = Inr (ToApi (RefreshActivity (par ps 0)))"
| "arguments ro E_writeFiles ps q b = with_body (as_write b) (WriteFiles (par ps 0))"
| "arguments ro E_downloadFiles ps q b = with_body (as_download b) (DownloadFiles (par ps 0))"
| "arguments ro E_listVolumes ps q b = Inr (ToApi ListVolumes)"
| "arguments ro E_createVolume ps q b = with_body (as_volume b) CreateVolume"
| "arguments ro E_getVolume ps q b = Inr (ToApi (GetVolume (par ps 0)))"
| "arguments ro E_deleteVolume ps q b = Inr (ToApi (DeleteVolume (par ps 0)))"
| "arguments ro E_listImages ps q b = Inr (ToApi ListImages)"
| "arguments ro E_pullImage ps q b = with_body (as_pull b) PullImage"
| "arguments ro E_previewPublic ps q b = Inr (ToApi (PreviewPublic (par ps 0)))"
| "arguments ro E_previewValidate ps q b = Inr (ToApi (PreviewValidate (par ps 0) (par ps 1)))"
| "arguments ro E_previewResolve ps q b = with_port ro (par ps 1) (PreviewResolve (par ps 0))"
| "arguments ro E_createSession ps q b = (case as_session b of Inl e \<Rightarrow> Inl e
      | Inr s \<Rightarrow> Inr (ToSsh (CreateSshSession (cb_sandboxId s) (cb_expiryMinutes s))))"
| "arguments ro E_revokeSession ps q b = Inr (ToSsh (RevokeSshSession (par ps 0)))"
| "arguments ro E_validateToken ps q b = Inr (ToSsh (ValidateSshToken q))"
| "arguments ro E_health ps q b = Inr ToHealth"

section \<open>Serving a request\<close>

datatype served = NoRoute | ApiReply response | SshReply ssh_response | HealthReply "bool \<times> string \<times> string"

text \<open>The method, after the validation pipe for the body.\<close>

fun run_target :: "'v io \<Rightarrow> (string \<Rightarrow> string option) \<Rightarrow> target \<Rightarrow> ('v sys, served) eff" where
  "run_target io url_hostname (ToApi req) = bnd (validated io req) (\<lambda>x. ret (ApiReply x))"
| "run_target io url_hostname (ToSsh req) =
     bnd (if valid_ssh_request req then ssh_route io url_hostname req
          else throw (BadRequestException ''Bad Request Exception'')) (\<lambda>x. ret (SshReply x))"
| "run_target io url_hostname ToHealth = bnd (health io) (\<lambda>x. ret (HealthReply x))"

definition serve_path ::
  "router \<Rightarrow> 'v io \<Rightarrow> (string \<Rightarrow> string option) \<Rightarrow> header option \<Rightarrow> http_method \<Rightarrow> string list \<Rightarrow> string \<Rightarrow> bodies \<Rightarrow>
   ('v sys, served) eff" where
  "serve_path ro io url_hostname auth m path q b =
     (case find_route ro all_routes m path of
        None \<Rightarrow> ret NoRoute
      | Some (d, params) \<Rightarrow>
          bnd (if de_guarded d then lift_sum (internalAuth_canActivate (io_config io) auth) else ret True) (\<lambda>_.
          bnd (lift_sum (arguments ro (de_endpoint d) params q b)) (run_target io url_hostname)))"

section \<open>Addresses\<close>

text \<open>Method, path and query token under which a client asks for something.\<close>

fun api_address :: "request \<Rightarrow> http_method \<times> string list" where
  "api_address ListSandboxes = (Get, [''sandboxes''])"
| "api_address (CreateSandbox d) = (Post, [''sandboxes''])"
| "api_address (EnsureSandbox d) = (Post, [''sandboxes'', ''ensure''])"
| "api_address (UpdateSandbox x d) = (Put, [''sandboxes'', x])"
| "api_address (GetSandbox x) = (Get, [''sandboxes'', x])"
| "api_address (StartSandbox x) = (Post, [''sandboxes'', x, ''start''])"
| "api_address (StopSandbox x) = (Post, [''sandboxes'', x, ''stop''])"
| "api_address (DeleteSandbox x) = (Delete, [''sandboxes'', x])"
| "api_address (PreviewUrl x p) = (Get, [''sandboxes'', x, ''ports'', int_digits p, ''preview-url''])"
| "api_address (SignedPreviewUrl x p) = (Get, [''sandboxes'', x, ''ports'', int_digits p, ''signed-preview-url''])"
| "api_address (ExpireSignedPreviewUrl x p k) =
     (Post, [''sandboxes'', x, ''ports'', int_digits p, ''signed-preview-url'', k, ''expire''])"
| "api_address (ExecCommand x d) = (Post, [''runtime-access'', x, ''exec''])"
| "api_address (RefreshActivity x) = (Post, [''internal'', ''runtimes'', x, ''refresh-activity''])"
| "api_address (WriteFiles x d) = (Post, [''runtime-access'', x, ''files''])"
| "api_address (DownloadFiles x d) = (Post, [''runtime-access'', x, ''files'', ''download''])"
| "api_address ListVolumes = (Get, [''volumes''])"
| "api_address (CreateVolume d) = (Post, [''volumes''])"
| "api_address (GetVolume x) = (Get, [''volumes'', x])"
| "api_address (DeleteVolume x) = (Delete, [''volumes'', x])"
| "api_address ListImages = (Get, [''images''])"
| "api_address (PullImage d) = (Post, [''images'', ''pull''])"
| "api_address (PreviewPublic x) = (Get, [''preview'', x, ''public''])"
| "api_address (PreviewValidate x k) = (Get, [''preview'', x, ''validate'', k])"
| "api_address (PreviewResolve k p) = (Get, [''preview'', k, int_digits p, ''sandbox-id''])"

fun ssh_address :: "ssh_request \<Rightarrow> http_method \<times> string list" where
  "ssh_address (CreateSshSession x m) = (Post, [''ssh-session''])"
| "ssh_address (RevokeSshSession k) = (Delete, [''ssh-session'', k])"
| "ssh_address (ValidateSshToken k) = (Get, [''ssh'', ''validate''])"

text \<open>The body, read for the class of the method, is the request's.\<close>

fun carries :: "bodies \<Rightarrow> request \<Rightarrow> bool" where
  "carries b (CreateSandbox d) = (as_create b = Inr d)"
| "carries b (EnsureSandbox d) = (as_ensure b = Inr d)"
| "carries b (UpdateSandbox x d) = (as_update b = Inr d)"
| "carries b (ExecCommand x d) = (as_exec b = Inr d)"
| "carries b (WriteFiles x d) = (as_write b = Inr d)"
| "carries b (DownloadFiles x d) = (as_download b = Inr d)"
| "carries b (CreateVolume d) = (as_volume b = Inr d)"
| "carries b (PullImage d) = (as_pull b = Inr d)"
| "carries b _ = True"

fun ssh_carries :: "bodies \<Rightarrow> string \<Rightarrow> ssh_request \<Rightarrow> bool" where
  "ssh_carries b q (CreateSshSession x m) = (as_session b = Inr \<lparr>cb_sandboxId = x, cb_expiryMinutes = m\<rparr>)"
| "ssh_carries b q (ValidateSshToken k) = (q = k)"
| "ssh_carries b q (RevokeSshSession k) = True"

text \<open>A port in the path is a number that the framework can hold.\<close>

fun safe_port :: "request \<Rightarrow> bool" where
  "safe_port (PreviewUrl x p) = safe_int p"
| "safe_port (SignedPreviewUrl x p) = safe_int p"
| "safe_port (ExpireSignedPreviewUrl x p k) = safe_int p"
| "safe_port (PreviewResolve k p) = safe_int p"
| "safe_port _ = True"

section \<open>Lemmas\<close>

lemma lower_int_digits [simp]: "toLowerCase (int_digits i) = int_digits i"
proof -
  have "lower_char c = c" if "c \<in> set (int_digits i)" for c
    using int_digits_chars [OF that] lower_char_lower [of c] by (auto simp: lower_char_def)
  then show ?thesis by (simp add: toLowerCase_def map_idI)
qed

lemma int_digits_not_validate [simp]: "int_digits i \<noteq> ''validate''" "''validate'' \<noteq> int_digits i"
proof -
  have no_v: "CHR ''v'' \<notin> set (int_digits i)"
    using int_digits_chars [of "CHR ''v''" i] by (auto simp: is_digit_def)
  show "int_digits i \<noteq> ''validate''"
  proof
    assume "int_digits i = ''validate''"
    with no_v show False by simp
  qed
  then show "''validate'' \<noteq> int_digits i" by metis
qed

text \<open>The fixed segments are in lower case.\<close>

lemma lower_segments:
  "toLowerCase ''sandboxes'' = ''sandboxes''" "toLowerCase ''ensure'' = ''ensure''" "toLowerCase ''start'' = ''start''"
  "toLowerCase ''stop'' = ''stop''" "toLowerCase ''ports'' = ''ports''" "toLowerCase ''preview-url'' = ''preview-url''"
  "toLowerCase ''signed-preview-url'' = ''signed-preview-url''" "toLowerCase ''expire'' = ''expire''"
  "toLowerCase ''runtime-access'' = ''runtime-access''" "toLowerCase ''exec'' = ''exec''"
  "toLowerCase ''internal'' = ''internal''" "toLowerCase ''runtimes'' = ''runtimes''"
  "toLowerCase ''refresh-activity'' = ''refresh-activity''" "toLowerCase ''files'' = ''files''"
  "toLowerCase ''download'' = ''download''" "toLowerCase ''volumes'' = ''volumes''" "toLowerCase ''images'' = ''images''"
  "toLowerCase ''pull'' = ''pull''" "toLowerCase ''preview'' = ''preview''" "toLowerCase ''public'' = ''public''"
  "toLowerCase ''validate'' = ''validate''" "toLowerCase ''sandbox-id'' = ''sandbox-id''"
  "toLowerCase ''ssh-session'' = ''ssh-session''" "toLowerCase ''ssh'' = ''ssh''" "toLowerCase ''health'' = ''health''"
  by code_simp+

lemmas route_tables = all_routes_def sandbox_routes_def access_routes_def store_routes_def preview_routes_def
  ssh_routes_def health_routes_def decl_def

text \<open>Two routes overlap when some path of non-empty segments may fit both.\<close>

fun overlap :: "segment list \<Rightarrow> segment list \<Rightarrow> bool" where
  "overlap [] [] = True"
| "overlap (Lit a # ps) (Lit b # qs) = (toLowerCase a = toLowerCase b \<and> overlap ps qs)"
| "overlap (Lit a # ps) (Param # qs) = overlap ps qs"
| "overlap (Param # ps) (Lit b # qs) = overlap ps qs"
| "overlap (Param # ps) (Param # qs) = overlap ps qs"
| "overlap _ _ = False"

lemma loose_overlap: "list_all2 (seg_fits True) ps path \<Longrightarrow> list_all2 (seg_fits True) qs path \<Longrightarrow> overlap ps qs"
  by (induction ps qs arbitrary: path rule: overlap.induct) (auto simp: list_all2_Cons1)

lemma exact_loose: "list_all2 (seg_fits False) p path \<Longrightarrow> list_all2 (seg_fits True) p path"
proof (erule list_all2_mono)
  show "seg_fits True x y" if "seg_fits False x y" for x y using that by (cases x) simp_all
qed

fun overlaps :: "declared list \<Rightarrow> (endpoint \<times> endpoint) list" where
  "overlaps [] = []"
| "overlaps (d # ds) =
     map (\<lambda>x. (de_endpoint d, de_endpoint x))
       (filter (\<lambda>x. de_method d = de_method x \<and> overlap (de_path d) (de_path x)) ds) @ overlaps ds"

lemma one_overlap: "overlaps all_routes = [(E_previewValidate, E_previewResolve)]"
  by code_simp

lemma in_overlaps:
  "i < j \<Longrightarrow> j < length ds \<Longrightarrow> de_method (ds ! i) = de_method (ds ! j) \<Longrightarrow>
   overlap (de_path (ds ! i)) (de_path (ds ! j)) \<Longrightarrow> (de_endpoint (ds ! i), de_endpoint (ds ! j)) \<in> set (overlaps ds)"
proof (induction ds arbitrary: i j)
  case (Cons d ds)
  show ?case
  proof (cases i)
    case 0
    obtain k where "j = Suc k" using Cons.prems(1) by (cases j) simp_all
    with 0 Cons.prems show ?thesis by (auto intro!: image_eqI [where x = "ds ! k"])
  next
    case (Suc m)
    obtain k where "j = Suc k" using Cons.prems(1) by (cases j) simp_all
    with Suc Cons.prems Cons.IH [of m k] show ?thesis by simp
  qed
qed simp

context routing begin

lemma no_match:
  "list_all (\<lambda>s. s \<noteq> []) path \<Longrightarrow> \<not> list_all2 (seg_fits True) p path \<Longrightarrow> ro_match ro p path = None"
  using match_loose by blast

text \<open>No route hides another, but for the preview look-up of a token under the port name \<open>validate\<close>.\<close>

lemma routes_unambiguous:
  assumes "i < j" and "j < length all_routes" and "de_method (all_routes ! i) = de_method (all_routes ! j)"
    and "list_all (\<lambda>s. s \<noteq> []) path"
    and "ro_match ro (de_path (all_routes ! i)) path \<noteq> None" and "ro_match ro (de_path (all_routes ! j)) path \<noteq> None"
  shows "de_endpoint (all_routes ! i) = E_previewValidate \<and> de_endpoint (all_routes ! j) = E_previewResolve"
  using in_overlaps [OF assms(1-3) loose_overlap [OF match_loose [OF assms(4,5)] match_loose [OF assms(4,6)]]]
  by (simp add: one_overlap)

lemma api_route:
  assumes "list_all (\<lambda>s. s \<noteq> []) (snd (api_address req))" and "safe_port req" and "carries b req"
  shows "\<exists>d params. find_route ro all_routes (fst (api_address req)) (snd (api_address req)) = Some (d, params) \<and>
     de_guarded d = guarded req \<and> arguments ro (de_endpoint d) params q b = Inr (ToApi req)"
  using assms
  by (cases req) (simp_all add: route_tables par_def with_body_def with_port_def no_match match_exact parse_written
      lower_segments)

lemma ssh_routed:
  assumes "list_all (\<lambda>s. s \<noteq> []) (snd (ssh_address req))" and "ssh_carries b q req"
  shows "\<exists>d params. find_route ro all_routes (fst (ssh_address req)) (snd (ssh_address req)) = Some (d, params) \<and>
     de_guarded d \<and> arguments ro (de_endpoint d) params q b = Inr (ToSsh req)"
  using assms by (cases req) (simp_all add: route_tables par_def no_match match_exact lower_segments)

lemma serve_routed:
  assumes "find_route ro all_routes m path = Some (d, params)" and "arguments ro (de_endpoint d) params q b = Inr tg"
  shows "serve_path ro io url auth m path q b =
    bnd (if de_guarded d then lift_sum (internalAuth_canActivate (io_config io) auth) else ret True)
      (\<lambda>_. run_target io url tg)"
proof -
  have "bnd (lift_sum (Inr tg)) (run_target io url) = run_target io url tg"
    by (simp add: fun_eq_iff bnd_run)
  with assms show ?thesis by (simp add: serve_path_def)
qed

lemma ssh_requests_are_routed:
  assumes "list_all (\<lambda>s. s \<noteq> []) (snd (ssh_address req))" and "ssh_carries b q req"
  shows "serve_path ro io url auth (fst (ssh_address req)) (snd (ssh_address req)) q b =
    bnd (ssh_handle io url auth req) (\<lambda>x. ret (SshReply x))"
proof -
  obtain d params where "find_route ro all_routes (fst (ssh_address req)) (snd (ssh_address req)) = Some (d, params)"
    and "de_guarded d" and "arguments ro (de_endpoint d) params q b = Inr (ToSsh req)"
    using ssh_routed [OF assms] by blast
  then show ?thesis by (simp add: serve_routed ssh_handle_def bnd_assoc)
qed

lemma api_requests_are_routed:
  assumes "list_all (\<lambda>s. s \<noteq> []) (snd (api_address req))" and "safe_port req" and "carries b req"
  shows "serve_path ro io url auth (fst (api_address req)) (snd (api_address req)) q b =
    bnd (handle io auth req) (\<lambda>x. ret (ApiReply x))"
proof -
  obtain d params where "find_route ro all_routes (fst (api_address req)) (snd (api_address req)) = Some (d, params)"
    and "de_guarded d = guarded req" and "arguments ro (de_endpoint d) params q b = Inr (ToApi req)"
    using api_route [OF assms] by blast
  then show ?thesis by (cases "guarded req") (simp_all add: serve_routed handle_def bnd_assoc)
qed

end

section \<open>A router that keeps the promises\<close>

text \<open>Segments compared as they are, and the pattern of the pipe: an optional minus sign and digits.\<close>

definition plain_match :: "segment list \<Rightarrow> string list \<Rightarrow> string list option" where
  "plain_match p path = (if list_all2 (seg_fits False) p path then Some (param_values p path) else None)"

definition plain_parseInt :: "string \<Rightarrow> exn + int" where
  "plain_parseInt s =
     (let (neg, ds) = (case s of [] \<Rightarrow> (False, s) | c # r \<Rightarrow> if c = CHR ''-'' then (True, r) else (False, s))
      in if ds \<noteq> [] \<and> list_all is_digit ds
         then Inr (if neg then - int (digits_val ds) else int (digits_val ds))
         else Inl (BadRequestException ''Validation failed (numeric string is expected)''))"

definition plain_router :: router where
  "plain_router = \<lparr>ro_match = plain_match, ro_parseInt = plain_parseInt\<rparr>"

lemma plain_parseInt_digits [simp]: "plain_parseInt (int_digits i) = Inr i"
proof (cases "i < 0")
  case True
  then show ?thesis using nat_digits_all [of "nat (- i)"] by (simp add: plain_parseInt_def int_digits_def)
next
  case False
  then have "int_digits i = nat_digits (nat i)" by (simp add: int_digits_def)
  moreover obtain c r where cr: "nat_digits (nat i) = c # r" by (cases "nat_digits (nat i)") simp_all
  moreover have "c \<noteq> CHR ''-''" using hd_nat_digits [of "nat i"] cr by (auto simp: is_digit_def)
  moreover have "list_all is_digit (c # r)" using nat_digits_all [of "nat i"] cr by simp
  moreover have "int (digits_val (c # r)) = i" using False by (simp flip: cr)
  ultimately show ?thesis by (simp add: plain_parseInt_def)
qed

interpretation plain: routing plain_router
  by unfold_locales (auto simp: plain_router_def plain_match_def exact_loose split: if_splits)

section \<open>Properties\<close>

text \<open>C11: every request to the sandbox API has an address under which the declared routes serve it,
  whatever router the framework has, as long as it fits declared paths as documented: a
  request sent there with its body, with non-empty path parameters and a port that a number can
  hold, passes the guard its method has, the pipes and the validation, and ends in exactly the
  call that was meant; no route that comes before hides it.\<close>

theorem requests_are_routed:
  assumes "routing ro" and "list_all (\<lambda>s. s \<noteq> []) (snd (api_address req))" and "safe_port req" and "carries b req"
  shows "serve_path ro io url auth (fst (api_address req)) (snd (api_address req)) q b =
    bnd (handle io auth req) (\<lambda>x. ret (ApiReply x))"
  using assms by (rule routing.api_requests_are_routed)

definition no_bodies :: bodies where
  "no_bodies = (let e = BadRequestException ''Bad Request Exception'' in
     \<lparr>as_create = Inl e, as_ensure = Inl e, as_update = Inl e, as_exec = Inl e, as_write = Inl e,
      as_download = Inl e, as_volume = Inl e, as_pull = Inl e, as_session = Inl e\<rparr>)"

theorem requests_are_routed_witness:
  "serve_path plain_router (demo_io empty_config) (\<lambda>_. None) None
       Get [''preview'', ''tok'', int_digits 8080, ''sandbox-id''] [] no_bodies =
     bnd (handle (demo_io empty_config) None (PreviewResolve ''tok'' 8080)) (\<lambda>x. ret (ApiReply x))"
proof -
  have "list_all (\<lambda>s. s \<noteq> []) (snd (api_address (PreviewResolve ''tok'' 8080)))"
    by (simp add: int_digits_first(2))
  moreover have "safe_port (PreviewResolve ''tok'' 8080)" by (simp add: safe_int_def)
  moreover have "carries no_bodies (PreviewResolve ''tok'' 8080)" by simp
  ultimately have "serve_path plain_router (demo_io empty_config) (\<lambda>_. None) None
      (fst (api_address (PreviewResolve ''tok'' 8080))) (snd (api_address (PreviewResolve ''tok'' 8080))) [] no_bodies =
    bnd (handle (demo_io empty_config) None (PreviewResolve ''tok'' 8080)) (\<lambda>x. ret (ApiReply x))"
    by (rule requests_are_routed [OF plain.routing_axioms])
  then show ?thesis by simp
qed

end
