(* ===== verification/Logging.thy ===== *)
theory Logging
  imports Config
begin

text \<open>
  \<open>WinstonLoggerService\<close> (logger/winston-logger.service.ts): the outputs and the level that the
  constructor chooses, what each method hands to winston, and the shutdown. Winston, its file
  rotation and the Logtail client are not part of the repository: the model has the options they
  are given, and the entries in the order in which they are handed over.
\<close>

section \<open>The constructor\<close>

text \<open>
  A rotating file has a name, a date pattern, a level of its own, a size, the days kept and whether
  old files are compressed; Logtail a token and an endpoint.
\<close>

datatype logTransport =
    DailyRotateFile string string "string option" string string bool
  | LogtailTransport string string
  | Console

definition default_endpoint :: string where
  "default_endpoint = ''https://s2393059.eu-fsn-3.betterstackdata.com''"

definition file_transports :: "logTransport list" where
  "file_transports =
     [DailyRotateFile ''logs/app-%DATE%.log'' ''YYYY-MM-DD'' None ''20m'' ''14d'' True,
      DailyRotateFile ''logs/error-%DATE%.log'' ''YYYY-MM-DD'' (Some ''error'') ''20m'' ''30d'' True]"

definition production :: "config \<Rightarrow> bool" where
  "production cfg \<longleftrightarrow> process_env cfg ''MICROSANDBOX_ENV'' = Some ''production''"

text \<open>The client for the remote log, with its token and endpoint.\<close>

definition logtail_client :: "config \<Rightarrow> (string \<times> string) option" where
  "logtail_client cfg =
     (if production cfg
      then (case opt_trim (process_env cfg ''BETTER_STACK_TOKEN'') of
              None \<Rightarrow> None
            | Some token \<Rightarrow> Some (token, envOr cfg ''BETTER_STACK_ENDPOINT'' default_endpoint))
      else None)"

definition log_transports :: "config \<Rightarrow> logTransport list" where
  "log_transports cfg =
     file_transports @
     (case logtail_client cfg of None \<Rightarrow> [] | Some (token, endpoint) \<Rightarrow> [LogtailTransport token endpoint]) @
     (if \<not> production cfg then [Console] else [])"

definition log_level :: "config \<Rightarrow> string" where
  "log_level cfg =
     (case Option.bind (process_env cfg ''LOG_LEVEL'') non_empty of None \<Rightarrow> ''info'' | Some v \<Rightarrow> v)"

text \<open>An entry as winston gets it: the level, the text and the other members, \<open>None\<close> for \<open>undefined\<close>.\<close>

record 'p logEntry =
  le_level :: string
  le_message :: string
  le_meta :: "(string \<times> 'p option) list"

record 'p loggerService =
  lg_level :: string
  lg_defaultMeta :: "(string \<times> string) list"
  lg_transports :: "logTransport list"
  lg_logtail :: "(string \<times> string) option"
  lg_handed :: "'p logEntry list"

definition newLogger :: "config \<Rightarrow> 'p loggerService" where
  "newLogger cfg =
     \<lparr>lg_level = log_level cfg, lg_defaultMeta = [(''service'', ''microsandbox-cloud'')],
      lg_transports = log_transports cfg, lg_logtail = logtail_client cfg, lg_handed = []\<rparr>"

section \<open>Messages\<close>

text \<open>What a caller may pass: a plain value, \<open>undefined\<close>, or an error with its name and message.\<close>

datatype logged = Plain json | Undefined | ErrorValue string string

text \<open>\<open>String(x)\<close>: the elements of an array are joined by commas, \<open>null\<close> among them being empty.\<close>

fun json_String :: "json \<Rightarrow> string" where
  "json_String JNull = ''null''"
| "json_String (JBool b) = (if b then ''true'' else ''false'')"
| "json_String (JNum i) = int_digits i"
| "json_String (JStr s) = s"
| "json_String (JArr xs) = join '','' (map (\<lambda>x. case x of JNull \<Rightarrow> [] | _ \<Rightarrow> json_String x) xs)"
| "json_String (JObj ps) = ''[object Object]''"

fun js_String :: "logged \<Rightarrow> string" where
  "js_String (Plain x) = json_String x"
| "js_String Undefined = ''undefined''"
| "js_String (ErrorValue name message) =
     (if message = [] then name else if name = [] then message else name @ '': '' @ message)"

section \<open>Methods\<close>

definition optional_param :: "'p list \<Rightarrow> nat \<Rightarrow> 'p option" where
  "optional_param ps n = (case drop n ps of [] \<Rightarrow> None | x # _ \<Rightarrow> Some x)"

definition hand_over :: "string \<Rightarrow> logged \<Rightarrow> (string \<times> 'p option) list \<Rightarrow> 'p loggerService \<Rightarrow> 'p loggerService" where
  "hand_over level message meta lg =
     lg\<lparr>lg_handed := lg_handed lg @ [\<lparr>le_level = level, le_message = js_String message, le_meta = meta\<rparr>]\<rparr>"

definition logger_log :: "logged \<Rightarrow> 'p list \<Rightarrow> 'p loggerService \<Rightarrow> 'p loggerService" where
  "logger_log message ps = hand_over ''info'' message [(''context'', optional_param ps 0)]"

definition logger_error :: "logged \<Rightarrow> 'p list \<Rightarrow> 'p loggerService \<Rightarrow> 'p loggerService" where
  "logger_error message ps =
     hand_over ''error'' message [(''context'', optional_param ps 0), (''trace'', optional_param ps 1)]"

definition logger_warn :: "logged \<Rightarrow> 'p list \<Rightarrow> 'p loggerService \<Rightarrow> 'p loggerService" where
  "logger_warn message ps = hand_over ''warn'' message [(''context'', optional_param ps 0)]"

definition logger_debug :: "logged \<Rightarrow> 'p list \<Rightarrow> 'p loggerService \<Rightarrow> 'p loggerService" where
  "logger_debug message ps = hand_over ''debug'' message [(''context'', optional_param ps 0)]"

definition logger_verbose :: "logged \<Rightarrow> 'p list \<Rightarrow> 'p loggerService \<Rightarrow> 'p loggerService" where
  "logger_verbose message ps = hand_over ''verbose'' message [(''context'', optional_param ps 0)]"

text \<open>
  The shutdown closes the transports that have a method for it, in their order, and then asks the
  client to send what it has left, without waiting for it. Which transports can be closed is a
  parameter.
\<close>

datatype shutdownCall = CloseTransport logTransport | FlushLogtail

definition onApplicationShutdown :: "(logTransport \<Rightarrow> bool) \<Rightarrow> 'p loggerService \<Rightarrow> shutdownCall list" where
  "onApplicationShutdown has_close lg =
     map CloseTransport (filter has_close (lg_transports lg)) @
     (if lg_logtail lg = None then [] else [FlushLogtail])"

section \<open>Lemmas\<close>

lemmas logger_methods = logger_log_def logger_error_def logger_warn_def logger_debug_def logger_verbose_def

text \<open>The log leaves the machine only in production and with a token; the console is for all else.\<close>

lemma log_ships:
  "(\<exists>k e. LogtailTransport k e \<in> set (log_transports cfg)) \<longleftrightarrow>
     production cfg \<and> opt_trim (process_env cfg ''BETTER_STACK_TOKEN'') \<noteq> None"
  "Console \<in> set (log_transports cfg) \<longleftrightarrow> \<not> production cfg"
  by (cases "opt_trim (process_env cfg ''BETTER_STACK_TOKEN'')";
      simp add: log_transports_def logtail_client_def file_transports_def)+

text \<open>Entries are handed over in order, one for each call; the outputs never change.\<close>

lemma handed_in_order:
  "lg_handed (hand_over level m meta lg) =
     lg_handed lg @ [\<lparr>le_level = level, le_message = js_String m, le_meta = meta\<rparr>]"
  "lg_transports (hand_over level m meta lg) = lg_transports lg" "lg_logtail (hand_over level m meta lg) = lg_logtail lg"
  by (simp_all add: hand_over_def)

text \<open>Only the method for errors gives a trace.\<close>

lemma trace_of_errors:
  "map_of (le_meta (last (lg_handed (logger_error m [c, t] lg)))) ''trace'' = Some (Some t)"
  "map_of (le_meta (last (lg_handed (logger_log m ps lg)))) ''trace'' = None"
  "map_of (le_meta (last (lg_handed (logger_warn m ps lg)))) ''trace'' = None"
  by (simp_all add: logger_methods hand_over_def optional_param_def)

text \<open>
  The shutdown flushes the remote log exactly when an output ships to it, after the transports
  are closed, and closes each output once.
\<close>

lemma shutdown_flushes:
  "FlushLogtail \<in> set (onApplicationShutdown has_close (newLogger cfg)) \<longleftrightarrow>
     (\<exists>k e. LogtailTransport k e \<in> set (log_transports cfg))"
  "distinct (onApplicationShutdown has_close (newLogger cfg))"
  by (cases "logtail_client cfg";
      auto simp: onApplicationShutdown_def newLogger_def log_transports_def file_transports_def distinct_map inj_on_def)+

end
