(* ===== verification/Bootstrap.thy ===== *)
theory Bootstrap
  imports Logging
begin

text \<open>
  How the program is put together: \<open>bootstrap\<close> (main.ts), the API documentation (swagger/setup.ts)
  and the modules (app.module.ts, ssh/ssh.module.ts). What the framework does with these
  declarations is not part of the repository; the model has the calls of \<open>bootstrap\<close> in their order
  with their arguments, and the modules as tables, with the rule the framework documents for
  finding what a constructor asks for.
\<close>

section \<open>API documentation\<close>

datatype securityScheme = HttpBearer string string | ApiKeyHeader string string

record apiDocs =
  ad_path :: string
  ad_title :: string
  ad_description :: string
  ad_version :: string
  ad_schemes :: "(string \<times> securityScheme) list"
  ad_persistAuthorization :: bool
  ad_theme :: string

definition setupSwagger :: apiDocs where
  "setupSwagger =
     \<lparr>ad_path = ''docs'', ad_title = ''Microsandbox Cloud API'',
      ad_description = ''Control plane and signed proxy for running per-user Microsandbox runtimes.'',
      ad_version = ''1.0'',
      ad_schemes = [(''internal-api'', HttpBearer ''JWT'' ''Internal API token''),
        (''preview-token'', ApiKeyHeader ''x-microsandbox-preview-token'' ''Preview access token for sandbox proxy'')],
      ad_persistAuthorization = True, ad_theme = ''monokai''\<rparr>"

section \<open>The start\<close>

record validationOptions =
  vo_whitelist :: bool
  vo_transform :: bool
  vo_forbidUnknownValues :: bool

datatype startCall =
    CreateApp bool
  | UseLogger
  | UseValidationPipe validationOptions
  | SetupDocs apiDocs
  | LogLine string
  | MountProxy string
  | Listen int string
  | OnUpgrade

definition bootstrap :: "config \<Rightarrow> startCall list" where
  "bootstrap cfg =
     [CreateApp True, UseLogger,
      UseValidationPipe \<lparr>vo_whitelist = True, vo_transform = True, vo_forbidUnknownValues = False\<rparr>] @
     (if isDev cfg
      then [SetupDocs setupSwagger,
            LogLine (''Swagger docs available at http://localhost:'' @ int_digits (port cfg) @ ''/docs'')]
      else []) @
     [MountProxy ''/proxy'', Listen (port cfg) (host cfg),
      LogLine ''Application started successfully'',
      LogLine (''Environment: '' @ node_env cfg),
      LogLine (''Port: '' @ int_digits (port cfg)),
      LogLine (''HTTP: http://localhost:'' @ int_digits (port cfg)),
      OnUpgrade]"

section \<open>Modules\<close>

text \<open>The classes of the service, and what else a constructor may ask for.\<close>

datatype token =
    AppConfigService | RuntimeRegistryService | MicrosandboxAdapterService | MICROSANDBOX_ADAPTER
  | RuntimeControlService | RuntimeIdentityService | ProxyService | InternalAuthGuard | WinstonLoggerService
  | SshService | SshSessionService | ProxyTokenService | SshGatewayGuard
  | HealthController | SandboxController | SshController
  | RepositoryOf string

datatype moduleName = AppModule | SshModule

record moduleDef =
  md_global :: bool
  md_imports :: "moduleName list"
  md_features :: "string list"
  md_controllers :: "token list"
  md_providers :: "token list"
  md_aliases :: "(token \<times> token) list"
  md_exports :: "token list"

definition app_module :: moduleDef where
  "app_module =
     \<lparr>md_global = True, md_imports = [SshModule],
      md_features = [''runtime_hosts'', ''runtimes'', ''port_leases'', ''volumes'', ''signed_preview_tokens'',
        ''revoked_sessions''],
      md_controllers = [HealthController, SandboxController],
      md_providers = [AppConfigService, RuntimeRegistryService, MicrosandboxAdapterService, RuntimeControlService,
        RuntimeIdentityService, ProxyService, InternalAuthGuard, WinstonLoggerService],
      md_aliases = [(MICROSANDBOX_ADAPTER, MicrosandboxAdapterService)],
      md_exports = [RuntimeRegistryService]\<rparr>"

definition ssh_module :: moduleDef where
  "ssh_module =
     \<lparr>md_global = False, md_imports = [], md_features = [''revoked_sessions''],
      md_controllers = [SshController],
      md_providers = [SshService, SshSessionService, AppConfigService, WinstonLoggerService, InternalAuthGuard],
      md_aliases = [],
      md_exports = [SshService, SshSessionService]\<rparr>"

fun module_def :: "moduleName \<Rightarrow> moduleDef" where
  "module_def AppModule = app_module"
| "module_def SshModule = ssh_module"

definition all_modules :: "moduleName list" where
  "all_modules = [AppModule, SshModule]"

text \<open>What the constructors ask for; a controller also has the guard of its methods.\<close>

definition registry_asks :: "token list" where
  "registry_asks = map RepositoryOf [''runtime_hosts'', ''runtimes'', ''port_leases'', ''volumes'', ''signed_preview_tokens''] @
     [AppConfigService, RuntimeIdentityService]"

definition adapter_asks :: "token list" where
  "adapter_asks = [AppConfigService, WinstonLoggerService, SshService]"

definition control_asks :: "token list" where
  "control_asks = [AppConfigService, RuntimeRegistryService, WinstonLoggerService, MICROSANDBOX_ADAPTER]"

definition proxy_asks :: "token list" where
  "proxy_asks = [RuntimeControlService, WinstonLoggerService]"

definition internalAuth_asks :: "token list" where
  "internalAuth_asks = [AppConfigService, WinstonLoggerService]"

definition sessions_asks :: "token list" where
  "sessions_asks = [RepositoryOf ''revoked_sessions'', AppConfigService]"

definition proxyToken_asks :: "token list" where
  "proxyToken_asks = [AppConfigService]"

definition sshGateway_asks :: "token list" where
  "sshGateway_asks = [AppConfigService]"

definition health_asks :: "token list" where
  "health_asks = [RuntimeRegistryService]"

definition sandboxController_asks :: "token list" where
  "sandboxController_asks = [RuntimeControlService, InternalAuthGuard]"

definition sshController_asks :: "token list" where
  "sshController_asks = [SshSessionService, RuntimeRegistryService, InternalAuthGuard]"

text \<open>An alias stands for its service; the other classes ask for nothing.\<close>

fun asks_for :: "token \<Rightarrow> token list" where
  "asks_for RuntimeRegistryService = registry_asks"
| "asks_for MicrosandboxAdapterService = adapter_asks"
| "asks_for RuntimeControlService = control_asks"
| "asks_for ProxyService = proxy_asks"
| "asks_for InternalAuthGuard = internalAuth_asks"
| "asks_for SshSessionService = sessions_asks"
| "asks_for ProxyTokenService = proxyToken_asks"
| "asks_for SshGatewayGuard = sshGateway_asks"
| "asks_for HealthController = health_asks"
| "asks_for SandboxController = sandboxController_asks"
| "asks_for SshController = sshController_asks"
| "asks_for MICROSANDBOX_ADAPTER = [MicrosandboxAdapterService]"
| "asks_for _ = []"

text \<open>
  The framework looks for a token among the providers of the module, the repositories of its
  features, the exports of the modules it imports and those of the global modules.
\<close>

definition own :: "moduleName \<Rightarrow> token list" where
  "own m = md_providers (module_def m) @ map fst (md_aliases (module_def m)) @ map RepositoryOf (md_features (module_def m))"

definition visible :: "moduleName \<Rightarrow> token list" where
  "visible m =
     own m @ concat (map (\<lambda>i. md_exports (module_def i)) (md_imports (module_def m))) @
     concat (map (\<lambda>g. if md_global (module_def g) then md_exports (module_def g) else []) all_modules)"

definition instances_of :: "token \<Rightarrow> nat" where
  "instances_of t = length (filter (\<lambda>m. t \<in> set (own m @ md_controllers (module_def m))) all_modules)"

section \<open>Lemmas\<close>

text \<open>Everything a constructor asks for is found, in the module that declares the class.\<close>

lemma wiring_complete:
  "list_all (\<lambda>m. list_all (\<lambda>t. list_all (\<lambda>d. d \<in> set (visible m)) (asks_for t))
     (own m @ md_controllers (module_def m))) all_modules"
  by code_simp

text \<open>An order in which the classes can be made: each after all it asks for.\<close>

definition start_order :: "token list" where
  "start_order = map RepositoryOf [''runtime_hosts'', ''runtimes'', ''port_leases'', ''volumes'',
     ''signed_preview_tokens'', ''revoked_sessions''] @
   [AppConfigService, RuntimeIdentityService, WinstonLoggerService, SshService, RuntimeRegistryService,
    MicrosandboxAdapterService, MICROSANDBOX_ADAPTER, RuntimeControlService, ProxyService, InternalAuthGuard,
    SshSessionService, HealthController, SandboxController, SshController]"

fun in_order :: "token list \<Rightarrow> token list \<Rightarrow> bool" where
  "in_order made [] = True"
| "in_order made (t # ts) = (list_all (\<lambda>d. d \<in> set made) (asks_for t) \<and> in_order (t # made) ts)"

lemma wiring_acyclic:
  "in_order [] start_order"
  "list_all (\<lambda>m. list_all (\<lambda>t. t \<in> set start_order) (own m @ md_controllers (module_def m))) all_modules"
  by code_simp+

text \<open>
  The two services that hold state in memory or register the host exist once, so that one session
  map and one registry serve all requests, as the state of the model has them. The logger exists
  twice, once per module, each with files of its own choice: the same ones. Two classes are
  provided by no module and never made.
\<close>

lemma stateful_once: "instances_of SshSessionService = 1" "instances_of RuntimeRegistryService = 1"
  "instances_of RuntimeControlService = 1" "instances_of ProxyService = 1"
  "instances_of WinstonLoggerService = 2" "instances_of ProxyTokenService = 0" "instances_of SshGatewayGuard = 0"
  by code_simp+

text \<open>
  The documentation is served in development only; the proxy is mounted, and bodies are validated,
  before the server listens.
\<close>

lemma start_facts:
  "(\<exists>d. SetupDocs d \<in> set (bootstrap cfg)) \<longleftrightarrow> isDev cfg"
  "Listen (port cfg) (host cfg) \<in> set (bootstrap cfg)"
  "MountProxy ''/proxy'' \<in> set (takeWhile (\<lambda>c. \<forall>p h. c \<noteq> Listen p h) (bootstrap cfg))"
  "UseValidationPipe \<lparr>vo_whitelist = True, vo_transform = True, vo_forbidUnknownValues = False\<rparr>
     \<in> set (takeWhile (\<lambda>c. \<forall>p h. c \<noteq> Listen p h) (bootstrap cfg))"
  by (auto simp: bootstrap_def)

end
