(* ===== verification/GoTime.thy ===== *)
theory GoTime
  imports JsDate "HOL-Library.Monad_Syntax"
begin

text \<open>
  Times of the Go programs: \<open>time.Parse\<close> with the layout \<open>time.RFC3339\<close>, in nanoseconds since the
  epoch. The strict form of the format is modelled; Go also takes an hour of one digit and a comma
  before the fraction. \<open>parse_toISOString\<close> shows that it reads what the service prints, for years of
  four digits, which needs the calendar of JsDate to be the inverse of the usual day count.
\<close>

section \<open>Days\<close>

definition leap_year :: "int \<Rightarrow> bool" where
  "leap_year y \<longleftrightarrow> y mod 4 = 0 \<and> (y mod 100 \<noteq> 0 \<or> y mod 400 = 0)"

definition month_days :: "int \<Rightarrow> int \<Rightarrow> int" where
  "month_days y m =
     (if m = 2 then (if leap_year y then 29 else 28) else if m \<in> {4, 6, 9, 11} then 30 else 31)"

text \<open>The day number of a date; 1970-01-01 is day 0. Years are counted from March.\<close>

definition days_of_civil :: "int \<Rightarrow> int \<Rightarrow> int \<Rightarrow> int" where
  "days_of_civil y m d =
     (let y' = (if m \<le> 2 then y - 1 else y);
          era = y' div 400;
          yoe = y' mod 400;
          mp = (if m > 2 then m - 3 else m + 9);
          doy = (153 * mp + 2) div 5 + d - 1
      in era * 146097 + 365 * yoe + yoe div 4 - yoe div 100 + doy - 719468)"

section \<open>The format\<close>

text \<open>A number of exactly \<open>w\<close> digits, and what follows it; a given character.\<close>

definition take_num :: "nat \<Rightarrow> string \<Rightarrow> (int \<times> string) option" where
  "take_num w s =
     (if w \<le> length s \<and> list_all is_digit (take w s) then Some (int (digits_val (take w s)), drop w s) else None)"

definition expect :: "char \<Rightarrow> string \<Rightarrow> string option" where
  "expect c s = (case s of [] \<Rightarrow> None | x # r \<Rightarrow> if x = c then Some r else None)"

text \<open>The digits after the point, in nanoseconds; digits from the tenth on are dropped.\<close>

definition fraction :: "string \<Rightarrow> int \<times> string" where
  "fraction s =
     (case s of
        c # r \<Rightarrow>
          if c = CHR ''.'' \<and> takeWhile is_digit r \<noteq> []
          then (let ds = take 9 (takeWhile is_digit r)
                in (int (digits_val ds) * 10 ^ (9 - length ds), dropWhile is_digit r))
          else (0, s)
      | [] \<Rightarrow> (0, s))"

text \<open>\<open>Z\<close> or an offset in hours and minutes, in seconds.\<close>

definition zone :: "string \<Rightarrow> int option" where
  "zone s =
     (if s = ''Z'' then Some 0
      else (case s of
              sign # r \<Rightarrow>
                if sign = CHR ''+'' \<or> sign = CHR ''-'' then
                  do {
                    (hh, r) \<leftarrow> take_num 2 r;
                    r \<leftarrow> expect CHR '':'' r;
                    (mm, r) \<leftarrow> take_num 2 r;
                    if r = [] \<and> hh \<le> 23 \<and> mm \<le> 59
                    then Some ((if sign = CHR ''-'' then -1 else 1) * (3600 * hh + 60 * mm)) else None
                  }
                else None
            | [] \<Rightarrow> None))"

definition parse_rfc3339 :: "string \<Rightarrow> int option" where
  "parse_rfc3339 s =
     do {
       (y, s) \<leftarrow> take_num 4 s;
       s \<leftarrow> expect CHR ''-'' s;
       (m, s) \<leftarrow> take_num 2 s;
       s \<leftarrow> expect CHR ''-'' s;
       (d, s) \<leftarrow> take_num 2 s;
       s \<leftarrow> expect CHR ''T'' s;
       (hh, s) \<leftarrow> take_num 2 s;
       s \<leftarrow> expect CHR '':'' s;
       (mm, s) \<leftarrow> take_num 2 s;
       s \<leftarrow> expect CHR '':'' s;
       (ss, s) \<leftarrow> take_num 2 s;
       let (ns, s) = fraction s;
       offset \<leftarrow> zone s;
       if 1 \<le> m \<and> m \<le> 12 \<and> 1 \<le> d \<and> d \<le> month_days y m \<and> hh \<le> 23 \<and> mm \<le> 59 \<and> ss \<le> 59
       then Some ((days_of_civil y m d * 86400 + hh * 3600 + mm * 60 + ss - offset) * 1000000000 + ns)
       else None
     }"

section \<open>Numbers of fixed width\<close>

lemma length_nat_digits: "n < 10 ^ w \<Longrightarrow> 0 < w \<Longrightarrow> length (nat_digits n) \<le> w"
proof (induction w arbitrary: n)
  case (Suc w)
  show ?case
  proof (cases "n < 10")
    case True
    then show ?thesis by (subst nat_digits.simps) simp
  next
    case False
    then have "0 < w" using Suc.prems(1) by (cases w) simp_all
    moreover have "n div 10 < 10 ^ w" using Suc.prems(1) by (simp add: div_less_iff_less_mult mult.commute)
    ultimately have "length (nat_digits (n div 10)) \<le> w" by (intro Suc.IH)
    with False show ?thesis by (subst nat_digits.simps) simp
  qed
qed simp

lemma digits_val_zeros: "digits_val (replicate k (CHR ''0'') @ ds) = digits_val ds"
proof -
  have "foldl (\<lambda>v c. 10 * v + digit_val c) 0 (replicate k (CHR ''0'')) = 0"
    by (induction k) (simp_all add: digit_val_def)
  then show ?thesis by (simp add: digits_val_def)
qed

lemma pad_facts:
  assumes "0 \<le> i" and "i < 10 ^ w" and "0 < w"
  shows "length (pad w i) = w" and "list_all is_digit (pad w i)" and "digits_val (pad w i) = nat i"
proof -
  have "nat i < 10 ^ w" using assms(1,2) by (simp add: nat_less_iff)
  then have "length (nat_digits (nat i)) \<le> w" using assms(3) by (rule length_nat_digits)
  then show "length (pad w i) = w" by (simp add: pad_def Let_def)
  have "is_digit (CHR ''0'')" by code_simp
  then show "list_all is_digit (pad w i)"
    using nat_digits_all [of "nat i"] by (auto simp: pad_def Let_def list_all_iff)
  show "digits_val (pad w i) = nat i" by (simp add: pad_def Let_def digits_val_zeros)
qed

lemma take_num_pad [simp]: "0 \<le> i \<Longrightarrow> i < 10 ^ w \<Longrightarrow> 0 < w \<Longrightarrow> take_num w (pad w i @ r) = Some (i, r)"
  by (simp add: take_num_def pad_facts)

lemma expect_Cons [simp]: "expect c (c # r) = Some r"
  by (simp add: expect_def)

section \<open>The calendar\<close>

text \<open>The year of the era, by the day of the era: monotone, and right at both ends of every year.\<close>

definition yoe_of :: "int \<Rightarrow> int" where
  "yoe_of doe = (doe - doe div 1460 + doe div 36524 - doe div 146096) div 365"

definition year_start :: "int \<Rightarrow> int" where
  "year_start n = 365 * n + n div 4 - n div 100"

lemma yoe_ends: "list_all (\<lambda>n. yoe_of (year_start n) = n \<and> yoe_of (min 146096 (year_start (n + 1) - 1)) = n) [0..399]"
  by code_simp

lemma yoe_step:
  assumes "0 \<le> doe" and "doe < 146096"
  shows "yoe_of doe \<le> yoe_of (doe + 1)"
proof (cases "doe = 146095")
  case True
  show ?thesis unfolding True by code_simp
next
  case False
  have "(doe + 1) div 1460 \<le> (doe + 1460) div 1460" "doe div 36524 \<le> (doe + 1) div 36524"
    by (rule zdiv_mono1; simp)+
  moreover have "(doe + 1460) div 1460 = doe div 1460 + 1" by simp
  moreover have "doe div 146096 = 0" "(doe + 1) div 146096 = 0" using assms False by simp_all
  moreover have "doe - a + b - c \<le> doe + 1 - a' + b' - c'"
    if "a' \<le> e" "b \<le> b'" "e = a + 1" "c = 0" "c' = 0" for a b c a' b' c' e :: int
    using that by simp
  ultimately have "doe - doe div 1460 + doe div 36524 - doe div 146096 \<le>
      doe + 1 - (doe + 1) div 1460 + (doe + 1) div 36524 - (doe + 1) div 146096" by blast
  then show ?thesis unfolding yoe_of_def by (rule zdiv_mono1) simp
qed

lemma yoe_mono: "0 \<le> a \<Longrightarrow> a \<le> b \<Longrightarrow> b \<le> 146096 \<Longrightarrow> yoe_of a \<le> yoe_of b"
proof (induction "nat (b - a)" arbitrary: b)
  case (Suc k)
  then have "yoe_of a \<le> yoe_of (b - 1)" by simp
  also have "\<dots> \<le> yoe_of b" using yoe_step [of "b - 1"] Suc.prems Suc.hyps(2) by simp
  finally show ?case .
qed simp

text \<open>Every day of the era lies in the year that the formula gives.\<close>

lemma yoe_between:
  assumes "0 \<le> doe" and "doe < 146097"
  shows "0 \<le> yoe_of doe" and "yoe_of doe < 400" and "year_start (yoe_of doe) \<le> doe"
    and "doe < year_start (yoe_of doe + 1) \<or> (yoe_of doe = 399 \<and> doe = 146096)"
proof -
  let ?n = "yoe_of doe"
  have ends: "yoe_of (year_start n) = n" "yoe_of (min 146096 (year_start (n + 1) - 1)) = n" if "0 \<le> n" "n < 400" for n
    using yoe_ends that by (simp_all add: list_all_iff)
  have "yoe_of 0 = 0" "yoe_of 146096 = 399" by code_simp+
  then show n: "0 \<le> ?n" "?n < 400"
    using yoe_mono [of 0 doe] yoe_mono [of doe 146096] assms by simp_all
  have start: "0 \<le> year_start k" "year_start k \<le> 146096" if "0 \<le> k" "k \<le> 400" for k
    using that by (simp_all add: year_start_def)
  show "year_start ?n \<le> doe"
  proof (rule ccontr)
    assume "\<not> year_start ?n \<le> doe"
    then have less: "doe < year_start ?n" by simp
    moreover have "?n \<noteq> 0" using less assms(1) by (auto simp: year_start_def)
    ultimately have "doe \<le> min 146096 (year_start (?n - 1 + 1) - 1)" using assms by simp
    then have "?n \<le> yoe_of (min 146096 (year_start (?n - 1 + 1) - 1))"
      using assms start [of ?n] n by (intro yoe_mono) simp_all
    also have "\<dots> = ?n - 1" using n \<open>?n \<noteq> 0\<close> by (intro ends(2)) simp_all
    finally show False by simp
  qed
  show "doe < year_start (?n + 1) \<or> (?n = 399 \<and> doe = 146096)"
  proof (rule ccontr)
    assume "\<not> (doe < year_start (?n + 1) \<or> (?n = 399 \<and> doe = 146096))"
    then have le: "year_start (?n + 1) \<le> doe" and not: "?n = 399 \<longrightarrow> doe \<noteq> 146096" by auto
    have "?n + 1 < 400"
    proof (rule ccontr)
      assume "\<not> ?n + 1 < 400"
      with n have "?n = 399" by simp
      with le not assms(2) show False by (simp add: year_start_def)
    qed
    then have "yoe_of (year_start (?n + 1)) = ?n + 1" using n by (intro ends(1)) simp_all
    moreover have "yoe_of (year_start (?n + 1)) \<le> ?n"
      using le assms start [of "?n + 1"] n by (intro yoe_mono) simp_all
    ultimately show False by simp
  qed
qed

text \<open>Years of 366 days, and the months, by the day of the year.\<close>

definition month_of :: "int \<Rightarrow> int" where
  "month_of doy = (5 * doy + 2) div 153"

definition month_start :: "int \<Rightarrow> int" where
  "month_start mp = (153 * mp + 2) div 5"

lemma year_lengths: "list_all (\<lambda>n. year_start (n + 1) - year_start n =
    (if (n + 1) mod 4 = 0 \<and> (n + 1) mod 100 \<noteq> 0 then 366 else 365)) [0..399]"
  by code_simp

lemma months: "list_all (\<lambda>doy. let mp = month_of doy; d = doy - month_start mp + 1;
      m = (if mp < 10 then mp + 3 else mp - 9) in
    0 \<le> mp \<and> mp \<le> 11 \<and> 1 \<le> d \<and>
    d \<le> (if m = 2 then 29 else if m \<in> {4, 6, 9, 11} then 30 else 31) \<and> (m = 2 \<and> d = 29 \<longrightarrow> doy = 365)) [0..365]"
  by code_simp

text \<open>The date of a day is a date of the calendar, and gives the day back.\<close>

lemma civil_parts:
  assumes "civil_of_days days = (y, m, d)"
  obtains era yoe doy where "days + 719468 = era * 146097 + year_start yoe + doy"
    and "0 \<le> yoe" "yoe < 400" "0 \<le> doy" "doy \<le> 365"
    and "doy = 365 \<Longrightarrow> leap_year (yoe + era * 400 + 1)"
    and "d = doy - month_start (month_of doy) + 1"
    and "m = (if month_of doy < 10 then month_of doy + 3 else month_of doy - 9)"
    and "y = yoe + era * 400 + (if m \<le> 2 then 1 else 0)"
proof -
  define doe where "doe = (days + 719468) mod 146097"
  define era where "era = (days + 719468) div 146097"
  define yoe where "yoe = yoe_of doe"
  define doy where "doy = doe - year_start yoe"
  have doe: "0 \<le> doe" "doe < 146097" by (simp_all add: doe_def)
  note b = yoe_between [OF doe, folded yoe_def]
  have len: "year_start (yoe + 1) - year_start yoe =
      (if (yoe + 1) mod 4 = 0 \<and> (yoe + 1) mod 100 \<noteq> 0 then 366 else 365)"
    using year_lengths b(1,2) by (simp add: list_all_iff)
  have eqs: "d = doy - month_start (month_of doy) + 1"
    "m = (if month_of doy < 10 then month_of doy + 3 else month_of doy - 9)"
    "y = yoe + era * 400 + (if m \<le> 2 then 1 else 0)"
    using assms unfolding civil_of_days_def Let_def month_start_def month_of_def doy_def year_start_def yoe_def
      yoe_of_def doe_def era_def by (auto simp only: prod.inject)
  have "doy \<le> 365 \<and> (doy = 365 \<longrightarrow> leap_year (yoe + era * 400 + 1))"
  proof (cases "doe < year_start (yoe + 1)")
    case True
    then have "doy < (if (yoe + 1) mod 4 = 0 \<and> (yoe + 1) mod 100 \<noteq> 0 then 366 else 365)"
      using len by (simp add: doy_def)
    moreover have "leap_year (yoe + era * 400 + 1)" if "(yoe + 1) mod 4 = 0" "(yoe + 1) mod 100 \<noteq> 0"
    proof -
      have "yoe + era * 400 + 1 = (yoe + 1) + 4 * (era * 100)" "yoe + era * 400 + 1 = (yoe + 1) + 100 * (era * 4)"
        by simp_all
      with that show ?thesis unfolding leap_year_def by (metis mod_mult_self2)
    qed
    ultimately show ?thesis by (auto split: if_splits)
  next
    case False
    with b(4) have "yoe = 399" "doe = 146096" by auto
    moreover from this have "yoe + era * 400 + 1 = 400 * (era + 1)" by simp
    ultimately show ?thesis by (simp add: doy_def year_start_def leap_year_def)
  qed
  moreover have "0 \<le> doy" using b(3) by (simp add: doy_def)
  moreover have "days + 719468 = era * 146097 + year_start yoe + doy"
    by (simp add: doy_def era_def doe_def)
  ultimately show thesis using b(1,2) eqs by (intro that [of era yoe doy]) auto
qed

lemma civil_valid:
  assumes "civil_of_days days = (y, m, d)"
  shows "1 \<le> m \<and> m \<le> 12 \<and> 1 \<le> d \<and> d \<le> month_days y m \<and> d \<le> 31" and "days_of_civil y m d = days"
proof -
  obtain era yoe doy where p: "days + 719468 = era * 146097 + year_start yoe + doy"
    "0 \<le> yoe" "yoe < 400" "0 \<le> doy" "doy \<le> 365" "doy = 365 \<Longrightarrow> leap_year (yoe + era * 400 + 1)"
    "d = doy - month_start (month_of doy) + 1"
    "m = (if month_of doy < 10 then month_of doy + 3 else month_of doy - 9)"
    "y = yoe + era * 400 + (if m \<le> 2 then 1 else 0)"
    using civil_parts [OF assms] by metis
  have "doy \<in> set [0..365]" using p(4,5) by simp
  from months [unfolded list_all_iff Let_def, THEN bspec, OF this, folded p(7,8)]
  have mo: "0 \<le> month_of doy" "month_of doy \<le> 11" "1 \<le> d"
    "d \<le> (if m = 2 then 29 else if m \<in> {4, 6, 9, 11} then 30 else 31)" "m = 2 \<and> d = 29 \<longrightarrow> doy = 365"
    by blast+
  have m: "1 \<le> m" "m \<le> 12" using mo(1,2) unfolding p(8) by simp_all
  show "1 \<le> m \<and> m \<le> 12 \<and> 1 \<le> d \<and> d \<le> month_days y m \<and> d \<le> 31"
  proof (cases "m = 2")
    case True
    then have "y = yoe + era * 400 + 1" using p(9) by simp
    with p(6) have "d = 29 \<Longrightarrow> leap_year y" using mo(5) True by blast
    moreover have "d \<le> 29" using mo(4) True by simp
    ultimately show ?thesis using m mo(3) True by (cases "d = 29") (auto simp: month_days_def)
  next
    case False
    with m mo(3,4) show ?thesis by (simp add: month_days_def split: if_splits)
  qed
  have y': "(if m \<le> 2 then y - 1 else y) = yoe + 400 * era" using p(9) by simp
  have "(yoe + 400 * era) div 400 = era" "(yoe + 400 * era) mod 400 = yoe" using p(2,3) by simp_all
  moreover have "(if m > 2 then m - 3 else m + 9) = month_of doy" using p(8) mo(1,2) by auto
  moreover have "(153 * month_of doy + 2) div 5 + d - 1 = doy" using p(7) by (simp add: month_start_def)
  ultimately show "days_of_civil y m d = days"
    unfolding days_of_civil_def Let_def y' using p(1) by (simp add: year_start_def)
qed

text \<open>Go reads what \<open>toISOString\<close> prints, when the year has four digits.\<close>

definition four_digit_year :: "int \<Rightarrow> bool" where
  "four_digit_year ms \<longleftrightarrow> (case civil_of_days (ms div 86400000) of (y, _, _) \<Rightarrow> 0 \<le> y \<and> y \<le> 9999)"

lemma fraction_ms: "0 \<le> i \<Longrightarrow> i < 1000 \<Longrightarrow> fraction (''.'' @ pad 3 i @ ''Z'') = (i * 1000000, ''Z'')"
proof -
  assume i: "0 \<le> i" "i < 1000"
  have all: "list_all is_digit (pad 3 i)" and len: "length (pad 3 i) = 3" and val: "digits_val (pad 3 i) = nat i"
    using i by (simp_all add: pad_facts)
  have "\<not> is_digit (CHR ''Z'')" by code_simp
  with all have "takeWhile is_digit (pad 3 i @ ''Z'') = pad 3 i" "dropWhile is_digit (pad 3 i @ ''Z'') = ''Z''"
    by (simp_all add: list_all_iff)
  moreover have "pad 3 i \<noteq> []" using len by auto
  ultimately show ?thesis using i len val by (simp add: fraction_def)
qed

lemma parse_toISOString:
  assumes "four_digit_year ms"
  shows "parse_rfc3339 (toISOString ms) = Some (ms * 1000000)"
proof -
  define t where "t = ms mod 86400000"
  obtain y m d where civil: "civil_of_days (ms div 86400000) = (y, m, d)" by (cases "civil_of_days (ms div 86400000)")
  have y: "0 \<le> y" "y \<le> 9999" using assms civil by (simp_all add: four_digit_year_def)
  note v = civil_valid(1) [OF civil]
  have t: "0 \<le> t" "t < 86400000" by (simp_all add: t_def)
  define hh mm ss where "hh = t div 3600000" and "mm = t div 60000 mod 60" and "ss = t div 1000 mod 60"
  have hms: "0 \<le> hh" "hh \<le> 23" "0 \<le> mm" "mm \<le> 59" "0 \<le> ss" "ss \<le> 59"
    using t by (simp_all add: hh_def mm_def ss_def)
  have printed: "toISOString ms = pad 4 y @ ''-'' @ pad 2 m @ ''-'' @ pad 2 d @ ''T'' @ pad 2 hh @ '':'' @ pad 2 mm @ '':''
      @ pad 2 ss @ ''.'' @ pad 3 (t mod 1000) @ ''Z''"
    using y by (simp add: toISOString_def civil t_def hh_def mm_def ss_def Let_def iso_year_def)
  have frac: "fraction (CHR ''.'' # pad 3 (t mod 1000) @ ''Z'') = ((t mod 1000) * 1000000, ''Z'')"
    using fraction_ms [of "t mod 1000"] by simp
  have "t = hh * 3600000 + mm * 60000 + ss * 1000 + t mod 1000"
  proof -
    have digits: "a = h * 3600000 + m * 60000 + s * 1000 + r" if "a = 1000 * b + r" "b = 60 * c + s" "c = 60 * h + m"
      for a b c h m s r :: int using that by simp
    have "t div 60000 = t div 1000 div 60" "t div 3600000 = t div 60000 div 60" by (simp_all flip: zdiv_zmult2_eq)
    then show ?thesis
      by (intro digits [of _ "t div 1000" _ "t div 60000"]) (simp_all add: hh_def mm_def ss_def)
  qed
  moreover have "ms = (ms div 86400000) * 86400000 + t" by (simp add: t_def)
  ultimately have "(ms div 86400000 * 86400 + hh * 3600 + mm * 60 + ss) * 1000000000 + t mod 1000 * 1000000 = ms * 1000000"
    by (simp add: algebra_simps)
  then show ?thesis
    using y v hms unfolding printed parse_rfc3339_def
    by (simp add: frac zone_def civil_valid(2) [OF civil])
qed

text \<open>A year of more digits is printed with a sign, which Go does not read.\<close>

lemma parse_far_future:
  assumes "\<not> four_digit_year ms"
  shows "parse_rfc3339 (toISOString ms) = None"
proof -
  obtain y m d where civil: "civil_of_days (ms div 86400000) = (y, m, d)" by (cases "civil_of_days (ms div 86400000)")
  have "\<not> (0 \<le> y \<and> y \<le> 9999)" using assms civil by (simp add: four_digit_year_def)
  then obtain c r where "toISOString ms = c # r" "c = CHR ''-'' \<or> c = CHR ''+''"
    by (auto simp: toISOString_def civil Let_def iso_year_def)
  moreover have "\<not> is_digit (CHR ''-'')" "\<not> is_digit (CHR ''+'')" by code_simp+
  ultimately show ?thesis by (auto simp: parse_rfc3339_def take_num_def)
qed

end
