(* ===== verification/Gateway.thy ===== *)
theory Gateway
  imports SshApi GoTime JsonParse
begin

text \<open>
  The SSH gateway (src/apps/ssh-gateway/main.go), a program of its own in Go that asks the control
  plane whether a token is valid, connects to the sandbox and ends the connection at the expiry
  or after a time without traffic. The model has its settings, the decision on a new connection and the
  loop that enforces the limits, as a step relation over clock readings. The SSH library and the
  key files are not modelled. Times are nanoseconds since the epoch, exact: the loop compares
  and takes the smaller of durations of at most five seconds, which a double holds.
\<close>

section \<open>Settings\<close>

definition envOrDefault :: "(string \<Rightarrow> string option) \<Rightarrow> string \<Rightarrow> string \<Rightarrow> string" where
  "envOrDefault env key d = (case env key of None \<Rightarrow> d | Some v \<Rightarrow> if v = [] then d else v)"

text \<open>A value of type \<open>int64\<close>.\<close>

definition int64 :: "int \<Rightarrow> int" where
  "int64 i = (i + 9223372036854775808) mod 18446744073709551616 - 9223372036854775808"

text \<open>
  \<open>fmt.Sscanf(raw, "%d", &x)\<close>: spaces, a sign, digits, and whatever follows; a line break or a number out of range is
  an error. The other white space that it skips is the control characters below.
\<close>

definition scan_int :: "string \<Rightarrow> int option" where
  "scan_int raw =
     (let s = dropWhile (\<lambda>c. (of_char c :: nat) \<in> {9, 11, 12, 32, 133, 160}) raw;
          (neg, t) = (case s of [] \<Rightarrow> (False, s)
            | c # r \<Rightarrow> if c = CHR ''-'' then (True, r) else if c = CHR ''+'' then (False, r) else (False, s));
          ds = takeWhile is_digit t;
          n = (if neg then - int (digits_val ds) else int (digits_val ds))
      in if ds = [] \<or> int64 n \<noteq> n then None else Some n)"

text \<open>The product with a second wraps around.\<close>

definition readDurationSeconds :: "(string \<Rightarrow> string option) \<Rightarrow> string \<Rightarrow> int \<Rightarrow> int" where
  "readDurationSeconds env key fallback =
     (case scan_int (envOrDefault env key []) of
        Some n \<Rightarrow> if n < 0 then fallback * 1000000000 else int64 (n * 1000000000)
      | None \<Rightarrow> fallback * 1000000000)"

record gatewaySettings =
  gs_port :: string
  gs_apiURL :: string
  gs_apiKey :: string
  gs_sshUser :: string
  gs_gatewayKeyPath :: string
  gs_hostKeyPath :: string
  gs_idleTimeout :: int

definition gateway_settings :: "(string \<Rightarrow> string option) \<Rightarrow> gatewaySettings" where
  "gateway_settings env =
     \<lparr>gs_port = envOrDefault env ''SSH_GATEWAY_PORT'' ''2222'',
      gs_apiURL = envOrDefault env ''API_URL'' ''http://localhost:3210'',
      gs_apiKey = envOrDefault env ''API_KEY'' [],
      gs_sshUser = envOrDefault env ''SSH_USER'' ''root'',
      gs_gatewayKeyPath = envOrDefault env ''SSH_GATEWAY_KEY'' ''data/ssh/gateway-key'',
      gs_hostKeyPath = envOrDefault env ''SSH_HOST_KEY'' ''data/ssh/gateway_host_key'',
      gs_idleTimeout = readDurationSeconds env ''SSH_IDLE_TIMEOUT_SECONDS'' 600\<rparr>"

section \<open>A new connection\<close>

record validateResponse =
  vr_SandboxID :: string
  vr_HostPort :: int
  vr_ExpiresAt :: string

definition no_response :: validateResponse where
  "no_response = \<lparr>vr_SandboxID = [], vr_HostPort = 0, vr_ExpiresAt = []\<rparr>"

text \<open>
  \<open>json.Decoder\<close> into the struct: members are matched without regard to case, \<open>null\<close> leaves a
  field as it is, a value of another type is an error, other members are skipped.
\<close>

definition text_field :: "json \<Rightarrow> string \<Rightarrow> string option" where
  "text_field x old = (case x of JStr s \<Rightarrow> Some s | JNull \<Rightarrow> Some old | _ \<Rightarrow> None)"

definition int_field :: "json \<Rightarrow> int \<Rightarrow> int option" where
  "int_field x old = (case x of JNum i \<Rightarrow> if int64 i = i then Some i else None | JNull \<Rightarrow> Some old | _ \<Rightarrow> None)"

fun decode_member :: "string \<times> json \<Rightarrow> validateResponse option \<Rightarrow> validateResponse option" where
  "decode_member (k, x) None = None"
| "decode_member (k, x) (Some r) =
     (if toLowerCase k = ''sandboxid'' then map_option (\<lambda>s. r\<lparr>vr_SandboxID := s\<rparr>) (text_field x (vr_SandboxID r))
      else if toLowerCase k = ''hostport'' then map_option (\<lambda>i. r\<lparr>vr_HostPort := i\<rparr>) (int_field x (vr_HostPort r))
      else if toLowerCase k = ''expiresat'' then map_option (\<lambda>s. r\<lparr>vr_ExpiresAt := s\<rparr>) (text_field x (vr_ExpiresAt r))
      else Some r)"

definition decode_response :: "json \<Rightarrow> validateResponse option" where
  "decode_response j =
     (case j of JObj ps \<Rightarrow> fold decode_member ps (Some no_response) | JNull \<Rightarrow> Some no_response | _ \<Rightarrow> None)"

text \<open>What comes back from the control plane.\<close>

datatype apiReply = NoReply string | Reply int string

definition gateway_validateToken :: "apiReply \<Rightarrow> string + validateResponse" where
  "gateway_validateToken reply =
     (case reply of
        NoReply err \<Rightarrow> Inl (''api request: '' @ err)
      | Reply status body \<Rightarrow>
          if status \<noteq> 200 then Inl (''api returned '' @ int_digits status @ '': '' @ body)
          else (case Option.bind (json_parse body) decode_response of
                  None \<Rightarrow> Inl ''decode response''
                | Some r \<Rightarrow> if vr_HostPort r = 0 then Inl ''invalid response: hostPort is 0'' else Inr r))"

text \<open>
  \<open>handleConnection\<close> up to the call of the sandbox: refused with what is logged, or an address to
  connect to and the end of the session.
\<close>

definition admit :: "apiReply \<Rightarrow> int \<Rightarrow> string + (string \<times> int)" where
  "admit reply now =
     (case gateway_validateToken reply of
        Inl err \<Rightarrow> Inl (''token validation failed: '' @ err)
      | Inr target \<Rightarrow>
          (case parse_rfc3339 (vr_ExpiresAt target) of
             None \<Rightarrow> Inl (''invalid token expiry for sandbox='' @ vr_SandboxID target)
           | Some expiresAt \<Rightarrow>
               if \<not> expiresAt > now then Inl (''token already expired for sandbox='' @ vr_SandboxID target)
               else Inr (''127.0.0.1:'' @ int_digits (vr_HostPort target), expiresAt)))"

section \<open>The limits of a session\<close>

datatype verdict = CloseConns | SleepFor int

text \<open>
  One round of \<open>enforceSessionLimits\<close>: \<open>now\<close> and \<open>later\<close> are its two clock readings, \<open>last1\<close> and \<open>last2\<close>
  the two readings of the time of the last traffic. The zero time of Go means no expiry.
\<close>

definition zero_time :: int where
  "zero_time = -62135596800000000000"

definition limits_round :: "int \<Rightarrow> int \<Rightarrow> int \<Rightarrow> int \<Rightarrow> int \<Rightarrow> int \<Rightarrow> verdict" where
  "limits_round expiresAt idleTimeout now later last1 last2 =
     (if expiresAt \<noteq> zero_time \<and> \<not> now < expiresAt then CloseConns
      else if idleTimeout > 0 \<and> now - last1 \<ge> idleTimeout then CloseConns
      else if expiresAt \<noteq> zero_time \<and> expiresAt - later \<le> 0 then CloseConns
      else
        (let sleep1 = (if expiresAt \<noteq> zero_time then min 5000000000 (expiresAt - later) else 5000000000) in
         if idleTimeout > 0 \<and> idleTimeout - (now - last2) \<le> 0 then CloseConns
         else
           (let sleep2 = (if idleTimeout > 0 then min sleep1 (idleTimeout - (now - last2)) else sleep1)
            in SleepFor (max 500000000 sleep2))))"

text \<open>A connection: the time, the last traffic, when the loop is due again, and whether it is open.\<close>

record gatewayConn =
  gc_now :: int
  gc_last :: int
  gc_due :: int
  gc_open :: bool

definition fresh_conn :: "int \<Rightarrow> gatewayConn" where
  "fresh_conn t = \<lparr>gc_now = t, gc_last = t, gc_due = t, gc_open = True\<rparr>"

text \<open>
  Traffic in either direction or a request on a channel sets the time of the last traffic, the
  peers may hang up, and the loop takes a round. It runs no later than \<open>L\<close> after it is due, earlier when
  the ticker has an old tick left, and a round takes no longer than \<open>L\<close>; other steps do not delay it.
\<close>

inductive conn_step :: "int \<Rightarrow> int \<Rightarrow> int \<Rightarrow> gatewayConn \<Rightarrow> gatewayConn \<Rightarrow> bool" for expiresAt idleTimeout L where
  traffic: "gc_open g \<Longrightarrow> gc_now g \<le> t \<Longrightarrow> t \<le> gc_due g + L \<Longrightarrow>
    conn_step expiresAt idleTimeout L g (g\<lparr>gc_now := t, gc_last := t\<rparr>)"
| hang_up: "gc_open g \<Longrightarrow> gc_now g \<le> t \<Longrightarrow>
    conn_step expiresAt idleTimeout L g (g\<lparr>gc_now := t, gc_open := False\<rparr>)"
| goes_on: "gc_open g \<Longrightarrow> gc_now g \<le> t \<Longrightarrow> t \<le> gc_due g + L \<Longrightarrow> t \<le> t' \<Longrightarrow> t' \<le> u \<Longrightarrow> u \<le> t + L \<Longrightarrow>
    gc_last g \<le> l \<Longrightarrow> l \<le> u \<Longrightarrow> limits_round expiresAt idleTimeout t t' (gc_last g) l = SleepFor d \<Longrightarrow>
    conn_step expiresAt idleTimeout L g (g\<lparr>gc_now := u, gc_last := l, gc_due := u + d\<rparr>)"
| closes: "gc_open g \<Longrightarrow> gc_now g \<le> t \<Longrightarrow> t \<le> gc_due g + L \<Longrightarrow> t \<le> t' \<Longrightarrow> t' \<le> u \<Longrightarrow> u \<le> t + L \<Longrightarrow>
    gc_last g \<le> l \<Longrightarrow> l \<le> u \<Longrightarrow> limits_round expiresAt idleTimeout t t' (gc_last g) l = CloseConns \<Longrightarrow>
    conn_step expiresAt idleTimeout L g (g\<lparr>gc_now := u, gc_last := l, gc_open := False\<rparr>)"

inductive_cases conn_stepE: "conn_step expiresAt idleTimeout L g h"

inductive conn_run :: "int \<Rightarrow> int \<Rightarrow> int \<Rightarrow> gatewayConn \<Rightarrow> gatewayConn \<Rightarrow> bool" for expiresAt idleTimeout L g where
  start: "conn_run expiresAt idleTimeout L g g"
| later: "conn_run expiresAt idleTimeout L g h \<Longrightarrow> conn_step expiresAt idleTimeout L h k \<Longrightarrow>
    conn_run expiresAt idleTimeout L g k"

section \<open>Lemmas on the limits\<close>

lemma limits_sleep:
  assumes "limits_round expiresAt idleTimeout now later last1 last2 = SleepFor d"
  shows "500000000 \<le> d" and "d \<le> 5000000000"
    and "expiresAt \<noteq> zero_time \<Longrightarrow> now < expiresAt \<and> later < expiresAt \<and> d \<le> max 500000000 (expiresAt - later)"
    and "0 < idleTimeout \<Longrightarrow> now < last1 + idleTimeout \<and> d \<le> max 500000000 (idleTimeout - (now - last2))"
  using assms unfolding limits_round_def Let_def by (auto split: if_splits)

text \<open>The loop ends a connection only for a reason that a reading of the clock gives.\<close>

lemma limits_close:
  assumes "limits_round expiresAt idleTimeout now later last1 last2 = CloseConns" and "now \<le> later" and "last1 \<le> last2"
  shows "(expiresAt \<noteq> zero_time \<and> expiresAt \<le> later) \<or> (0 < idleTimeout \<and> last1 + idleTimeout \<le> now)"
  using assms unfolding limits_round_def Let_def by (auto split: if_splits)

text \<open>While a connection is open, the next round is due soon after each limit at the latest.\<close>

definition due_in_time :: "int \<Rightarrow> int \<Rightarrow> int \<Rightarrow> int \<Rightarrow> gatewayConn \<Rightarrow> bool" where
  "due_in_time expiresAt idleTimeout L t g \<longleftrightarrow>
     (gc_open g \<longrightarrow>
        gc_last g \<le> gc_now g \<and> gc_now g \<le> gc_due g + L \<and>
        (expiresAt \<noteq> zero_time \<longrightarrow> gc_due g \<le> max t expiresAt + 500000000 + L) \<and>
        (0 < idleTimeout \<longrightarrow> gc_due g \<le> gc_last g + idleTimeout + 500000000 + L))"

lemma due_in_time_step:
  assumes "conn_step expiresAt idleTimeout L g h" and "0 \<le> L" and "due_in_time expiresAt idleTimeout L t g"
  shows "due_in_time expiresAt idleTimeout L t h"
  using assms(1)
proof (cases rule: conn_step.cases)
  case (traffic v)
  then show ?thesis using assms(2,3) by (auto simp: due_in_time_def)
next
  case (goes_on v t' u l d)
  note r = limits_sleep [OF goes_on(10)]
  have "expiresAt \<noteq> zero_time \<longrightarrow> u + d \<le> max t expiresAt + 500000000 + L"
    using r(1,3) goes_on(5,6,7) by auto
  moreover have "0 < idleTimeout \<longrightarrow> u + d \<le> l + idleTimeout + 500000000 + L"
    using r(1,4) goes_on(5,6,7,8) by auto
  ultimately show ?thesis using assms(2) r(1) goes_on by (simp add: due_in_time_def)
qed (simp_all add: due_in_time_def)

lemma run_due_in_time:
  assumes "conn_run expiresAt idleTimeout L (fresh_conn t) g" and "0 \<le> L"
  shows "due_in_time expiresAt idleTimeout L t g"
  using assms(1)
proof induction
  case start
  have "t \<le> max t expiresAt + 500000000 + L" using assms(2) by simp
  then show ?case using assms(2) by (simp add: due_in_time_def fresh_conn_def)
next
  case (later h k)
  from due_in_time_step [OF later.hyps(2) assms(2) later.IH] show ?case .
qed

section \<open>The answer of the control plane\<close>

text \<open>
  How the framework answers the gateway's request: 200 with the JSON text of what the method returns,
  the status of an \<open>HttpException\<close>, 500 for other errors; the body of an error is not looked at.
\<close>

definition validate_json :: "sshValidateResult \<Rightarrow> json" where
  "validate_json v =
     JObj [(''sandboxId'', JStr (va_sandboxId v)), (''hostPort'', JNum (va_hostPort v)),
           (''expiresAt'', JStr (va_expiresAt v))]"

fun api_reply :: "exn + ssh_response \<Rightarrow> apiReply" where
  "api_reply (Inr (TokenValid v)) = Reply 200 (stringify (validate_json v))"
| "api_reply (Inr _) = Reply 200 ''{}''"
| "api_reply (Inl (HttpException status m)) = Reply (int status) m"
| "api_reply (Inl _) = Reply 500 ''Internal server error''"

text \<open>The header that the gateway sends; Go's HTTP client cuts off ASCII blanks at its ends.\<close>

definition go_trim :: "string \<Rightarrow> string" where
  "go_trim s =
     (let blank = (\<lambda>c. c \<in> {CHR '' '', CHR 0x09, CHR 0x0A, CHR 0x0D})
      in rev (dropWhile blank (rev (dropWhile blank s))))"

definition gateway_auth :: "gatewaySettings \<Rightarrow> header option" where
  "gateway_auth gs = Some (HeaderOne (go_trim (''Bearer '' @ gs_apiKey gs)))"

text \<open>A connection whose user name is \<open>token\<close>, at the state of the control plane that the request meets.\<close>

definition connect :: "'v io \<Rightarrow> (string \<Rightarrow> string option) \<Rightarrow> gatewaySettings \<Rightarrow> string \<Rightarrow> int \<Rightarrow> 'v sys \<Rightarrow>
    string + (string \<times> int)" where
  "connect io url_hostname gs token now s =
     admit (api_reply (fst (ssh_handle io url_hostname (gateway_auth gs) (ValidateSshToken token) s))) now"

lemma decode_validate:
  "int64 (va_hostPort v) = va_hostPort v \<Longrightarrow>
   decode_response (validate_json v) =
     Some \<lparr>vr_SandboxID = va_sandboxId v, vr_HostPort = va_hostPort v, vr_ExpiresAt = va_expiresAt v\<rparr>"
proof -
  have "toLowerCase ''sandboxId'' = ''sandboxid''" "toLowerCase ''hostPort'' = ''hostport''"
    "toLowerCase ''expiresAt'' = ''expiresat''" by code_simp+
  then show "int64 (va_hostPort v) = va_hostPort v \<Longrightarrow> ?thesis"
    by (simp add: decode_response_def validate_json_def no_response_def text_field_def int_field_def)
qed

lemma decode_validate_port:
  "decode_response (validate_json v) = Some r \<Longrightarrow> int64 (va_hostPort v) = va_hostPort v"
proof -
  have "toLowerCase ''sandboxId'' = ''sandboxid''" "toLowerCase ''hostPort'' = ''hostport''" by code_simp+
  then show "decode_response (validate_json v) = Some r \<Longrightarrow> ?thesis"
    by (simp add: decode_response_def validate_json_def no_response_def text_field_def int_field_def split: if_splits)
qed

lemma token_reply:
  assumes "\<And>m. r \<noteq> Inl (HttpException 200 m)"
  shows "gateway_validateToken (api_reply r) = Inr x \<longleftrightarrow>
     (\<exists>v. r = Inr (TokenValid v) \<and> int64 (va_hostPort v) = va_hostPort v \<and> va_hostPort v \<noteq> 0 \<and>
       x = \<lparr>vr_SandboxID = va_sandboxId v, vr_HostPort = va_hostPort v, vr_ExpiresAt = va_expiresAt v\<rparr>)"
  (is "_ \<longleftrightarrow> ?rhs")
proof
  assume *: "gateway_validateToken (api_reply r) = Inr x"
  have "json_parse ''{}'' = Some (JObj [])" using parse_stringify [of "JObj []"] by simp
  then obtain v where v: "r = Inr (TokenValid v)" using * assms
    by (cases r rule: api_reply.cases)
      (auto simp: gateway_validateToken_def decode_response_def no_response_def split: if_splits)
  with * obtain y where "decode_response (validate_json v) = Some y"
    by (auto simp: gateway_validateToken_def split: option.splits)
  then have "int64 (va_hostPort v) = va_hostPort v" by (rule decode_validate_port)
  with * v show ?rhs by (auto simp: gateway_validateToken_def decode_validate split: if_splits)
qed (auto simp: gateway_validateToken_def decode_validate)

lemma internalAuth_cases:
  "internalAuth_canActivate cfg h = Inr True \<or>
   internalAuth_canActivate cfg h = Inl (UnauthorizedException ''Invalid internal API token'')"
  by (simp add: internalAuth_canActivate_def split: option.splits)

lemma valid_not_200:
  assumes "database io"
  shows "fst (ssh_handle io url auth (ValidateSshToken token) s) \<noteq> Inl (HttpException 200 m)"
  using internalAuth_cases [of "io_config io" auth]
  by (auto simp: ssh_handle_def bnd_run route_validateToken_def database.validateSession_run [OF assms] Let_def
      split: option.splits prod.splits sum.splits if_splits)

lemma handled_valid:
  assumes "database io"
  shows "fst (ssh_handle io url auth (ValidateSshToken token) s) = Inr (TokenValid v) \<longleftrightarrow>
    internalAuth_canActivate (io_config io) auth = Inr True \<and> \<not> is_revoked io token s \<and>
    (\<exists>e. map_of (sessions s) (ssh_hash io token) = Some e \<and> fst (io_now io (ext s)) \<le> se_expiresAt e \<and>
       valid_date (se_expiresAt e) \<and>
       v = \<lparr>va_sandboxId = se_sandboxId e, va_hostPort = se_hostPort e, va_expiresAt = toISOString (se_expiresAt e)\<rparr>)"
  using internalAuth_cases [of "io_config io" auth]
  by (auto simp: ssh_handle_def bnd_run route_validateToken_def database.validateSession_run [OF assms] Let_def
      split: option.splits prod.splits sum.splits if_splits)

lemma int64_port: "0 \<le> i \<Longrightarrow> i < 9223372036854775808 \<Longrightarrow> int64 i = i"
  by (simp add: int64_def)

lemma gateway_admits:
  assumes "database io"
  shows "connect io url gs token now s = Inr (addr, ends) \<longleftrightarrow>
    internalAuth_canActivate (io_config io) (gateway_auth gs) = Inr True \<and> \<not> is_revoked io token s \<and>
    (\<exists>e. map_of (sessions s) (ssh_hash io token) = Some e \<and> fst (io_now io (ext s)) \<le> se_expiresAt e \<and>
       valid_date (se_expiresAt e) \<and> four_digit_year (se_expiresAt e) \<and>
       int64 (se_hostPort e) = se_hostPort e \<and> se_hostPort e \<noteq> 0 \<and>
       addr = ''127.0.0.1:'' @ int_digits (se_hostPort e) \<and> ends = se_expiresAt e * 1000000 \<and> now < ends)"
proof -
  define r where "r = fst (ssh_handle io url (gateway_auth gs) (ValidateSshToken token) s)"
  have parsed: "parse_rfc3339 (toISOString m) = Some ends \<longleftrightarrow> four_digit_year m \<and> ends = m * 1000000" for m
    using parse_toISOString [of m] parse_far_future [of m] by (cases "four_digit_year m") auto
  have token: "gateway_validateToken (api_reply r) = Inr x \<longleftrightarrow>
     (\<exists>v. r = Inr (TokenValid v) \<and> int64 (va_hostPort v) = va_hostPort v \<and> va_hostPort v \<noteq> 0 \<and>
       x = \<lparr>vr_SandboxID = va_sandboxId v, vr_HostPort = va_hostPort v, vr_ExpiresAt = va_expiresAt v\<rparr>)" for x
    unfolding r_def by (rule token_reply [OF valid_not_200 [OF assms]])
  have "connect io url gs token now s = Inr (addr, ends) \<longleftrightarrow>
    (\<exists>x. gateway_validateToken (api_reply r) = Inr x \<and> parse_rfc3339 (vr_ExpiresAt x) = Some ends \<and> now < ends \<and>
       addr = ''127.0.0.1:'' @ int_digits (vr_HostPort x))"
    unfolding connect_def admit_def r_def [symmetric] by (auto split: sum.splits option.splits)
  also have "\<dots> \<longleftrightarrow> (\<exists>v. r = Inr (TokenValid v) \<and> int64 (va_hostPort v) = va_hostPort v \<and> va_hostPort v \<noteq> 0 \<and>
       parse_rfc3339 (va_expiresAt v) = Some ends \<and> now < ends \<and> addr = ''127.0.0.1:'' @ int_digits (va_hostPort v))"
    unfolding token by auto
  also have "\<dots> \<longleftrightarrow> internalAuth_canActivate (io_config io) (gateway_auth gs) = Inr True \<and> \<not> is_revoked io token s \<and>
    (\<exists>e. map_of (sessions s) (ssh_hash io token) = Some e \<and> fst (io_now io (ext s)) \<le> se_expiresAt e \<and>
       valid_date (se_expiresAt e) \<and> int64 (se_hostPort e) = se_hostPort e \<and> se_hostPort e \<noteq> 0 \<and>
       parse_rfc3339 (toISOString (se_expiresAt e)) = Some ends \<and> now < ends \<and>
       addr = ''127.0.0.1:'' @ int_digits (se_hostPort e))"
    unfolding r_def handled_valid [OF assms] by auto
  finally show ?thesis unfolding parsed by blast
qed

section \<open>Properties\<close>

text \<open>C33: the gateway connects a client exactly when the control plane holds a session for its token: a
  stored session that is not revoked and not expired, with a year of four digits, whose port is
  not zero, asked for with the key that the control plane expects. The address is the session's
  port on the local host, the end is the session's expiry, and it lies in the future.\<close>

theorem gateway_admits_sessions:
  assumes "database io"
  shows "connect io url gs token now s = Inr (addr, ends) \<longleftrightarrow>
    internalAuth_canActivate (io_config io) (gateway_auth gs) = Inr True \<and> \<not> is_revoked io token s \<and>
    (\<exists>e. map_of (sessions s) (ssh_hash io token) = Some e \<and> fst (io_now io (ext s)) \<le> se_expiresAt e \<and>
       valid_date (se_expiresAt e) \<and> four_digit_year (se_expiresAt e) \<and>
       int64 (se_hostPort e) = se_hostPort e \<and> se_hostPort e \<noteq> 0 \<and>
       addr = ''127.0.0.1:'' @ int_digits (se_hostPort e) \<and> ends = se_expiresAt e * 1000000 \<and> now < ends)"
  by (rule gateway_admits [OF assms])

definition gateway_sys :: "world sys" where
  "gateway_sys = sys0\<lparr>sessions := [(ssh_hash (demo_io empty_config) ''tok'', \<lparr>se_sandboxId = ''box'', se_hostPort = 5, se_expiresAt = 5000\<rparr>)]\<rparr>"

lemma gateway_sys_facts:
  "internalAuth_canActivate empty_config (gateway_auth gs) = Inr True" "four_digit_year 5000"
  "\<not> is_revoked (demo_io empty_config) ''tok'' gateway_sys"
  "map_of (sessions gateway_sys) (ssh_hash (demo_io empty_config) ''tok'') =
     Some \<lparr>se_sandboxId = ''box'', se_hostPort = 5, se_expiresAt = 5000\<rparr>"
  "w_now (ext gateway_sys) = 1000"
proof -
  show "four_digit_year 5000" by code_simp
  show "internalAuth_canActivate empty_config (gateway_auth gs) = Inr True"
    by (simp add: internalAuth_canActivate_def internalApiToken_def opt_trim_def empty_config_def)
qed (simp_all add: gateway_sys_def sys0_def world0_def is_revoked_def)

lemma gateway_admits_example:
  "connect (demo_io empty_config) (\<lambda>_. None) gs ''tok'' 2000000000 gateway_sys =
     Inr (''127.0.0.1:'' @ int_digits 5, 5000000000)"
  unfolding gateway_admits [OF demo_database]
  by (simp add: gateway_sys_facts valid_date_def int64_def)

theorem gateway_admits_sessions_witness:
  "connect (demo_io empty_config) (\<lambda>_. None) (gateway_settings (\<lambda>_. None)) ''tok'' 2000000000 gateway_sys =
     Inr (''127.0.0.1:'' @ int_digits 5, 5000000000)"
  unfolding gateway_admits_sessions [OF demo_database]
  by (simp add: gateway_sys_facts valid_date_def int64_def)

text \<open>C34: a connection that the gateway admitted ends soon after its session. Whatever traffic there is,
  as long as the connection is open the clock is at most half a second and twice the delay of the
  loop past the expiry that the control plane stored, or past the moment the connection was set up, and,
  when an idle time is set, no further than that past the end of the idle time after the last
  traffic.\<close>

theorem gateway_connection_ends:
  assumes "database io" and "connect io url gs token now s = Inr (addr, ends)" and "0 \<le> now"
    and "conn_run ends (gs_idleTimeout gs) L (fresh_conn t) g" and "0 \<le> L" and "gc_open g"
  shows "\<exists>e. map_of (sessions s) (ssh_hash io token) = Some e \<and> \<not> is_revoked io token s \<and>
      addr = ''127.0.0.1:'' @ int_digits (se_hostPort e) \<and>
      gc_now g \<le> max t (se_expiresAt e * 1000000) + 500000000 + 2 * L \<and>
      (if 0 < gs_idleTimeout gs then gc_now g \<le> gc_last g + gs_idleTimeout gs + 500000000 + 2 * L else True)"
proof -
  obtain e where e: "map_of (sessions s) (ssh_hash io token) = Some e" "\<not> is_revoked io token s"
      "addr = ''127.0.0.1:'' @ int_digits (se_hostPort e)" "ends = se_expiresAt e * 1000000" "now < ends"
    using assms(2) unfolding gateway_admits [OF assms(1)] by blast
  have "ends \<noteq> zero_time" using e(5) assms(3) by (simp add: zero_time_def)
  with run_due_in_time [OF assms(4,5)] assms(6) e show ?thesis
    by (intro exI [of _ e]) (auto simp: due_in_time_def)
qed

text \<open>A connection set up at two seconds with a session until five: after a first round the next is due at the
  expiry.\<close>

theorem gateway_connection_ends_witness:
  "\<exists>g. conn_run 5000000000 (gs_idleTimeout (gateway_settings (\<lambda>_. None))) 1000 (fresh_conn 2000000000) g \<and>
     gc_due g = 5000000000 \<and> gc_now g \<le> 5500002000"
proof -
  let ?gs = "gateway_settings (\<lambda>_. None)"
  let ?g = "(fresh_conn 2000000000)\<lparr>gc_now := 2000000000, gc_last := 2000000000, gc_due := 2000000000 + 3000000000\<rparr>"
  have idle: "gs_idleTimeout ?gs = 600000000000"
    by (simp add: gateway_settings_def readDurationSeconds_def envOrDefault_def scan_int_def)
  have "conn_step 5000000000 (gs_idleTimeout ?gs) 1000 (fresh_conn 2000000000) ?g"
    by (rule conn_step.goes_on [where t = 2000000000 and t' = 2000000000])
      (simp_all add: fresh_conn_def idle limits_round_def zero_time_def)
  then have run: "conn_run 5000000000 (gs_idleTimeout ?gs) 1000 (fresh_conn 2000000000) ?g"
    by (rule conn_run.later [OF conn_run.start])
  have "\<exists>e. map_of (sessions gateway_sys) (ssh_hash (demo_io empty_config) ''tok'') = Some e \<and>
      gc_now ?g \<le> max 2000000000 (se_expiresAt e * 1000000) + 500000000 + 2 * 1000"
    using gateway_connection_ends [OF demo_database gateway_admits_example _ run] by (auto simp: fresh_conn_def)
  then have "gc_now ?g \<le> 5500002000" by (simp add: gateway_sys_def)
  with run show ?thesis by (intro exI [of _ ?g]) simp
qed

end
