(* ===== verification/InjectSshd.thy ===== *)
theory InjectSshd
  imports SshSession ProxyToken
begin

text \<open>
  The SSH daemon inside a sandbox (src/apps/inject-sshd/main.go), a program of its own in Go: which
  keys it admits, and what it runs in a session. Files are texts of code units below 256, keys
  lists of bytes. The SSH library, the terminal and the host key are not modelled. The control plane
  writes the file of admitted keys from the public key of the gateway; \<open>authorized_keys_admit\<close> shows
  that the daemon reads back exactly that key.
\<close>

section \<open>Go's strings and base64\<close>

definition go_space :: "char \<Rightarrow> bool" where
  "go_space c \<longleftrightarrow> (of_char c :: nat) \<in> {9, 10, 11, 12, 13, 32, 133, 160}"

definition trimSpace :: "string \<Rightarrow> string" where
  "trimSpace s = strip_ends go_space s"

text \<open>\<open>strings.Fields\<close>: the runs of characters that are not white space.\<close>

function go_fields :: "string \<Rightarrow> string list" where
  "go_fields s =
     (let t = dropWhile go_space s in
      if t = [] then [] else takeWhile (\<lambda>c. \<not> go_space c) t # go_fields (dropWhile (\<lambda>c. \<not> go_space c) t))"
  by pat_completeness auto
termination
proof (relation "measure length")
  fix s t assume t: "t = dropWhile go_space s" "t \<noteq> []"
  then have "\<not> go_space (hd t)" using hd_dropWhile by metis
  with t(2) have "length (dropWhile (\<lambda>c. \<not> go_space c) t) < length t"
    by (cases t) (auto simp: le_imp_less_Suc length_dropWhile_le)
  also have "\<dots> \<le> length s" unfolding t(1) by (rule length_dropWhile_le)
  finally show "(dropWhile (\<lambda>c. \<not> go_space c) t, s) \<in> measure length" by simp
qed simp

declare go_fields.simps [simp del]

text \<open>The standard alphabet, with padding; \<open>None\<close> is a decoding error.\<close>

definition std_char :: "nat \<Rightarrow> char" where
  "std_char v = (if v = 62 then CHR ''+'' else if v = 63 then CHR ''/'' else b64_char v)"

definition std_val :: "char \<Rightarrow> nat option" where
  "std_val c = (if c = CHR ''-'' \<or> c = CHR ''_'' then None else b64_val c)"

fun std_encode :: "nat list \<Rightarrow> string" where
  "std_encode [] = []"
| "std_encode [a] = map std_char (sextets [a]) @ ''==''"
| "std_encode [a, b] = map std_char (sextets [a, b]) @ ''=''"
| "std_encode (a # b # c # r) = map std_char (sextets [a, b, c]) @ std_encode r"

fun std_decode :: "string \<Rightarrow> nat list option" where
  "std_decode [] = Some []"
| "std_decode (a # b # c # d # r) =
     (case (std_val a, std_val b) of
        (Some va, Some vb) \<Rightarrow>
          if r = [] \<and> c = CHR ''='' \<and> d = CHR ''='' then Some (octets [va, vb])
          else (case std_val c of
                  None \<Rightarrow> None
                | Some vc \<Rightarrow>
                    if r = [] \<and> d = CHR ''='' then Some (octets [va, vb, vc])
                    else (case (std_val d, std_decode r) of
                            (Some vd, Some bs) \<Rightarrow> Some (octets [va, vb, vc, vd] @ bs)
                          | _ \<Rightarrow> None))
      | _ \<Rightarrow> None)"
| "std_decode _ = None"

section \<open>Admitted keys\<close>

definition line_admits :: "nat list \<Rightarrow> string \<Rightarrow> bool" where
  "line_admits key raw =
     (let line = trimSpace raw in
      if line = [] \<or> prefix ''#'' line then False
      else (case go_fields line of
              _ # text # _ \<Rightarrow> std_decode text = Some key
            | _ \<Rightarrow> False))"

definition keyAuthorized :: "nat list \<Rightarrow> string \<Rightarrow> bool" where
  "keyAuthorized key authorized = list_ex (line_admits key) (split_on (CHR 0x0A) authorized)"

text \<open>The handler: the file at its path, \<open>None\<close> when it cannot be read.\<close>

definition authHandler :: "nat list \<Rightarrow> string option \<Rightarrow> bool" where
  "authHandler key file = (case file of None \<Rightarrow> False | Some authorized \<Rightarrow> keyAuthorized key authorized)"

section \<open>Sessions\<close>

text \<open>The environment of the daemon and the files of the sandbox are parameters.\<close>

definition resolveShell :: "(string \<Rightarrow> string option) \<Rightarrow> (string \<Rightarrow> bool) \<Rightarrow> string" where
  "resolveShell env isExecutable =
     (let candidate = trimSpace (or_else (env ''SHELL'') []) in
      if candidate \<noteq> [] \<and> isExecutable candidate then candidate
      else (case find isExecutable [''/usr/bin/bash'', ''/bin/bash'', ''/bin/sh''] of
              Some c \<Rightarrow> c
            | None \<Rightarrow> ''/bin/sh''))"

definition homeDir :: "(string \<Rightarrow> string option) \<Rightarrow> string" where
  "homeDir env = (case env ''HOME'' of None \<Rightarrow> ''/root'' | Some h \<Rightarrow> if h = [] then ''/root'' else h)"

text \<open>The client's terminal: the first of its variables that sets it.\<close>

definition session_term :: "string list \<Rightarrow> string" where
  "session_term environ =
     (case find (prefix ''TERM='') environ of None \<Rightarrow> ''xterm-256color'' | Some e \<Rightarrow> drop (length ''TERM='') e)"

record sessionCommand =
  sc_args :: "string list"
  sc_env :: "string list option"
  sc_dir :: "string option"
  sc_pty :: "(int \<times> int) option"

text \<open>
  What the session runs: the client's command by the shell, in the daemon's environment, or the
  shell itself, with variables after those of the daemon, on a terminal when the client asked for
  one, whose size is taken modulo \<open>2 ^ 16\<close>.
\<close>

definition session_command ::
  "(string \<Rightarrow> string option) \<Rightarrow> string list \<Rightarrow> (string \<Rightarrow> bool) \<Rightarrow> string \<Rightarrow> string list \<Rightarrow> (int \<times> int) option \<Rightarrow>
   sessionCommand" where
  "session_command env environ isExecutable rawCommand clientEnv window =
     (let shell = resolveShell env isExecutable in
      if rawCommand \<noteq> []
      then \<lparr>sc_args = [shell, ''-c'', rawCommand], sc_env = None, sc_dir = None, sc_pty = None\<rparr>
      else \<lparr>sc_args = [shell],
             sc_env = Some (environ @ [''TERM='' @ session_term clientEnv, ''SHELL='' @ shell, ''USER=root'',
               ''LOGNAME=root'', ''HOME='' @ homeDir env, ''PS1=root@microsandbox# '']),
             sc_dir = Some (homeDir env),
             sc_pty = map_option (\<lambda>(w, h). (w mod 65536, h mod 65536)) window\<rparr>)"

section \<open>Lemmas\<close>

lemma shell_executable:
  "isExecutable (resolveShell env isExecutable) \<or> resolveShell env isExecutable = ''/bin/sh''"
  by (auto simp: resolveShell_def Let_def find_Some_iff split: option.split)

lemma b64_code:
  "v < 62 \<Longrightarrow> (of_char (b64_char v) :: nat) = (if v < 26 then v + 65 else if v < 52 then v + 71 else v - 4)"
  by (simp add: b64_char_def)

lemma std_char_facts [simp]:
  assumes "v < 64"
  shows "std_val (std_char v) = Some v" and "std_char v \<noteq> CHR ''=''" and "\<not> go_space (std_char v)"
proof -
  consider "v < 62" | "v = 62" | "v = 63" using assms by linarith
  then have "std_val (std_char v) = Some v \<and> std_char v \<noteq> CHR ''='' \<and> \<not> go_space (std_char v)"
  proof cases
    case 1
    have "(of_char (b64_char v) :: nat) \<notin> {9, 10, 11, 12, 13, 32, 133, 160, 45, 61, 95}"
      unfolding b64_code [OF 1] using 1 by auto
    moreover have "of_char (CHR ''-'') = (45 :: nat)" "of_char (CHR ''='') = (61 :: nat)" "of_char (CHR ''_'') = (95 :: nat)"
      by simp_all
    ultimately have "b64_char v \<noteq> CHR ''-''" "b64_char v \<noteq> CHR ''_''" "b64_char v \<noteq> CHR ''=''" "\<not> go_space (b64_char v)"
      by (auto simp: go_space_def simp del: of_char_Char)
    then show ?thesis using 1 b64_val_char [of v] by (simp add: std_char_def std_val_def)
  next
    case 2
    show ?thesis unfolding 2 by code_simp
  next
    case 3
    show ?thesis unfolding 3 by code_simp
  qed
  then show "std_val (std_char v) = Some v" "std_char v \<noteq> CHR ''=''" "\<not> go_space (std_char v)" by blast+
qed

lemma std_decode_encode: "\<forall>b \<in> set bs. b < 256 \<Longrightarrow> std_decode (std_encode bs) = Some bs"
proof (induction bs rule: std_encode.induct)
  case (2 a)
  obtain v w where s: "sextets [a] = [v, w]" by simp
  then show ?case using octets_sextets [of "[a]"] sextets_small [of "[a]"] 2 by (simp del: sextets.simps octets.simps)
next
  case (3 a b)
  obtain v w x where s: "sextets [a, b] = [v, w, x]" by simp
  then show ?case using octets_sextets [of "[a, b]"] sextets_small [of "[a, b]"] 3
    by (simp del: sextets.simps octets.simps)
next
  case (4 a b c r)
  obtain v w x y where s: "sextets [a, b, c] = [v, w, x, y]" by simp
  then show ?case using octets_sextets [of "[a, b, c]"] sextets_small [of "[a, b, c]"] 4
    by (simp del: sextets.simps octets.simps)
qed simp

lemma std_encode_spaces: "\<forall>b \<in> set bs. b < 256 \<Longrightarrow> list_all (\<lambda>c. \<not> go_space c) (std_encode bs)"
proof (induction bs rule: std_encode.induct)
  case (4 a b c r)
  then show ?case using sextets_small [of "[a, b, c]"] by simp
next
  case (2 a)
  have "\<not> go_space (CHR ''='')" by code_simp
  with 2 show ?case using sextets_small [of "[a]"] by simp
next
  case (3 a b)
  have "\<not> go_space (CHR ''='')" by code_simp
  with 3 show ?case using sextets_small [of "[a, b]"] by simp
qed simp

lemma std_encode_Nil [simp]: "std_encode bs = [] \<longleftrightarrow> bs = []"
  by (cases bs rule: std_encode.cases) simp_all

lemma go_fields_word: "w \<noteq> [] \<Longrightarrow> list_all (\<lambda>c. \<not> go_space c) w \<Longrightarrow> go_fields w = [w]"
proof -
  assume w: "w \<noteq> []" "list_all (\<lambda>c. \<not> go_space c) w"
  then have "dropWhile go_space w = w" by (cases w) simp_all
  moreover have "takeWhile (\<lambda>c. \<not> go_space c) w = w" "dropWhile (\<lambda>c. \<not> go_space c) w = []"
    using w(2) by (simp_all add: list_all_iff)
  ultimately show "go_fields w = [w]"
    using w(1) by (subst go_fields.simps)
      (simp add: Let_def go_fields.simps [of "[]"] del: dropWhile_eq_Nil_conv takeWhile_eq_all_conv)
qed

lemma go_fields_two:
  assumes "v \<noteq> []" "list_all (\<lambda>c. \<not> go_space c) v" "w \<noteq> []" "list_all (\<lambda>c. \<not> go_space c) w"
  shows "go_fields (v @ CHR 0x20 # w) = [v, w]"
proof -
  have sp: "go_space (CHR 0x20)" by code_simp
  have "dropWhile go_space (v @ CHR 0x20 # w) = v @ CHR 0x20 # w" using assms(1,2) by (cases v) simp_all
  moreover have "takeWhile (\<lambda>c. \<not> go_space c) (v @ CHR 0x20 # w) = v"
    "dropWhile (\<lambda>c. \<not> go_space c) (v @ CHR 0x20 # w) = CHR 0x20 # w"
    using assms(2) sp by (simp_all add: list_all_iff takeWhile_append2 dropWhile_append2)
  moreover have "go_fields (CHR 0x20 # w) = go_fields w"
    using sp by (subst (1 2) go_fields.simps) simp
  ultimately show ?thesis
    using assms(1) go_fields_word [OF assms(3,4)] by (subst go_fields.simps) (simp add: Let_def)
qed

lemma js_space_go: "is_js_space c \<Longrightarrow> go_space c"
  by (auto simp: is_js_space_def go_space_def)

text \<open>The line of a public key: its kind, and its bytes in base64.\<close>

definition key_line :: "string \<Rightarrow> nat list \<Rightarrow> string" where
  "key_line kind key = kind @ CHR 0x20 # std_encode key"

definition key_kind :: "string \<Rightarrow> bool" where
  "key_kind kind \<longleftrightarrow> kind \<noteq> [] \<and> list_all (\<lambda>c. \<not> go_space c) kind \<and> hd kind \<noteq> CHR ''#''"

lemma key_line_facts:
  assumes "key_kind kind" and "key \<noteq> []" and "\<forall>b \<in> set key. b < 256"
  shows "trim (key_line kind key @ [CHR 0x0A]) = key_line kind key" and "trimSpace (key_line kind key) = key_line kind key"
    and "trim (key_line kind key) = key_line kind key"
    and "split_on (CHR 0x0A) (key_line kind key @ [CHR 0x0A]) = [key_line kind key, []]"
    and "line_admits k (key_line kind key) \<longleftrightarrow> k = key"
proof -
  let ?line = "key_line kind key"
  have enc: "std_encode key \<noteq> []" "list_all (\<lambda>c. \<not> go_space c) (std_encode key)"
    using assms(2,3) std_encode_spaces by simp_all
  have kind: "kind \<noteq> []" "list_all (\<lambda>c. \<not> go_space c) kind" "hd kind \<noteq> CHR ''#''"
    using assms(1) by (simp_all add: key_kind_def)
  have ends: "\<not> go_space (hd ?line)" "\<not> go_space (last ?line)" "?line \<noteq> []" "hd ?line = hd kind"
    using enc kind by (auto simp: key_line_def list_all_iff)
  show "trimSpace ?line = ?line" using ends by (simp add: trimSpace_def strip_ends_id)
  have js: "\<not> is_js_space (hd ?line)" "\<not> is_js_space (last ?line)" using ends js_space_go by blast+
  then show "trim ?line = ?line" by (simp add: trim_def strip_ends_id)
  have "is_js_space (CHR 0x0A)" by code_simp
  then have "drop_end is_js_space (?line @ [CHR 0x0A]) = ?line"
    using js(2) ends(3) by (cases ?line rule: rev_cases) (simp_all add: drop_end_def)
  moreover have "dropWhile is_js_space (?line @ [CHR 0x0A]) = ?line @ [CHR 0x0A]"
    using js(1) ends(3) by (cases ?line) simp_all
  ultimately show "trim (?line @ [CHR 0x0A]) = ?line" by (simp add: trim_def strip_ends_def)
  have "go_space (CHR 0x0A)" by code_simp
  then have "CHR 0x0A \<notin> set ?line"
    using enc(2) kind(2) by (auto simp: key_line_def list_all_iff)
  then show "split_on (CHR 0x0A) (?line @ [CHR 0x0A]) = [?line, []]"
    using split_on_append [of "CHR 0x0A" ?line "[]"] by simp
  have "go_fields ?line = [kind, std_encode key]"
    unfolding key_line_def by (rule go_fields_two [OF kind(1,2) enc])
  moreover have "\<not> prefix ''#'' ?line" using ends(3,4) kind(3) by (cases ?line) auto
  ultimately show "line_admits k ?line \<longleftrightarrow> k = key"
    using ends \<open>trimSpace ?line = ?line\<close> by (auto simp: line_admits_def Let_def std_decode_encode [OF assms(3)])
qed

lemma empty_line_admits [simp]: "\<not> line_admits k []"
  by (simp add: line_admits_def trimSpace_def strip_ends_def drop_end_def)

lemma no_file_admits [simp]: "\<not> keyAuthorized k []"
  by (simp add: keyAuthorized_def)

section \<open>Properties\<close>

text \<open>C35: the daemon in a sandbox admits the key of the gateway and no other. From the file that the
  gateway writes for its public key, a kind and the key in base64 on a line, the control plane
  makes the list of admitted keys of a sandbox, and of this list the daemon admits exactly that
  key; without the gateway's file the list is empty and it admits none.\<close>

theorem authorized_keys_admit:
  assumes "key_kind kind" and "key \<noteq> []" and "\<forall>b \<in> set key. b < 256" and "file = key_line kind key @ [CHR 0x0A]"
  shows "(authHandler k (Some (buildAuthorizedKeysContent [trim file])) \<longleftrightarrow> k = key) \<and> \<not> authHandler k (Some [])"
proof -
  note facts = key_line_facts [OF assms(1-3)]
  have "key_line kind key \<noteq> []" by (simp add: key_line_def)
  then have "buildAuthorizedKeysContent [trim file] = key_line kind key @ [CHR 0x0A]"
    by (simp add: buildAuthorizedKeysContent_def assms(4) facts)
  then show ?thesis by (simp add: authHandler_def keyAuthorized_def facts)
qed

theorem authorized_keys_admit_witness:
  "authHandler [0, 0, 0, 11] (Some (buildAuthorizedKeysContent [trim (key_line ''ssh-ed25519'' [0, 0, 0, 11] @ [CHR 0x0A])]))"
proof -
  have "key_kind ''ssh-ed25519''" by code_simp
  then show ?thesis using authorized_keys_admit [OF _ _ _ refl, of "''ssh-ed25519''" "[0, 0, 0, 11]" "[0, 0, 0, 11]"] by simp
qed

end
