(* ===== verification/Spec2Isabelle.thy ===== *)
theory Spec2Isabelle
  imports Proxy Control_Facts Adapter_Facts LeaseRace ProxyToken Bounds_Safety Setup Service Routes Bootstrap Gateway
    InjectSshd
begin

text \<open>
  A model of the control plane of microsandbox-cloud, the NestJS service under
  src/apps/cloud-api/src (paths below are relative to it unless they start with src/), and of the
  two Go programs that work with it, src/apps/ssh-gateway and src/apps/inject-sshd. The service keeps sandboxes
  (microVMs) on one host: it turns a request into a specification, leases host ports for it,
  has the VM made by a backend, records everything in SQLite through TypeORM, and lets users
  reach a sandbox through a preview proxy or through SSH session tokens.

  METHODS AND STATE. An asynchronous method is a function from the state to a result and the next
  state (type eff of Prelude): Inr of the value of the resolved promise, or Inl of the exception
  it rejects with; bnd is await, catching is try/catch, ensuring is try/finally. The state of the
  service (record sys of Platform) is the six tables, the session map of SshSessionService and
  the state of the outside world, a type parameter. The record io holds what the service is
  given: the configuration, the VM backend, the repositories, the clock, timers, random texts
  and the SHA-256 digest.

  THEORIES.
  Prelude, JsString, Json, JsDate, JsUri, JsonParse, PosixPath: the effects, and the parts of
  JavaScript and Node the services use (string operations, JSON.stringify and JSON.parse, ISO
  dates, UTF-8, percent encoding and base64url, path.posix). GoTime: RFC 3339 times as Go reads them.
  Config: AppConfigService (config/app-config.service.ts), every getter.
  Identity: RuntimeIdentityService (runtime-control/runtime-identity.service.ts).
  Entities, Repository: the entity classes (database/*.entity.ts, ssh/entities/) with their unique
  constraints, and the TypeORM repository as a record of operations with the laws of the locale
  repository, which a list of rows is shown to satisfy.
  Platform, World: the interface MicrosandboxAdapter, the state, the operations on the tables, the
  locale database; World has one concrete environment, demo_io, on which the examples run.
  Registry: RuntimeRegistryService (runtime-registry/runtime-registry.service.ts): rows, names, port
  leases, volumes, preview tokens, summaries.
  Control_Spec, Control: the request classes (runtime-control/dto/) and RuntimeControlService
  (runtime-control/runtime-control.service.ts): building a specification, volume mounts, the
  decision to recreate, provisioning, power, deletion, previews, execution and files.
  Controller: SandboxController (runtime-control/sandbox.controller.ts), the guards (shared/,
  ssh/ssh-gateway.guard.ts), the validation pipe of main.ts, the health check (health/).
  SshSession, SshApi: SshSessionService, SshController and SshService (ssh/), and the SSH routes
  behind guard and validation together with the rest of the API.
  Routes: the routes that the decorators of the controllers declare, as a table, and the way from a
  method and a path to the call, over the router of the framework as a parameter.
  Shell, SandboxAdapter: MicrosandboxAdapterService (microsandbox/microsandbox-adapter.service.ts):
  shell quoting and the launch script; the VM backend over an SDK, a command line, sockets and a
  clock; sandboxAdapter fills the interface of Platform, so that the services run on the backend.
  Proxy: ProxyService (proxy/proxy.service.ts) and its two handlers in main.ts.
  ProxyToken: ProxyTokenService (auth/proxy-token.service.ts), which no other service uses.
  Setup: the database options of app.module.ts, database/data-source.ts and the migration.
  Logging: WinstonLoggerService (logger/winston-logger.service.ts). Bootstrap: bootstrap (main.ts), the
  API documentation (swagger/setup.ts), the modules and what the constructors ask for.
  Service: the running service as a state machine, whose steps are API requests, SSH calls, proxy
  requests and upgrades, health checks, restarts and outside events; histories are sequences of
  steps.
  Gateway: the SSH gateway (src/apps/ssh-gateway/main.go): the validation of a token against the
  model of the control plane, and the limits of a connection as a step relation over clock readings.
  InjectSshd: the SSH daemon in a sandbox (src/apps/inject-sshd/main.go): admitted keys, sessions.
  Control_Facts, Port_Safety, Adapter_Facts, LeaseRace, Bounds_Safety: theorems that span these.
\<close>

text \<open>
  WHAT IS SHOWN.
  Tables: every method and every API request keeps keys and unique constraints, and the bounds of
  the request classes for every stored sandbox (Bounds_Safety).
  Ports: leasePorts is specified on both outcomes; sequences and interleavings of calls
  (LeaseRace) never grant a port twice; provisioning and every request keep the invariant that a
  bound host port is leased to its sandbox alone (Port_Safety), with the one exception that the
  code has: a shortage drops all leases of a sandbox, whose row stays. After any history of the
  service (Service) all sandboxes but at most one for each failed allocation have their ports to
  themselves. From this invariant the proxy theorems follow: after any history a request is
  forwarded only to a port of the sandbox it named and was admitted to.
  Access: guards come before any effect; preview tokens, signed preview tokens, signed proxy tokens
  and SSH session tokens open what they were made for, until they expire or are revoked; a revoked
  SSH token stays dead through every later history, and an SSH session outlives the deletion of
  its sandbox. The gateway connects a client exactly when the control plane holds a live session for
  its token, and closes the connection soon after the session's expiry; the daemon in the
  sandbox admits the gateway's key and no other. Every request is served at its address, whatever
  router serves the declared routes, and none of these hides another.
  Start: every constructor finds what it asks for, in an order without cycles; the services with state in
  memory exist once, as the state of the model has them (wiring_complete, stateful_once).
  Specifications: what buildSpec makes is well formed; volume mounts are resolved as an abstract
  relation says, with the reason of every failure; what an update changes and what it cannot change.
  Backend: quoted commands are read back word by word, and the launch script as its list of commands, by
  readers for the POSIX shell (words, assignments, redirections, background commands, and the
  reserved words, at which the reader gives up because it has no compound commands); the order of
  the bootstrap patch; which commands run in a sandbox at its creation and at a start; retries, waits and image pulls are bounded; a created sandbox is detached on
  every path.

  INTERFACES. The locale repository states what the code relies on of a TypeORM repository (insert
  refuses a row that breaks a unique constraint, findOne returns a row with the property, delete
  removes exactly the rows with it); database is six of them and gives them by sublocales; it is
  interpreted on the lists of mem_io. port_allocator is the contract of leasing and releasing,
  which database is a sublocale of. id_normalizer is the contract of the two identity functions.
  clocked (time does not run back and a timer takes its time), clocked_sdk, instant_sdk, backed,
  cli_log and exec_log (observers of the command lines and of the commands run in sandboxes) state
  what the loops and the theorems on commands rely on; all are interpreted on demo_io
  and demo_sdk. routing is what the declared routes rely on of the framework's router and number pipe,
  interpreted on plain_router.

  BOUNDS AND FUEL. Loops over a deadline (wait_loop, stop_loop) get one turn more than the timeout
  has milliseconds; each turn takes at least one, so the turns are enough, and the theorems
  waitForHealthy_ends and waitForSandboxStop_ends say that the loop ends by itself. A command is
  tried three times by the code's own count. run_alone gives a lone call of leasePorts two steps
  for each port of the range and two more. json_value gets one turn more than the text has
  characters, which each turn consumes. The loop of the gateway is a relation without fuel: its theorem
  bounds the clock while a connection is open, given that a round starts and ends within a
  delay L. Numbers are integers: ports, times and sizes are exact
  integers below 2^53 in the code; the idle time of the gateway wraps around at 64 bits. A string
  is a list of code units below 256. Dates that a request sets are checked against the range of
  a JavaScript date, as toISOString does; dates from the clock, and the expiry of a signed preview token
  with the configured lifetime, are taken to lie in it.

  PARAMETERS. TypeORM and SQLite (the laws of repository), the microsandbox SDK and its msb command,
  the file system, sockets, the clock, random texts, SHA-256 and HMAC, the WHATWG URL parser, the
  http-proxy package, the text of a JSON syntax error, the framework's router and number pipe.

  NOT MODELLED. The framework's decoding of a path and its reading of a body (a request
  has the segments and what the framework made of the body; whitelist and type checks of a body
  are the types of the model; the body of images/pull, which the framework does not check, is taken to
  have its declared type; a property that is null and one that is absent are the same), two request classes that no code uses, the output of the log lines
  of the services (the logger itself is in Logging), of the Go programs the SSH library, the
  copying of channels and terminals and the making of key files, and tests, scripts and deployment
  files. Requests are taken one at a time, but for the overlapping calls of LeaseRace.
\<close>

end
